(* ===== verification/Prelude.thy ===== *)
theory Prelude
  imports
    Complex_Main
    "HOL-Library.Word"
    "HOL-Library.Sublist"
    "HOL-Library.Char_ord"
    "HOL-Library.List_Lexorder"
begin

text \<open>
  Shared ground of the development: the types that stand for Go's basic types, the lemmas on
  lists, keyed rows, decimal numerals and 64-bit integers that several components use, and the
  interface by which a component lifts a one-step invariant to whole runs.

  A Go string or byte slice is a HOL \<open>string\<close> (its bytes); an \<open>int\<close> that the code does not let
  overflow is an \<open>int\<close>; an instant (\<open>time.Time\<close>) is the number of nanoseconds since Go's zero
  time, so \<open>IsZero\<close> is \<open>t = 0\<close>, and a \<open>time.Duration\<close> is a number of nanoseconds. The zone an
  instant is displayed in is not modelled.
\<close>

type_synonym bytes = string
type_synonym time = int
type_synonym duration = int

named_theorems inv_intros \<open>preservation of the components' invariants\<close>
named_theorems op_defs \<open>definitions of straight-line operations, for unfolding\<close>

section \<open>IEEE numbers as the code compares them\<close>

text \<open>
  A Go \<open>float64\<close>: the finite values are rationals (the two zeros are one value, they compare
  equal), and every comparison with a NaN is false.
\<close>

datatype float64 = Finite rat | PosInf | NegInf | NaN

fun f_less :: "float64 \<Rightarrow> float64 \<Rightarrow> bool" where
  "f_less NaN y = False"
| "f_less x NaN = False"
| "f_less (Finite a) (Finite b) = (a < b)"
| "f_less NegInf y = (y \<noteq> NegInf)"
| "f_less x NegInf = False"
| "f_less PosInf y = False"
| "f_less (Finite a) PosInf = True"

definition f_le :: "float64 \<Rightarrow> float64 \<Rightarrow> bool" where
  "f_le x y \<longleftrightarrow> f_less x y \<or> (x = y \<and> x \<noteq> NaN)"

fun f_finite :: "float64 \<Rightarrow> bool" where
  "f_finite (Finite r) = True"
| "f_finite x = False"

lemma f_less_Finite_right [simp]:
  "f_less x (Finite b) \<longleftrightarrow> x = NegInf \<or> (\<exists>a. x = Finite a \<and> a < b)"
  by (cases x) auto

lemma f_less_Finite_left [simp]:
  "f_less (Finite a) y \<longleftrightarrow> y = PosInf \<or> (\<exists>b. y = Finite b \<and> a < b)"
  by (cases y) auto

lemma f_le_Finite_right:
  "f_le x (Finite b) \<longleftrightarrow> x = NegInf \<or> (\<exists>a. x = Finite a \<and> a \<le> b)"
  by (cases x) (auto simp: f_le_def)

lemma f_le_Finite_left:
  "f_le (Finite a) y \<longleftrightarrow> y = PosInf \<or> (\<exists>b. y = Finite b \<and> a \<le> b)"
  by (cases y) (auto simp: f_le_def)

section \<open>Two's complement\<close>

text \<open>The value an \<open>int64\<close> holds after an arithmetic operation whose exact result is \<open>x\<close>.\<close>

definition wrap64 :: "int \<Rightarrow> int" where
  "wrap64 x = (x + 2 ^ 63) mod 2 ^ 64 - 2 ^ 63"

lemma wrap64_id: "- (2 ^ 63) \<le> x \<Longrightarrow> x < 2 ^ 63 \<Longrightarrow> wrap64 x = x"
  by (simp add: wrap64_def)

lemma wrap64_range: "- (2 ^ 63) \<le> wrap64 x \<and> wrap64 x < 2 ^ 63"
  using pos_mod_bound [of "2 ^ 64 :: int" "x + 2 ^ 63"]
    pos_mod_sign [of "2 ^ 64 :: int" "x + 2 ^ 63"]
  by (simp add: wrap64_def)

section \<open>Characters, trimming and case folding\<close>

definition code_of :: "char \<Rightarrow> nat" where
  "code_of c = of_char c"

text \<open>
  The UTF-8 encodings of the characters \<open>unicode.IsSpace\<close> holds of: the ASCII ones, then U+0085,
  U+00A0, U+1680, U+2000 to U+200A, U+2028, U+2029, U+202F, U+205F and U+3000.
\<close>

definition space_runes :: "string list" where
  "space_runes = map (map char_of)
     ([[9], [10], [11], [12], [13], [32], [0xC2, 0x85], [0xC2, 0xA0], [0xE1, 0x9A, 0x80]] @
      map (\<lambda>i. [0xE2, 0x80, i]) [0x80 ..< 0x8B] @
      [[0xE2, 0x80, 0xA8], [0xE2, 0x80, 0xA9], [0xE2, 0x80, 0xAF], [0xE2, 0x81, 0x9F],
       [0xE3, 0x80, 0x80 :: nat]])"

text \<open>Dropping the members of \<open>W\<close> a string starts with, as long as it starts with one.\<close>

function trim_by :: "string list \<Rightarrow> string \<Rightarrow> string" where
  "trim_by W s =
     (case find (\<lambda>w. w \<noteq> [] \<and> take (length w) s = w) W of
        None \<Rightarrow> s
      | Some w \<Rightarrow> trim_by W (drop (length w) s))"
  by pat_completeness auto

lemma find_SomeD: "find P xs = Some x \<Longrightarrow> P x \<and> x \<in> set xs"
  by (auto simp: find_Some_iff)

termination trim_by
proof (relation "measure (\<lambda>(W, s). length s)")
  fix W :: "string list" and s w
  assume "find (\<lambda>w. w \<noteq> [] \<and> take (length w) s = w) W = Some w"
  then have w: "w \<noteq> []" "take (length w) s = w" by (auto dest: find_SomeD)
  then have "s \<noteq> []" by auto
  with w(1) show "((W, drop (length w) s), W, s) \<in> measure (\<lambda>(W, s). length s)" by simp
qed simp

declare trim_by.simps [simp del]

definition trim_space :: "string \<Rightarrow> string" where
  "trim_space s = rev (trim_by (map rev space_runes) (rev (trim_by space_runes s)))"

definition ascii_lower :: "char \<Rightarrow> char" where
  "ascii_lower c = (if 65 \<le> code_of c \<and> code_of c \<le> 90 then char_of (code_of c + 32) else c)"

text \<open>
  A text with its ASCII letters lowered and the encodings listed in \<open>R\<close>, of the characters outside
  ASCII that become a letter of ASCII, replaced. The remaining characters stay outside ASCII, which
  is all the comparisons below depend on: each has a word of ASCII on one side.
\<close>

fun lower_runes :: "(string \<times> char) list \<Rightarrow> string \<Rightarrow> string" where
  "lower_runes R [] = []"
| "lower_runes R (c # cs) =
     (case find (\<lambda>(u, a). take (length u) (c # cs) = u) R of
        Some (u, a) \<Rightarrow> a # lower_runes R (drop (length u - 1) cs)
      | None \<Rightarrow> ascii_lower c # lower_runes R cs)"

text \<open>\<open>strings.ToLower\<close>: U+0130 and U+212A, the Kelvin sign, become i and k.\<close>

definition to_lower :: "string \<Rightarrow> string" where
  "to_lower = lower_runes [(map char_of [0xC4, 0xB0 :: nat], CHR ''i''), (map char_of [0xE2, 0x84, 0xAA :: nat], CHR ''k'')]"

text \<open>The folding of \<open>encoding/json\<close>: U+017F, the long s, and the Kelvin sign fold with s and k.\<close>

definition fold_name :: "string \<Rightarrow> string" where
  "fold_name = lower_runes [(map char_of [0xC5, 0xBF :: nat], CHR ''s''), (map char_of [0xE2, 0x84, 0xAA :: nat], CHR ''k'')]"

lemma lower_runes_ascii:
  assumes "\<forall>(u, a) \<in> set R. u \<noteq> [] \<and> code_of (hd u) \<ge> 128"
  shows "\<forall>c \<in> set s. code_of c < 128 \<Longrightarrow> lower_runes R s = map ascii_lower s"
proof (induction s)
  case (Cons c cs)
  have "find (\<lambda>(u, a). take (length u) (c # cs) = u) R = None"
    unfolding find_None_iff
  proof
    assume "\<exists>x. x \<in> set R \<and> (case x of (u, a) \<Rightarrow> take (length u) (c # cs) = u)"
    then obtain u a where u: "(u, a) \<in> set R" "take (length u) (c # cs) = u" by blast
    with assms have "u \<noteq> []" "code_of (hd u) \<ge> 128" by auto
    with u(2) have "code_of c \<ge> 128" by (cases u) (auto split: if_splits)
    with Cons.prems show False by simp
  qed
  with Cons show ?case by simp
qed simp

lemma fold_name_ascii: "\<forall>c \<in> set s. code_of c < 128 \<Longrightarrow> fold_name s = map ascii_lower s"
  unfolding fold_name_def by (rule lower_runes_ascii) (simp_all add: code_of_def)

lemma to_lower_ascii: "\<forall>c \<in> set s. code_of c < 128 \<Longrightarrow> to_lower s = map ascii_lower s"
  unfolding to_lower_def by (rule lower_runes_ascii) (simp_all add: code_of_def)

lemma trim_by_subset: "set (trim_by W s) \<subseteq> set s"
proof (induction W s rule: trim_by.induct)
  case (1 W s)
  show ?case
  proof (cases "find (\<lambda>w. w \<noteq> [] \<and> take (length w) s = w) W")
    case (Some w)
    with 1 have "set (trim_by W s) \<subseteq> set (drop (length w) s)"
      by (simp add: trim_by.simps [of W s])
    then show ?thesis using set_drop_subset by (rule subset_trans)
  qed (simp add: trim_by.simps [of W s])
qed

lemma trim_space_subset: "set (trim_space s) \<subseteq> set s"
  using trim_by_subset [of "map rev space_runes" "rev (trim_by space_runes s)"]
    trim_by_subset [of space_runes s]
  by (auto simp: trim_space_def)

text \<open>The first character of the encoding of a space, read from either end, starts no other text.\<close>

definition space_edge :: "char \<Rightarrow> bool" where
  "space_edge c \<longleftrightarrow> c \<in> hd ` set space_runes \<or> c \<in> last ` set space_runes"

lemma trim_by_id:
  "s = [] \<or> (\<forall>w \<in> set W. hd w \<noteq> hd s) \<Longrightarrow> trim_by W s = s"
proof -
  assume s: "s = [] \<or> (\<forall>w \<in> set W. hd w \<noteq> hd s)"
  have "find (\<lambda>w. w \<noteq> [] \<and> take (length w) s = w) W = None"
    unfolding find_None_iff
  proof
    assume "\<exists>w. w \<in> set W \<and> w \<noteq> [] \<and> take (length w) s = w"
    then obtain w where w: "w \<in> set W" "w \<noteq> []" "take (length w) s = w" by blast
    then have "s \<noteq> []" by auto
    moreover have "hd w = hd s" using w(2,3) by (metis hd_take length_greater_0_conv)
    ultimately show False using s w(1) by blast
  qed
  then show ?thesis by (simp add: trim_by.simps [of W s])
qed

lemma trim_space_id:
  assumes "\<forall>c \<in> set s. \<not> space_edge c"
  shows "trim_space s = s"
proof -
  have ne: "w \<noteq> []" if "w \<in> set space_runes" for w
    using that by (auto simp: space_runes_def)
  have "trim_by space_runes s = s"
    by (rule trim_by_id) (use assms in \<open>cases s, auto simp: space_edge_def\<close>)
  moreover have "trim_by (map rev space_runes) (rev s) = rev s"
    by (rule trim_by_id) (use assms ne in \<open>cases s rule: rev_cases, auto simp: space_edge_def hd_rev\<close>)
  ultimately show ?thesis by (simp add: trim_space_def)
qed

definition newline :: string where
  "newline = [char_of (10 :: nat)]"

section \<open>Decimal numerals\<close>

definition digit_char :: "nat \<Rightarrow> char" where
  "digit_char d = char_of (48 + d)"

fun dec_nat :: "nat \<Rightarrow> string" where
  "dec_nat n = (if n < 10 then [digit_char n] else dec_nat (n div 10) @ [digit_char (n mod 10)])"

declare dec_nat.simps [simp del]

definition dec_int :: "int \<Rightarrow> string" where
  "dec_int i = (if i < 0 then CHR ''-'' # dec_nat (nat (- i)) else dec_nat (nat i))"

definition is_digit :: "char \<Rightarrow> bool" where
  "is_digit c \<longleftrightarrow> 48 \<le> code_of c \<and> code_of c \<le> 57"

fun read_digits :: "nat \<Rightarrow> string \<Rightarrow> nat option" where
  "read_digits acc [] = Some acc"
| "read_digits acc (c # cs) =
     (if is_digit c then read_digits (10 * acc + (code_of c - 48)) cs else None)"

definition parse_nat :: "string \<Rightarrow> nat option" where
  "parse_nat s = (if s = [] then None else read_digits 0 s)"

lemma code_of_digit: "d < 10 \<Longrightarrow> code_of (digit_char d) = 48 + d"
  by (simp add: code_of_def digit_char_def)

lemma read_digits_append:
  "read_digits acc (xs @ ys) =
     (case read_digits acc xs of None \<Rightarrow> None | Some a \<Rightarrow> read_digits a ys)"
  by (induction xs arbitrary: acc) auto

lemma read_digits_dec_nat: "read_digits 0 (dec_nat n) = Some n"
proof (induction n rule: dec_nat.induct)
  case (1 n)
  show ?case
  proof (cases "n < 10")
    case True
    then show ?thesis
      by (subst dec_nat.simps) (simp add: is_digit_def code_of_digit)
  next
    case False
    have "read_digits 0 (dec_nat n) = read_digits (n div 10) [digit_char (n mod 10)]"
      using False 1 by (subst dec_nat.simps) (simp add: read_digits_append)
    also have "\<dots> = Some n"
      by (simp add: is_digit_def code_of_digit)
    finally show ?thesis .
  qed
qed

lemma dec_nat_nonempty [simp]: "dec_nat n \<noteq> []"
  by (subst dec_nat.simps) simp

lemma parse_nat_dec_nat: "parse_nat (dec_nat n) = Some n"
  by (simp add: parse_nat_def read_digits_dec_nat)

lemma dec_nat_inj: "dec_nat m = dec_nat n \<Longrightarrow> m = n"
  by (metis option.inject parse_nat_dec_nat)

lemma dec_nat_digits: "c \<in> set (dec_nat n) \<Longrightarrow> is_digit c"
proof (induction n rule: dec_nat.induct)
  case (1 n)
  then show ?case
    by (subst (asm) dec_nat.simps)
      (auto simp: is_digit_def code_of_digit split: if_splits)
qed

lemma dec_int_inj: "dec_int i = dec_int j \<Longrightarrow> i = j"
proof -
  have neg: "CHR ''-'' \<notin> set (dec_nat n)" for n
    using dec_nat_digits [of "CHR ''-''" n] by (auto simp: is_digit_def code_of_def)
  show "dec_int i = dec_int j \<Longrightarrow> i = j"
    using neg [of "nat i"] neg [of "nat j"]
    by (auto simp: dec_int_def dest: dec_nat_inj split: if_splits)
      (metis list.set_intros(1))+
qed

section \<open>Rows of a table with a primary key\<close>

text \<open>
  A table whose rows are enumerated by queries is a list of rows, in insertion order; its primary
  key is a projection, and the key constraint is \<open>distinct (map key rows)\<close>.
\<close>

definition row_of :: "('r \<Rightarrow> 'k) \<Rightarrow> 'k \<Rightarrow> 'r list \<Rightarrow> 'r option" where
  "row_of key k rows = find (\<lambda>r. key r = k) rows"

definition update_row :: "('r \<Rightarrow> 'k) \<Rightarrow> 'k \<Rightarrow> ('r \<Rightarrow> 'r) \<Rightarrow> 'r list \<Rightarrow> 'r list" where
  "update_row key k f rows = map (\<lambda>r. if key r = k then f r else r) rows"

lemma row_of_Nil [simp]: "row_of key k [] = None"
  by (simp add: row_of_def)

lemma row_of_Cons [simp]:
  "row_of key k (r # rows) = (if key r = k then Some r else row_of key k rows)"
  by (simp add: row_of_def)

lemma row_of_append:
  "row_of key k (xs @ ys) = (case row_of key k xs of None \<Rightarrow> row_of key k ys | Some r \<Rightarrow> Some r)"
  by (induction xs) auto

lemma row_of_None_iff: "row_of key k rows = None \<longleftrightarrow> k \<notin> key ` set rows"
  by (induction rows) auto

lemma row_of_SomeD: "row_of key k rows = Some r \<Longrightarrow> r \<in> set rows \<and> key r = k"
  by (induction rows) (auto split: if_splits)

lemma row_of_Some_iff:
  "distinct (map key rows) \<Longrightarrow> row_of key k rows = Some r \<longleftrightarrow> r \<in> set rows \<and> key r = k"
  by (induction rows) force+

lemma row_of_not_None_iff: "(\<exists>r. row_of key k rows = Some r) \<longleftrightarrow> k \<in> key ` set rows"
  using row_of_None_iff [of key k rows] by auto

lemma map_key_update_row:
  "(\<And>r. key r = k \<Longrightarrow> key (f r) = k) \<Longrightarrow> map key (update_row key k f rows) = map key rows"
  by (induction rows) (auto simp: update_row_def)

lemma row_of_update_row:
  "(\<And>r. key r = k \<Longrightarrow> key (f r) = k) \<Longrightarrow>
   row_of key k' (update_row key k f rows) =
     (if k' = k then map_option f (row_of key k rows) else row_of key k' rows)"
  by (induction rows) (auto simp: update_row_def)

lemma length_update_row [simp]: "length (update_row key k f rows) = length rows"
  by (simp add: update_row_def)

lemma update_row_absent: "k \<notin> key ` set rows \<Longrightarrow> update_row key k f rows = rows"
  by (induction rows) (auto simp: update_row_def)

section \<open>Runs of a step relation\<close>

text \<open>
  The contract by which a component lifts an invariant from one step to every run: it gives its
  step relation and its invariant and shows that a step keeps the invariant.
\<close>

locale stepwise_invariant =
  fixes step :: "'s \<Rightarrow> 's \<Rightarrow> bool"
    and inv :: "'s \<Rightarrow> bool"
  assumes step_keeps: "inv s \<Longrightarrow> step s t \<Longrightarrow> inv t"
begin

lemma run_keeps: "step\<^sup>*\<^sup>* s t \<Longrightarrow> inv s \<Longrightarrow> inv t"
  by (induction rule: rtranclp_induct) (auto intro: step_keeps)

lemma run_keeps_from_start: "inv s0 \<Longrightarrow> step\<^sup>*\<^sup>* s0 t \<Longrightarrow> inv t"
  by (rule run_keeps)

end

end
