(* ===== verification/Wire.thy ===== *)
theory Wire
  imports Prelude
begin

text \<open>
  The wire format: how the code reads Go structs from JSON text and writes them back.

  The text syntax itself (the scanner and the encoder of \<open>encoding/json\<close>, the float literals, the
  RFC 3339 form of an instant) and the UUID syntax of \<open>github.com/google/uuid\<close> are the fields of
  \<open>lib\<close>, which every definition that needs them takes as an argument. What the sources decide
  is modelled: which JSON names a struct has, that an unknown name is refused
  (\<open>DisallowUnknownFields\<close>), which JSON values each field type accepts, that \<open>null\<close> leaves a field
  alone, and which fields are left out when empty.

  A scan of a text shows the first JSON value in it one level deep: the members of an object and
  the elements of an array stay texts, as \<open>json.RawMessage\<close> keeps them. \<open>Decoder.Decode\<close> reads
  one value and ignores what follows it, and so does \<open>json_scan\<close>.
\<close>

datatype node =
    JNull
  | JBool bool
  | JNum string
  | JStr string
  | JArr "bytes list"
  | JObj "(string \<times> bytes) list"

datatype scan = SyntaxError | Incomplete | Value node

record lib =
  json_scan :: "bytes \<Rightarrow> scan"
  json_text :: "node \<Rightarrow> bytes"
  json_compact :: "bytes \<Rightarrow> bytes"
  json_valid :: "bytes \<Rightarrow> bool"
  lit_float :: "string \<Rightarrow> float64 option"
  float_lit :: "rat \<Rightarrow> string"
  time_parse :: "string \<Rightarrow> time option"
  time_text :: "time \<Rightarrow> string option"
  uuid_ok :: "string \<Rightarrow> bool"

section \<open>Reading fields\<close>

text \<open>The integer a JSON number literal denotes, when it has integer syntax.\<close>

fun lit_int :: "string \<Rightarrow> int option" where
  "lit_int (c # cs) =
     (if c = CHR ''-'' then map_option (\<lambda>n. - int n) (parse_nat cs)
      else map_option int (parse_nat (c # cs)))"
| "lit_int [] = None"

definition read_str :: "lib \<Rightarrow> bytes \<Rightarrow> string \<Rightarrow> string option" where
  "read_str l raw old =
     (case json_scan l raw of
        Value (JStr s) \<Rightarrow> Some s
      | Value JNull \<Rightarrow> Some old
      | _ \<Rightarrow> None)"

definition read_int :: "lib \<Rightarrow> bytes \<Rightarrow> int \<Rightarrow> int option" where
  "read_int l raw old =
     (case json_scan l raw of
        Value (JNum s) \<Rightarrow>
          (case lit_int s of
             Some i \<Rightarrow> if - (2 ^ 63) \<le> i \<and> i < 2 ^ 63 then Some i else None
           | None \<Rightarrow> None)
      | Value JNull \<Rightarrow> Some old
      | _ \<Rightarrow> None)"

definition read_uint64 :: "lib \<Rightarrow> bytes \<Rightarrow> 64 word \<Rightarrow> 64 word option" where
  "read_uint64 l raw old =
     (case json_scan l raw of
        Value (JNum s) \<Rightarrow>
          (case parse_nat s of
             Some n \<Rightarrow> if n < 2 ^ 64 then Some (of_nat n) else None
           | None \<Rightarrow> None)
      | Value JNull \<Rightarrow> Some old
      | _ \<Rightarrow> None)"

definition read_float :: "lib \<Rightarrow> bytes \<Rightarrow> float64 \<Rightarrow> float64 option" where
  "read_float l raw old =
     (case json_scan l raw of
        Value (JNum s) \<Rightarrow> lit_float l s
      | Value JNull \<Rightarrow> Some old
      | _ \<Rightarrow> None)"

text \<open>A pointer field: \<open>null\<close> stores nil, a value stores a pointer to it.\<close>

definition read_float_ptr :: "lib \<Rightarrow> bytes \<Rightarrow> float64 option option" where
  "read_float_ptr l raw =
     (case json_scan l raw of
        Value (JNum s) \<Rightarrow> map_option Some (lit_float l s)
      | Value JNull \<Rightarrow> Some None
      | _ \<Rightarrow> None)"

definition read_time :: "lib \<Rightarrow> bytes \<Rightarrow> time \<Rightarrow> time option" where
  "read_time l raw old =
     (case json_scan l raw of
        Value (JStr s) \<Rightarrow> time_parse l s
      | Value JNull \<Rightarrow> Some old
      | _ \<Rightarrow> None)"

section \<open>Reading structs\<close>

text \<open>
  A member belongs to the field of that name, or else to the first field whose name differs in
  its case only. A member of no field is an error, and so is a value the field's
  type does not take; a later member of the same field overwrites an earlier one.
\<close>

definition field_of :: "string list \<Rightarrow> string \<Rightarrow> string option" where
  "field_of names k =
     (if k \<in> set names then Some k else find (\<lambda>n. fold_name n = fold_name k) names)"

fun decode_members ::
  "string list \<Rightarrow> (string \<Rightarrow> bytes \<Rightarrow> 'a \<Rightarrow> 'a option) \<Rightarrow> (string \<times> bytes) list \<Rightarrow> 'a \<Rightarrow> 'a option" where
  "decode_members names store [] v = Some v"
| "decode_members names store ((k, raw) # ms) v =
     (case field_of names k of
        None \<Rightarrow> None
      | Some f \<Rightarrow>
          (case store f raw v of
             None \<Rightarrow> None
           | Some v' \<Rightarrow> decode_members names store ms v'))"

definition decode_struct ::
  "string list \<Rightarrow> (string \<Rightarrow> bytes \<Rightarrow> 'a \<Rightarrow> 'a option) \<Rightarrow> node \<Rightarrow> 'a \<Rightarrow> 'a option" where
  "decode_struct names store n v =
     (case n of
        JNull \<Rightarrow> Some v
      | JObj ms \<Rightarrow> decode_members names store ms v
      | _ \<Rightarrow> None)"

definition decode_doc ::
  "lib \<Rightarrow> string list \<Rightarrow> (string \<Rightarrow> bytes \<Rightarrow> 'a \<Rightarrow> 'a option) \<Rightarrow> bytes \<Rightarrow> 'a \<Rightarrow> 'a option" where
  "decode_doc l names store raw v =
     (case json_scan l raw of
        Value n \<Rightarrow> decode_struct names store n v
      | _ \<Rightarrow> None)"

text \<open>
  \<open>json.Unmarshal\<close> takes the whole text as one value (\<open>json_valid\<close>) and ignores the members of no
  field.
\<close>

fun decode_members_lax ::
  "string list \<Rightarrow> (string \<Rightarrow> bytes \<Rightarrow> 'a \<Rightarrow> 'a option) \<Rightarrow> (string \<times> bytes) list \<Rightarrow> 'a \<Rightarrow> 'a option" where
  "decode_members_lax names store [] v = Some v"
| "decode_members_lax names store ((k, raw) # ms) v =
     (case field_of names k of
        None \<Rightarrow> decode_members_lax names store ms v
      | Some f \<Rightarrow>
          (case store f raw v of
             None \<Rightarrow> None
           | Some v' \<Rightarrow> decode_members_lax names store ms v'))"

definition unmarshal ::
  "lib \<Rightarrow> string list \<Rightarrow> (string \<Rightarrow> bytes \<Rightarrow> 'a \<Rightarrow> 'a option) \<Rightarrow> bytes \<Rightarrow> 'a \<Rightarrow> 'a option" where
  "unmarshal l names store raw v =
     (if \<not> json_valid l raw then None
      else case json_scan l raw of
             Value JNull \<Rightarrow> Some v
           | Value (JObj ms) \<Rightarrow> decode_members_lax names store ms v
           | _ \<Rightarrow> None)"

section \<open>Writing values\<close>

definition text_str :: "lib \<Rightarrow> string \<Rightarrow> bytes" where
  "text_str l s = json_text l (JStr s)"

definition text_int :: "lib \<Rightarrow> int \<Rightarrow> bytes" where
  "text_int l i = json_text l (JNum (dec_int i))"

definition text_uint64 :: "lib \<Rightarrow> 64 word \<Rightarrow> bytes" where
  "text_uint64 l w = json_text l (JNum (dec_nat (unat w)))"

text \<open>\<open>json.Marshal\<close> refuses the values JSON has no literal for.\<close>

definition text_float :: "lib \<Rightarrow> float64 \<Rightarrow> bytes option" where
  "text_float l x =
     (case x of
        Finite r \<Rightarrow> Some (json_text l (JNum (float_lit l r)))
      | _ \<Rightarrow> None)"

definition text_time :: "lib \<Rightarrow> time \<Rightarrow> bytes option" where
  "text_time l t = map_option (\<lambda>s. json_text l (JStr s)) (time_text l t)"

text \<open>A field tagged \<open>omitempty\<close> with a nil pointer has no member.\<close>

definition member_float_ptr :: "lib \<Rightarrow> string \<Rightarrow> float64 option \<Rightarrow> (string \<times> bytes) list option" where
  "member_float_ptr l name x =
     (case x of
        None \<Rightarrow> Some []
      | Some f \<Rightarrow> map_option (\<lambda>t. [(name, t)]) (text_float l f))"

text \<open>A \<open>json.RawMessage\<close> is written compacted, an absent one as \<open>null\<close>.\<close>

definition raw_member :: "lib \<Rightarrow> bytes \<Rightarrow> bytes option" where
  "raw_member l p =
     (if p = [] then Some (json_text l JNull)
      else case json_scan l p of
             Value n \<Rightarrow> Some (json_compact l p)
           | _ \<Rightarrow> None)"

section \<open>What is read back\<close>

text \<open>
  The documented behaviour of the encoder and the scanner the round trips rely on, for one value
  at a time: the text of a node scans back to that node.
\<close>

definition faithful :: "lib \<Rightarrow> node \<Rightarrow> bool" where
  "faithful l n \<longleftrightarrow> json_scan l (json_text l n) = Value n"

lemma lit_int_dec_int: "lit_int (dec_int i) = Some i"
proof (cases "i < 0")
  case True
  then show ?thesis by (simp add: dec_int_def parse_nat_dec_nat)
next
  case False
  obtain c cs where s: "dec_nat (nat i) = c # cs"
    by (cases "dec_nat (nat i)") auto
  then have "is_digit c" using dec_nat_digits [of c "nat i"] by simp
  then have "c \<noteq> CHR ''-''" by (auto simp: is_digit_def code_of_def)
  with False s parse_nat_dec_nat [of "nat i"] show ?thesis
    by (simp add: dec_int_def)
qed

lemma read_str_text: "faithful l (JStr s) \<Longrightarrow> read_str l (text_str l s) old = Some s"
  by (simp add: faithful_def read_str_def text_str_def)

lemma read_int_text:
  "faithful l (JNum (dec_int i)) \<Longrightarrow> - (2 ^ 63) \<le> i \<Longrightarrow> i < 2 ^ 63 \<Longrightarrow>
   read_int l (text_int l i) old = Some i"
  by (simp add: faithful_def read_int_def text_int_def lit_int_dec_int)

lemma read_uint64_text:
  "faithful l (JNum (dec_nat (unat w))) \<Longrightarrow> read_uint64 l (text_uint64 l w) old = Some w"
proof -
  assume "faithful l (JNum (dec_nat (unat w)))"
  moreover have "unat w < 2 ^ LENGTH(64)" by (rule unsigned_less)
  ultimately show ?thesis
    by (simp add: faithful_def read_uint64_def text_uint64_def parse_nat_dec_nat)
qed

lemma read_float_text:
  "faithful l (JNum (float_lit l r)) \<Longrightarrow> lit_float l (float_lit l r) = Some (Finite r) \<Longrightarrow>
   read_float l (json_text l (JNum (float_lit l r))) old = Some (Finite r)"
  by (simp add: faithful_def read_float_def)

lemma read_float_ptr_text:
  "faithful l (JNum (float_lit l r)) \<Longrightarrow> lit_float l (float_lit l r) = Some (Finite r) \<Longrightarrow>
   read_float_ptr l (json_text l (JNum (float_lit l r))) = Some (Some (Finite r))"
  by (simp add: faithful_def read_float_ptr_def)

lemma read_time_text:
  "faithful l (JStr s) \<Longrightarrow> time_parse l s = Some t \<Longrightarrow>
   read_time l (json_text l (JStr s)) old = Some t"
  by (simp add: faithful_def read_time_def)

lemma text_float_Some:
  "text_float l x = Some t \<longleftrightarrow> (\<exists>r. x = Finite r \<and> t = json_text l (JNum (float_lit l r)))"
  by (cases x) (auto simp: text_float_def)

lemma decode_members_append:
  "decode_members names store (xs @ ys) v =
     (case decode_members names store xs v of
        None \<Rightarrow> None
      | Some v' \<Rightarrow> decode_members names store ys v')"
  by (induction names store xs v rule: decode_members.induct)
    (auto split: option.splits)

lemma decode_members_unknown:
  "(k, raw) \<in> set ms \<Longrightarrow> field_of names k = None \<Longrightarrow> decode_members names store ms v = None"
  by (induction ms arbitrary: v) (auto split: option.splits)

lemma field_of_known: "k \<in> set names \<Longrightarrow> field_of names k = Some k"
  by (simp add: field_of_def)

end
