(* ===== verification/Event.thy ===== *)
theory Event
  imports Wire
begin

text \<open>
  The wire contract, \<open>internal/event\<close>: the versioned envelope, the vehicle position it carries,
  their validation, and the two entry points that read bytes the system did not write,
  \<open>Decode\<close> (what the consumer reads from the log) and \<open>Accept\<close> (what a producer posts).

  A reason that the code formats into a sentence is a constructor with the values it formats.
\<close>

section \<open>Constants and data\<close>

definition Version :: int where
  "Version = 1"

definition EventTypeVehiclePosition :: string where
  "EventTypeVehiclePosition = ''vehicle.position''"

definition MaxFutureSkew :: duration where
  "MaxFutureSkew = 5 * 60 * 10 ^ 9"

record envelope =
  schema_version :: int
  event_id :: string
  event_type :: string
  produced_at :: time
  source :: string
  payload :: bytes

record vehicle_position =
  vehicle_id :: string
  route_id :: string
  lat :: float64
  lon :: float64
  speed_kph :: "float64 option"
  bearing_deg :: "float64 option"
  event_ts :: time
  sequence :: "64 word"

record observation =
  o_position :: vehicle_position
  o_event_id :: string

datatype reason =
    Required
  | UnsupportedVersion int
  | NotAUUID string
  | LatOutside float64
  | LonOutside float64
  | NegativeSpeed float64
  | BearingOutside float64
  | TooFarAhead time time
  | NotAnObservation

datatype event_error =
    ValidationError string reason
  | MalformedJSON
  | WrongEventType string
  | MalformedPosition
  | IdRequired
  | IdNotAUUID string
  | PayloadNotMarshalled
  | EnvelopeNotMarshalled
  | AcceptedThenRejected event_error

definition zero_position :: vehicle_position where
  "zero_position = \<lparr>vehicle_id = [], route_id = [], lat = Finite 0, lon = Finite 0,
     speed_kph = None, bearing_deg = None, event_ts = 0, sequence = 0\<rparr>"

definition zero_envelope :: envelope where
  "zero_envelope = \<lparr>schema_version = 0, event_id = [], event_type = [], produced_at = 0,
     source = [], payload = []\<rparr>"

section \<open>The JSON fields of the structs\<close>

definition position_names :: "string list" where
  "position_names = [''vehicle_id'', ''route_id'', ''lat'', ''lon'', ''speed_kph'',
     ''bearing_deg'', ''event_ts'', ''sequence'']"

definition store_position ::
  "lib \<Rightarrow> string \<Rightarrow> bytes \<Rightarrow> vehicle_position \<Rightarrow> vehicle_position option" where
  "store_position l f raw v =
     (if f = ''vehicle_id'' then map_option (\<lambda>x. v\<lparr>vehicle_id := x\<rparr>) (read_str l raw (vehicle_id v))
      else if f = ''route_id'' then map_option (\<lambda>x. v\<lparr>route_id := x\<rparr>) (read_str l raw (route_id v))
      else if f = ''lat'' then map_option (\<lambda>x. v\<lparr>lat := x\<rparr>) (read_float l raw (lat v))
      else if f = ''lon'' then map_option (\<lambda>x. v\<lparr>lon := x\<rparr>) (read_float l raw (lon v))
      else if f = ''speed_kph'' then map_option (\<lambda>x. v\<lparr>speed_kph := x\<rparr>) (read_float_ptr l raw)
      else if f = ''bearing_deg'' then map_option (\<lambda>x. v\<lparr>bearing_deg := x\<rparr>) (read_float_ptr l raw)
      else if f = ''event_ts'' then map_option (\<lambda>x. v\<lparr>event_ts := x\<rparr>) (read_time l raw (event_ts v))
      else if f = ''sequence'' then map_option (\<lambda>x. v\<lparr>sequence := x\<rparr>) (read_uint64 l raw (sequence v))
      else None)"

definition envelope_names :: "string list" where
  "envelope_names = [''schema_version'', ''event_id'', ''event_type'', ''produced_at'', ''source'',
     ''payload'']"

definition store_envelope :: "lib \<Rightarrow> string \<Rightarrow> bytes \<Rightarrow> envelope \<Rightarrow> envelope option" where
  "store_envelope l f raw e =
     (if f = ''schema_version'' then
        map_option (\<lambda>x. e\<lparr>schema_version := x\<rparr>) (read_int l raw (schema_version e))
      else if f = ''event_id'' then map_option (\<lambda>x. e\<lparr>event_id := x\<rparr>) (read_str l raw (event_id e))
      else if f = ''event_type'' then map_option (\<lambda>x. e\<lparr>event_type := x\<rparr>) (read_str l raw (event_type e))
      else if f = ''produced_at'' then
        map_option (\<lambda>x. e\<lparr>produced_at := x\<rparr>) (read_time l raw (produced_at e))
      else if f = ''source'' then map_option (\<lambda>x. e\<lparr>source := x\<rparr>) (read_str l raw (source e))
      else if f = ''payload'' then Some (e\<lparr>payload := raw\<rparr>)
      else None)"

definition observation_names :: "string list" where
  "observation_names = position_names @ [''event_id'']"

definition store_observation ::
  "lib \<Rightarrow> string \<Rightarrow> bytes \<Rightarrow> observation \<Rightarrow> observation option" where
  "store_observation l f raw v =
     (if f = ''event_id'' then map_option (\<lambda>x. v\<lparr>o_event_id := x\<rparr>) (read_str l raw (o_event_id v))
      else map_option (\<lambda>p. v\<lparr>o_position := p\<rparr>) (store_position l f raw (o_position v)))"

section \<open>Validation\<close>

definition validateHeader :: "lib \<Rightarrow> envelope \<Rightarrow> event_error option" where
  "validateHeader l e =
     (if schema_version e = 0 then Some (ValidationError ''schema_version'' Required)
      else if schema_version e \<noteq> Version then
        Some (ValidationError ''schema_version'' (UnsupportedVersion (schema_version e)))
      else if event_id e = [] then Some (ValidationError ''event_id'' Required)
      else if \<not> uuid_ok l (event_id e) then
        Some (ValidationError ''event_id'' (NotAUUID (event_id e)))
      else if event_type e = [] then Some (ValidationError ''event_type'' Required)
      else if produced_at e = 0 then Some (ValidationError ''produced_at'' Required)
      else if payload e = [] then Some (ValidationError ''payload'' Required)
      else None)"

definition Decode :: "lib \<Rightarrow> bytes \<Rightarrow> event_error + envelope" where
  "Decode l raw =
     (case decode_doc l envelope_names (store_envelope l) raw zero_envelope of
        None \<Rightarrow> Inl MalformedJSON
      | Some env \<Rightarrow>
          (case validateHeader l env of
             Some err \<Rightarrow> Inl err
           | None \<Rightarrow> Inr env))"

definition IsKnownEventType :: "envelope \<Rightarrow> bool" where
  "IsKnownEventType e \<longleftrightarrow> event_type e = EventTypeVehiclePosition"

definition Validate :: "vehicle_position \<Rightarrow> event_error option" where
  "Validate v =
     (if vehicle_id v = [] then Some (ValidationError ''vehicle_id'' Required)
      else if route_id v = [] then Some (ValidationError ''route_id'' Required)
      else if f_less (lat v) (Finite (- 90)) \<or> f_less (Finite 90) (lat v) then
        Some (ValidationError ''lat'' (LatOutside (lat v)))
      else if f_less (lon v) (Finite (- 180)) \<or> f_less (Finite 180) (lon v) then
        Some (ValidationError ''lon'' (LonOutside (lon v)))
      else if (case speed_kph v of None \<Rightarrow> False | Some s \<Rightarrow> f_less s (Finite 0)) then
        Some (ValidationError ''speed_kph'' (NegativeSpeed (the (speed_kph v))))
      else if (case bearing_deg v of None \<Rightarrow> False
               | Some b \<Rightarrow> f_less b (Finite 0) \<or> f_le (Finite 360) b) then
        Some (ValidationError ''bearing_deg'' (BearingOutside (the (bearing_deg v))))
      else if event_ts v = 0 then Some (ValidationError ''event_ts'' Required)
      else None)"

definition ValidateClock :: "vehicle_position \<Rightarrow> time \<Rightarrow> event_error option" where
  "ValidateClock v now =
     (if event_ts v > now + MaxFutureSkew
      then Some (ValidationError ''event_ts'' (TooFarAhead (event_ts v) now))
      else None)"

definition AsVehiclePosition :: "lib \<Rightarrow> envelope \<Rightarrow> event_error + vehicle_position" where
  "AsVehiclePosition l e =
     (if event_type e \<noteq> EventTypeVehiclePosition then Inl (WrongEventType (event_type e))
      else case decode_doc l position_names (store_position l) (payload e) zero_position of
             None \<Rightarrow> Inl MalformedPosition
           | Some vp \<Rightarrow>
               (case Validate vp of
                  Some err \<Rightarrow> Inl err
                | None \<Rightarrow> Inr vp))"

section \<open>Building and serialising\<close>

definition position_members :: "lib \<Rightarrow> vehicle_position \<Rightarrow> (string \<times> bytes) list option" where
  "position_members l v =
     (case (text_float l (lat v), text_float l (lon v),
            member_float_ptr l ''speed_kph'' (speed_kph v),
            member_float_ptr l ''bearing_deg'' (bearing_deg v),
            text_time l (event_ts v)) of
        (Some la, Some lo, Some sp, Some be, Some ts) \<Rightarrow>
          Some ([(''vehicle_id'', text_str l (vehicle_id v)), (''route_id'', text_str l (route_id v)),
                 (''lat'', la), (''lon'', lo)] @ sp @ be @
                [(''event_ts'', ts), (''sequence'', text_uint64 l (sequence v))])
      | _ \<Rightarrow> None)"

definition marshal_position :: "lib \<Rightarrow> vehicle_position \<Rightarrow> bytes option" where
  "marshal_position l v = map_option (\<lambda>ms. json_text l (JObj ms)) (position_members l v)"

definition Build ::
  "lib \<Rightarrow> string \<Rightarrow> vehicle_position \<Rightarrow> string \<Rightarrow> time \<Rightarrow> event_error + envelope" where
  "Build l src vp eventID producedAt =
     (if eventID = [] then Inl IdRequired
      else if \<not> uuid_ok l eventID then Inl (IdNotAUUID eventID)
      else case Validate vp of
             Some err \<Rightarrow> Inl err
           | None \<Rightarrow>
               (case marshal_position l vp of
                  None \<Rightarrow> Inl PayloadNotMarshalled
                | Some p \<Rightarrow>
                    Inr \<lparr>schema_version = Version, event_id = eventID,
                         event_type = EventTypeVehiclePosition, produced_at = producedAt,
                         source = src, payload = p\<rparr>))"

definition envelope_members :: "lib \<Rightarrow> envelope \<Rightarrow> (string \<times> bytes) list option" where
  "envelope_members l e =
     (case (text_time l (produced_at e), raw_member l (payload e)) of
        (Some ts, Some p) \<Rightarrow>
          Some [(''schema_version'', text_int l (schema_version e)),
                (''event_id'', text_str l (event_id e)),
                (''event_type'', text_str l (event_type e)),
                (''produced_at'', ts),
                (''source'', text_str l (source e)),
                (''payload'', p)]
      | _ \<Rightarrow> None)"

definition Marshal :: "lib \<Rightarrow> envelope \<Rightarrow> event_error + bytes" where
  "Marshal l e =
     (case envelope_members l e of
        None \<Rightarrow> Inl EnvelopeNotMarshalled
      | Some ms \<Rightarrow> Inr (json_text l (JObj ms)))"

section \<open>Accepting a submission\<close>

text \<open>\<open>fresh\<close> is the identifier \<open>idgen.New\<close> mints when the producer supplied none.\<close>

definition Accept ::
  "lib \<Rightarrow> bytes \<Rightarrow> string \<Rightarrow> time \<Rightarrow> string \<Rightarrow> event_error + (envelope \<times> vehicle_position)" where
  "Accept l raw src now fresh =
     (case decode_doc l observation_names (store_observation l) raw
             \<lparr>o_position = zero_position, o_event_id = []\<rparr> of
        None \<Rightarrow> Inl (ValidationError [] NotAnObservation)
      | Some obs \<Rightarrow>
          (case Validate (o_position obs) of
             Some err \<Rightarrow> Inl err
           | None \<Rightarrow>
               (case ValidateClock (o_position obs) now of
                  Some err \<Rightarrow> Inl err
                | None \<Rightarrow>
                    if o_event_id obs \<noteq> [] \<and> \<not> uuid_ok l (o_event_id obs) then
                      Inl (ValidationError ''event_id'' (NotAUUID (o_event_id obs)))
                    else
                      (case Build l src (o_position obs)
                              (if o_event_id obs = [] then fresh else o_event_id obs) now of
                         Inl (ValidationError f r) \<Rightarrow> Inl (ValidationError f r)
                       | Inl err \<Rightarrow> Inl (AcceptedThenRejected err)
                       | Inr env \<Rightarrow> Inr (env, o_position obs)))))"

fun FieldOf :: "event_error \<Rightarrow> string" where
  "FieldOf (ValidationError f r) = f"
| "FieldOf (AcceptedThenRejected e) = FieldOf e"
| "FieldOf e = []"


section \<open>What validation guarantees\<close>

lemma Validate_NoneD:
  assumes "Validate v = None"
  shows "vehicle_id v \<noteq> []" "route_id v \<noteq> []" "event_ts v \<noteq> 0"
    "\<not> f_less (lat v) (Finite (- 90))" "\<not> f_less (Finite 90) (lat v)"
    "\<not> f_less (lon v) (Finite (- 180))" "\<not> f_less (Finite 180) (lon v)"
    "speed_kph v = Some s \<Longrightarrow> \<not> f_less s (Finite 0)"
    "bearing_deg v = Some b \<Longrightarrow> \<not> f_less b (Finite 0) \<and> \<not> f_le (Finite 360) b"
  using assms
  by (auto simp add: Validate_def simp del: f_less_Finite_left f_less_Finite_right
      split: if_splits option.splits)

lemma Build_InrD:
  assumes "Build l src vp i t = Inr env"
  shows "i \<noteq> []" "uuid_ok l i" "Validate vp = None"
    "\<exists>p. marshal_position l vp = Some p \<and>
       env = \<lparr>schema_version = Version, event_id = i, event_type = EventTypeVehiclePosition,
              produced_at = t, source = src, payload = p\<rparr>"
  using assms by (auto simp: Build_def split: if_splits option.splits)

lemma Accept_InrD:
  assumes "Accept l raw src now fresh = Inr (env, vp)"
  shows "\<exists>obs. decode_doc l observation_names (store_observation l) raw
             \<lparr>o_position = zero_position, o_event_id = []\<rparr> = Some obs \<and> vp = o_position obs \<and>
           Build l src vp (if o_event_id obs = [] then fresh else o_event_id obs) now = Inr env"
    and "Validate vp = None" and "event_ts vp \<le> now + MaxFutureSkew"
  using assms
  by (auto simp: Accept_def ValidateClock_def
      split: option.splits if_splits sum.splits event_error.splits)

section \<open>Round trips\<close>

text \<open>
  The library behaviour a round trip of one value relies on: each text the encoder writes for it
  is read back as the same value.
\<close>

definition float_codec :: "lib \<Rightarrow> float64 \<Rightarrow> bool" where
  "float_codec l x =
     (case x of
        Finite r \<Rightarrow> faithful l (JNum (float_lit l r)) \<and> lit_float l (float_lit l r) = Some (Finite r)
      | _ \<Rightarrow> False)"

definition time_codec :: "lib \<Rightarrow> time \<Rightarrow> bool" where
  "time_codec l t =
     (case time_text l t of
        Some s \<Rightarrow> faithful l (JStr s) \<and> time_parse l s = Some t
      | None \<Rightarrow> False)"

definition position_codec :: "lib \<Rightarrow> vehicle_position \<Rightarrow> bool" where
  "position_codec l v \<longleftrightarrow>
     faithful l (JStr (vehicle_id v)) \<and> faithful l (JStr (route_id v)) \<and>
     float_codec l (lat v) \<and> float_codec l (lon v) \<and>
     (case speed_kph v of None \<Rightarrow> True | Some s \<Rightarrow> float_codec l s) \<and>
     (case bearing_deg v of None \<Rightarrow> True | Some b \<Rightarrow> float_codec l b) \<and>
     time_codec l (event_ts v) \<and> faithful l (JNum (dec_nat (unat (sequence v)))) \<and>
     (case position_members l v of None \<Rightarrow> False | Some ms \<Rightarrow> faithful l (JObj ms))"

definition envelope_codec :: "lib \<Rightarrow> envelope \<Rightarrow> bool" where
  "envelope_codec l e \<longleftrightarrow>
     faithful l (JNum (dec_int (schema_version e))) \<and> faithful l (JStr (event_id e)) \<and>
     faithful l (JStr (event_type e)) \<and> time_codec l (produced_at e) \<and>
     faithful l (JStr (source e)) \<and> json_compact l (payload e) = payload e \<and>
     (case envelope_members l e of None \<Rightarrow> False | Some ms \<Rightarrow> faithful l (JObj ms))"

lemma position_roundtrip:
  assumes "position_codec l v"
  shows "\<exists>p. marshal_position l v = Some p \<and>
    decode_doc l position_names (store_position l) p zero_position = Some v"
proof -
  from assms obtain ms where ms: "position_members l v = Some ms" and obj: "faithful l (JObj ms)"
    by (auto simp: position_codec_def split: option.splits)
  have "decode_members position_names (store_position l) ms zero_position = Some v"
    using assms ms
    by (cases v)
      (auto simp: position_codec_def position_members_def float_codec_def time_codec_def
        member_float_ptr_def text_float_def text_time_def field_of_def position_names_def
        store_position_def zero_position_def read_str_text read_float_text read_float_ptr_text
        read_time_text read_uint64_text split: option.splits float64.splits)
  with ms obj show ?thesis
    by (simp add: marshal_position_def decode_doc_def faithful_def decode_struct_def)
qed

lemma envelope_roundtrip:
  assumes "envelope_codec l e" and "validateHeader l e = None"
  shows "\<exists>raw. Marshal l e = Inr raw \<and> Decode l raw = Inr e"
proof -
  from assms(1) obtain ms where ms: "envelope_members l e = Some ms" and obj: "faithful l (JObj ms)"
    by (auto simp: envelope_codec_def split: option.splits)
  from assms(2) have hdr: "schema_version e = 1" "payload e \<noteq> []"
    by (auto simp: validateHeader_def Version_def split: if_splits)
  have "decode_members envelope_names (store_envelope l) ms zero_envelope = Some e"
    using assms(1) ms hdr
    by (cases e)
      (auto simp: envelope_codec_def envelope_members_def time_codec_def text_time_def
        field_of_def envelope_names_def store_envelope_def zero_envelope_def raw_member_def
        read_str_text read_int_text read_time_text split: option.splits scan.splits if_splits)
  with ms obj assms(2) show ?thesis
    by (simp add: Marshal_def Decode_def decode_doc_def faithful_def decode_struct_def)
qed

lemma Decode_unknown_member:
  assumes "json_scan l raw = Value (JObj ms)" "(k, x) \<in> set ms" "field_of envelope_names k = None"
  shows "Decode l raw = Inl MalformedJSON"
  using assms
  by (simp add: Decode_def decode_doc_def decode_struct_def decode_members_unknown)

lemma Accept_unknown_member:
  assumes "json_scan l raw = Value (JObj ms)" "(k, x) \<in> set ms" "field_of observation_names k = None"
  shows "Accept l raw src now fresh = Inl (ValidationError [] NotAnObservation)"
  using assms
  by (simp add: Accept_def decode_doc_def decode_struct_def decode_members_unknown)

lemma Validate_Finite_bounds:
  assumes "Validate v = None" "lat v = Finite a" "lon v = Finite b"
  shows "- 90 \<le> a \<and> a \<le> 90 \<and> - 180 \<le> b \<and> b \<le> 180"
  using Validate_NoneD [OF assms(1)] assms(2,3) by (auto simp: not_less)

lemma marshal_position_finite:
  assumes "marshal_position l v = Some p"
  shows "f_finite (lat v)" "f_finite (lon v)"
    "speed_kph v = Some s \<Longrightarrow> f_finite s" "bearing_deg v = Some b \<Longrightarrow> f_finite b"
  using assms
  by (auto simp: marshal_position_def position_members_def member_float_ptr_def text_float_Some
      split: option.splits)

end
