(* ===== verification/Fanout.thy ===== *)
theory Fanout
  imports Event
begin

text \<open>
  The delivery bus between the consumer and the gateways, \<open>internal/fanout\<close>: the frame, the
  publisher, and the goroutine that turns bus messages into frames.

  Redis is outside the sources. What it answers to one PUBLISH is an argument of \<open>Publish\<close>, and
  what it delivers to a subscriber is the list of \<open>bus_event\<close>s that \<open>frames_loop\<close> consumes.
\<close>

section \<open>The frame\<close>

record frame =
  f_event_id :: string
  f_vehicle_id :: string
  f_route_id :: string
  f_lat :: float64
  f_lon :: float64
  f_speed_kph :: "float64 option"
  f_bearing_deg :: "float64 option"
  f_event_ts :: time
  f_sequence :: "64 word"

datatype fan_error =
    NilPublisher
  | NilSubscriber
  | NilRedisClient
  | NoChannel
  | FrameNoEventID
  | FrameNoVehicleID
  | FrameNoEventTS
  | FrameNotMarshalled
  | PublishFailed
  | SubscribeFailed

definition frame_validate :: "frame \<Rightarrow> fan_error option" where
  "frame_validate p =
     (if f_event_id p = [] then Some FrameNoEventID
      else if f_vehicle_id p = [] then Some FrameNoVehicleID
      else if f_event_ts p = 0 then Some FrameNoEventTS
      else None)"

definition zero_frame :: frame where
  "zero_frame = \<lparr>f_event_id = [], f_vehicle_id = [], f_route_id = [], f_lat = Finite 0,
     f_lon = Finite 0, f_speed_kph = None, f_bearing_deg = None, f_event_ts = 0, f_sequence = 0\<rparr>"

definition frame_names :: "string list" where
  "frame_names = [''event_id'', ''vehicle_id'', ''route_id'', ''lat'', ''lon'', ''speed_kph'',
     ''bearing_deg'', ''event_ts'', ''sequence'']"

definition store_frame :: "lib \<Rightarrow> string \<Rightarrow> bytes \<Rightarrow> frame \<Rightarrow> frame option" where
  "store_frame l f raw v =
     (if f = ''event_id'' then map_option (\<lambda>x. v\<lparr>f_event_id := x\<rparr>) (read_str l raw (f_event_id v))
      else if f = ''vehicle_id'' then
        map_option (\<lambda>x. v\<lparr>f_vehicle_id := x\<rparr>) (read_str l raw (f_vehicle_id v))
      else if f = ''route_id'' then map_option (\<lambda>x. v\<lparr>f_route_id := x\<rparr>) (read_str l raw (f_route_id v))
      else if f = ''lat'' then map_option (\<lambda>x. v\<lparr>f_lat := x\<rparr>) (read_float l raw (f_lat v))
      else if f = ''lon'' then map_option (\<lambda>x. v\<lparr>f_lon := x\<rparr>) (read_float l raw (f_lon v))
      else if f = ''speed_kph'' then map_option (\<lambda>x. v\<lparr>f_speed_kph := x\<rparr>) (read_float_ptr l raw)
      else if f = ''bearing_deg'' then map_option (\<lambda>x. v\<lparr>f_bearing_deg := x\<rparr>) (read_float_ptr l raw)
      else if f = ''event_ts'' then map_option (\<lambda>x. v\<lparr>f_event_ts := x\<rparr>) (read_time l raw (f_event_ts v))
      else if f = ''sequence'' then
        map_option (\<lambda>x. v\<lparr>f_sequence := x\<rparr>) (read_uint64 l raw (f_sequence v))
      else None)"

definition frame_members :: "lib \<Rightarrow> frame \<Rightarrow> (string \<times> bytes) list option" where
  "frame_members l v =
     (case (text_float l (f_lat v), text_float l (f_lon v),
            member_float_ptr l ''speed_kph'' (f_speed_kph v),
            member_float_ptr l ''bearing_deg'' (f_bearing_deg v),
            text_time l (f_event_ts v)) of
        (Some la, Some lo, Some sp, Some be, Some ts) \<Rightarrow>
          Some ([(''event_id'', text_str l (f_event_id v)),
                 (''vehicle_id'', text_str l (f_vehicle_id v)),
                 (''route_id'', text_str l (f_route_id v)), (''lat'', la), (''lon'', lo)] @
                sp @ be @ [(''event_ts'', ts), (''sequence'', text_uint64 l (f_sequence v))])
      | _ \<Rightarrow> None)"

definition marshal_frame :: "lib \<Rightarrow> frame \<Rightarrow> bytes option" where
  "marshal_frame l v = map_option (\<lambda>ms. json_text l (JObj ms)) (frame_members l v)"

section \<open>Publishing\<close>

record redis_end =
  re_client :: bool
  re_channel :: string

definition NewPublisher :: "bool \<Rightarrow> string \<Rightarrow> fan_error + redis_end" where
  "NewPublisher rdb channel =
     (if \<not> rdb then Inl NilRedisClient
      else if channel = [] then Inl NoChannel
      else Inr \<lparr>re_client = rdb, re_channel = channel\<rparr>)"

definition NewSubscriber :: "bool \<Rightarrow> string \<Rightarrow> fan_error + redis_end" where
  "NewSubscriber rdb channel =
     (if \<not> rdb then Inl NilRedisClient
      else if channel = [] then Inl NoChannel
      else Inr \<lparr>re_client = rdb, re_channel = channel\<rparr>)"

text \<open>
  \<open>reply\<close> is Redis's answer to the PUBLISH of one payload on the channel: an error, or the number
  of subscribers that received it.
\<close>

definition Publish ::
  "lib \<Rightarrow> redis_end option \<Rightarrow> (string \<Rightarrow> bytes \<Rightarrow> unit + nat) \<Rightarrow> frame \<Rightarrow> fan_error + nat" where
  "Publish l p reply pos =
     (case p of
        None \<Rightarrow> Inl NilPublisher
      | Some r \<Rightarrow>
          if \<not> re_client r then Inl NilPublisher
          else (case frame_validate pos of
                  Some err \<Rightarrow> Inl err
                | None \<Rightarrow>
                    (case marshal_frame l pos of
                       None \<Rightarrow> Inl FrameNotMarshalled
                     | Some pl \<Rightarrow>
                         (case reply (re_channel r) pl of
                            Inl _ \<Rightarrow> Inl PublishFailed
                          | Inr n \<Rightarrow> Inr n))))"

section \<open>Subscribing\<close>

text \<open>The goroutine of \<open>Frames\<close> sees messages, the end of the subscription, or cancellation.\<close>

datatype bus_event = Msg bytes | SubscriptionClosed | ContextDone

definition frames_capacity :: nat where
  "frames_capacity = 256"

text \<open>One message: undecodable and invalid frames are skipped, a full channel drops the frame.\<close>

definition on_message :: "lib \<Rightarrow> bytes \<Rightarrow> frame list \<Rightarrow> frame list" where
  "on_message l m out =
     (case unmarshal l frame_names (store_frame l) m zero_frame of
        None \<Rightarrow> out
      | Some pos \<Rightarrow>
          if frame_validate pos \<noteq> None then out
          else if length out < frames_capacity then out @ [pos] else out)"

text \<open>The channel's content and whether it was closed when the goroutine returned.\<close>

fun frames_loop :: "lib \<Rightarrow> bus_event list \<Rightarrow> frame list \<Rightarrow> frame list \<times> bool" where
  "frames_loop l [] out = (out, False)"
| "frames_loop l (Msg m # es) out = frames_loop l es (on_message l m out)"
| "frames_loop l (SubscriptionClosed # es) out = (out, True)"
| "frames_loop l (ContextDone # es) out = (out, True)"

text \<open>
  \<open>Frames\<close> confirms the subscription (\<open>confirmed\<close> is Redis's answer) before it hands out the
  channel.
\<close>

definition Frames ::
  "lib \<Rightarrow> redis_end option \<Rightarrow> bool \<Rightarrow> bus_event list \<Rightarrow> fan_error + (frame list \<times> bool)" where
  "Frames l s confirmed es =
     (case s of
        None \<Rightarrow> Inl NilSubscriber
      | Some r \<Rightarrow>
          if \<not> re_client r then Inl NilSubscriber
          else if \<not> confirmed then Inl SubscribeFailed
          else Inr (frames_loop l es []))"

section \<open>Lemmas\<close>

lemma on_message_bound: "length out \<le> frames_capacity \<Longrightarrow> length (on_message l m out) \<le> frames_capacity"
  by (auto simp: on_message_def split: option.splits)

lemma on_message_valid:
  "\<forall>p \<in> set out. frame_validate p = None \<Longrightarrow> \<forall>p \<in> set (on_message l m out). frame_validate p = None"
  by (auto simp: on_message_def split: option.splits)

lemma frames_loop_invariant:
  "length out \<le> frames_capacity \<Longrightarrow> \<forall>p \<in> set out. frame_validate p = None \<Longrightarrow>
   length (fst (frames_loop l es out)) \<le> frames_capacity \<and>
   (\<forall>p \<in> set (fst (frames_loop l es out)). frame_validate p = None)"
proof (induction l es out rule: frames_loop.induct)
  case (2 l m es out)
  then show ?case
    using on_message_bound [of out l m] on_message_valid [of out l m] by simp
qed simp_all

lemma frames_loop_skips:
  assumes "unmarshal l frame_names (store_frame l) m zero_frame = None"
  shows "frames_loop l (Msg m # es) out = frames_loop l es out"
  using assms by (simp add: on_message_def)

text \<open>What a valid frame serialises to is read back as the same frame.\<close>

definition frame_codec :: "lib \<Rightarrow> frame \<Rightarrow> bool" where
  "frame_codec l v \<longleftrightarrow>
     faithful l (JStr (f_event_id v)) \<and> faithful l (JStr (f_vehicle_id v)) \<and>
     faithful l (JStr (f_route_id v)) \<and> float_codec l (f_lat v) \<and> float_codec l (f_lon v) \<and>
     (case f_speed_kph v of None \<Rightarrow> True | Some s \<Rightarrow> float_codec l s) \<and>
     (case f_bearing_deg v of None \<Rightarrow> True | Some b \<Rightarrow> float_codec l b) \<and>
     time_codec l (f_event_ts v) \<and> faithful l (JNum (dec_nat (unat (f_sequence v)))) \<and>
     (case frame_members l v of
        None \<Rightarrow> False
      | Some ms \<Rightarrow> faithful l (JObj ms) \<and> json_valid l (json_text l (JObj ms)))"

lemma frame_roundtrip:
  assumes "frame_codec l v"
  shows "\<exists>m. marshal_frame l v = Some m \<and>
    unmarshal l frame_names (store_frame l) m zero_frame = Some v"
proof -
  from assms obtain ms where ms: "frame_members l v = Some ms"
    and obj: "faithful l (JObj ms)" "json_valid l (json_text l (JObj ms))"
    by (auto simp: frame_codec_def split: option.splits)
  have "decode_members_lax frame_names (store_frame l) ms zero_frame = Some v"
    using assms ms
    by (cases v)
      (auto simp: frame_codec_def frame_members_def float_codec_def time_codec_def
        member_float_ptr_def text_float_def text_time_def field_of_def frame_names_def
        store_frame_def zero_frame_def read_str_text read_float_text read_float_ptr_text
        read_time_text read_uint64_text split: option.splits float64.splits)
  with ms obj show ?thesis
    by (simp add: marshal_frame_def unmarshal_def faithful_def)
qed

end
