(* ===== verification/Store.thy ===== *)
theory Store
  imports Fanout
begin

text \<open>
  The durable sink, \<open>internal/sink\<close> with \<open>internal/platform/db\<close> and the schema of
  \<open>internal/platform/migrations\<close>: the tables, the transaction of \<open>Apply\<close> statement by statement,
  the dead-letter row, and the reads that back the gateway.

  A table is a map from its primary key, or a list of rows in insertion order where a query
  enumerates it. A statement is a function on the tables that fails where Postgres raises: a text
  that is no uuid, a NUL byte in a text, a violated CHECK. Connection faults, the outcome of the
  commit and the clock are the argument \<open>tx_env\<close> of each transaction. \<open>timestamptz\<close> keeps whole
  microseconds and \<open>real\<close> keeps single precision; \<open>pg_lib\<close> holds the two conversions that belong
  to Postgres.
\<close>

section \<open>Postgres\<close>

datatype pg_error = PgError string | ConnError

datatype sink_error = SinkError string | Bare pg_error | Wrapped string pg_error

record pg_lib =
  pg_uuid :: "string \<Rightarrow> string option"
  pg_real :: "float64 \<Rightarrow> float64"

datatype commit_result = Committed | CommitFailed pg_error | CommitLost pg_error

text \<open>
  What happens around one transaction: \<open>tx_fault i\<close> is the connection fault that meets statement
  \<open>i\<close> (statement 0 is BEGIN), \<open>tx_commit\<close> the fate of the COMMIT. \<open>CommitLost\<close> is a commit that
  took effect while its acknowledgement was lost, so the caller sees an error.
\<close>

record tx_env =
  tx_fault :: "nat \<Rightarrow> pg_error option"
  tx_commit :: commit_result
  tx_now :: time

definition calm :: "time \<Rightarrow> tx_env" where
  "calm now = \<lparr>tx_fault = (\<lambda>i. None), tx_commit = Committed, tx_now = now\<rparr>"

definition pg_text_ok :: "string \<Rightarrow> bool" where
  "pg_text_ok s \<longleftrightarrow> CHR 0x00 \<notin> set s"

definition pg_between :: "rat \<Rightarrow> rat \<Rightarrow> float64 \<Rightarrow> bool" where
  "pg_between lo hi x = (case x of Finite r \<Rightarrow> lo \<le> r \<and> r \<le> hi | _ \<Rightarrow> False)"

text \<open>In Postgres a NaN is greater than every number.\<close>

definition pg_nonneg :: "float64 option \<Rightarrow> bool" where
  "pg_nonneg x = (case x of None \<Rightarrow> True | Some f \<Rightarrow> f = NaN \<or> f_le (Finite 0) f)"

definition usec :: "time \<Rightarrow> int" where
  "usec t = t div 1000"

definition of_usec :: "int \<Rightarrow> time" where
  "of_usec u = u * 1000"

section \<open>Tables\<close>

record position_row =
  r_event_id :: string
  r_vehicle_id :: string
  r_route_id :: string
  r_lat :: float64
  r_lon :: float64
  r_speed_kph :: "float64 option"
  r_bearing_deg :: "float64 option"
  r_event_ts :: int
  r_produced_at :: int
  r_ingested_at :: int
  r_partition :: int
  r_offset :: int
  r_sequence :: int

record current_row =
  c_route_id :: string
  c_lat :: float64
  c_lon :: float64
  c_speed_kph :: "float64 option"
  c_bearing_deg :: "float64 option"
  c_last_event_ts :: int
  c_last_event_id :: string
  c_updated_at :: int

record processed_row =
  p_processed_at :: int
  p_consumer_id :: string
  p_partition :: int
  p_offset :: int

record version_row =
  v_first_seen_at :: int
  v_last_seen_at :: int
  v_event_count :: nat

record dead_row =
  d_event_id :: string
  d_raw_payload :: bytes
  d_error :: string
  d_reason :: string
  d_attempts :: int
  d_first_failed_at :: int
  d_last_failed_at :: int
  d_topic :: string
  d_partition :: int
  d_offset :: int
  d_state :: string
  d_replayed_at :: "int option"

record sink_db =
  processed_events :: "string \<rightharpoonup> processed_row"
  vehicle_positions :: "position_row list"
  vehicle_current :: "string \<rightharpoonup> current_row"
  schema_versions :: "int \<times> string \<rightharpoonup> version_row"
  dead_letters :: "dead_row list"

definition empty_db :: sink_db where
  "empty_db = \<lparr>processed_events = Map.empty, vehicle_positions = [], vehicle_current = Map.empty,
     schema_versions = Map.empty, dead_letters = []\<rparr>"

section \<open>Transactions\<close>

text \<open>\<open>pgx.BeginFunc\<close>: rollback on an error of the body, commit otherwise.\<close>

definition InTx ::
  "tx_env \<Rightarrow> ('db \<Rightarrow> sink_error + 'a \<times> 'db) \<Rightarrow> 'db \<Rightarrow> (sink_error + 'a) \<times> 'db" where
  "InTx env body db =
     (case tx_fault env 0 of
        Some e \<Rightarrow> (Inl (Bare e), db)
      | None \<Rightarrow>
          (case body db of
             Inl e \<Rightarrow> (Inl e, db)
           | Inr (x, db') \<Rightarrow>
               (case tx_commit env of
                  Committed \<Rightarrow> (Inr x, db')
                | CommitFailed e \<Rightarrow> (Inl (Bare e), db)
                | CommitLost e \<Rightarrow> (Inl (Bare e), db'))))"

text \<open>A statement is met by a connection fault, or runs and is wrapped with its stage on error.\<close>

definition Exec :: "tx_env \<Rightarrow> nat \<Rightarrow> string \<Rightarrow> pg_error + 'a \<Rightarrow> sink_error + 'a" where
  "Exec env i stage r =
     (case tx_fault env i of
        Some e \<Rightarrow> Inl (Wrapped stage e)
      | None \<Rightarrow> (case r of Inl e \<Rightarrow> Inl (Wrapped stage e) | Inr x \<Rightarrow> Inr x))"

section \<open>Apply\<close>

datatype outcome = OutcomeApplied | OutcomeDuplicate | OutcomeLate

record input =
  i_envelope :: envelope
  i_position :: vehicle_position
  i_partition :: int
  i_offset :: int

record store =
  st_pool :: bool
  st_consumer_id :: string

definition NewStore :: "bool \<Rightarrow> string \<Rightarrow> sink_error + store" where
  "NewStore pool consumerID =
     (if \<not> pool then Inl (SinkError ''nil pool'')
      else if consumerID = [] then Inl (SinkError ''a consumer id is required'')
      else Inr \<lparr>st_pool = pool, st_consumer_id = consumerID\<rparr>)"

text \<open>The four statements; the number is the count of affected rows.\<close>

definition insert_processed ::
  "pg_lib \<Rightarrow> string \<Rightarrow> time \<Rightarrow> input \<Rightarrow> sink_db \<Rightarrow> pg_error + nat \<times> sink_db" where
  "insert_processed pg cid now i db =
     (case pg_uuid pg (event_id (i_envelope i)) of
        None \<Rightarrow> Inl (PgError ''22P02'')
      | Some u \<Rightarrow>
          if \<not> pg_text_ok cid then Inl (PgError ''22021'')
          else if processed_events db u \<noteq> None then Inr (0, db)
          else Inr (1, db\<lparr>processed_events := (processed_events db)(u \<mapsto>
                 \<lparr>p_processed_at = usec now, p_consumer_id = cid,
                  p_partition = i_partition i, p_offset = i_offset i\<rparr>)\<rparr>))"

definition position_row_of :: "pg_lib \<Rightarrow> string \<Rightarrow> time \<Rightarrow> input \<Rightarrow> position_row" where
  "position_row_of pg u now i =
     (let v = i_position i in
      \<lparr>r_event_id = u, r_vehicle_id = vehicle_id v, r_route_id = route_id v,
       r_lat = lat v, r_lon = lon v,
       r_speed_kph = map_option (pg_real pg) (speed_kph v),
       r_bearing_deg = map_option (pg_real pg) (bearing_deg v),
       r_event_ts = usec (event_ts v), r_produced_at = usec (produced_at (i_envelope i)),
       r_ingested_at = usec now, r_partition = i_partition i, r_offset = i_offset i,
       r_sequence = sint (sequence v)\<rparr>)"

definition position_checks :: "position_row \<Rightarrow> bool" where
  "position_checks r \<longleftrightarrow> pg_between (- 90) 90 (r_lat r) \<and> pg_between (- 180) 180 (r_lon r) \<and>
     pg_nonneg (r_speed_kph r)"

definition insert_position ::
  "pg_lib \<Rightarrow> time \<Rightarrow> input \<Rightarrow> sink_db \<Rightarrow> pg_error + nat \<times> sink_db" where
  "insert_position pg now i db =
     (case pg_uuid pg (event_id (i_envelope i)) of
        None \<Rightarrow> Inl (PgError ''22P02'')
      | Some u \<Rightarrow>
          let r = position_row_of pg u now i in
          if \<not> pg_text_ok (r_vehicle_id r) \<or> \<not> pg_text_ok (r_route_id r) then Inl (PgError ''22021'')
          else if \<not> position_checks r then Inl (PgError ''23514'')
          else if row_of r_event_id u (vehicle_positions db) \<noteq> None then Inr (0, db)
          else Inr (1, db\<lparr>vehicle_positions := vehicle_positions db @ [r]\<rparr>))"

definition current_row_of :: "pg_lib \<Rightarrow> string \<Rightarrow> time \<Rightarrow> input \<Rightarrow> current_row" where
  "current_row_of pg u now i =
     (let v = i_position i in
      \<lparr>c_route_id = route_id v, c_lat = lat v, c_lon = lon v,
       c_speed_kph = map_option (pg_real pg) (speed_kph v),
       c_bearing_deg = map_option (pg_real pg) (bearing_deg v),
       c_last_event_ts = usec (event_ts v), c_last_event_id = u, c_updated_at = usec now\<rparr>)"

definition upsert_current ::
  "pg_lib \<Rightarrow> time \<Rightarrow> input \<Rightarrow> sink_db \<Rightarrow> pg_error + nat \<times> sink_db" where
  "upsert_current pg now i db =
     (case pg_uuid pg (event_id (i_envelope i)) of
        None \<Rightarrow> Inl (PgError ''22P02'')
      | Some u \<Rightarrow>
          let v = i_position i; c = current_row_of pg u now i in
          if \<not> pg_text_ok (vehicle_id v) \<or> \<not> pg_text_ok (route_id v) then Inl (PgError ''22021'')
          else (case vehicle_current db (vehicle_id v) of
                  None \<Rightarrow> Inr (1, db\<lparr>vehicle_current := (vehicle_current db)(vehicle_id v \<mapsto> c)\<rparr>)
                | Some old \<Rightarrow>
                    if c_last_event_ts c > c_last_event_ts old then
                      Inr (1, db\<lparr>vehicle_current := (vehicle_current db)(vehicle_id v \<mapsto> c)\<rparr>)
                    else Inr (0, db)))"

definition upsert_version :: "time \<Rightarrow> input \<Rightarrow> sink_db \<Rightarrow> pg_error + nat \<times> sink_db" where
  "upsert_version now i db =
     (let k = (schema_version (i_envelope i), event_type (i_envelope i)) in
      if \<not> pg_text_ok (snd k) then Inl (PgError ''22021'')
      else Inr (1, db\<lparr>schema_versions := (schema_versions db)(k \<mapsto>
             (case schema_versions db k of
                None \<Rightarrow> \<lparr>v_first_seen_at = usec now, v_last_seen_at = usec now, v_event_count = 1\<rparr>
              | Some w \<Rightarrow> w\<lparr>v_event_count := v_event_count w + 1, v_last_seen_at := usec now\<rparr>))\<rparr>))"

definition apply_body ::
  "pg_lib \<Rightarrow> tx_env \<Rightarrow> string \<Rightarrow> input \<Rightarrow> sink_db \<Rightarrow> sink_error + outcome \<times> sink_db" where
  "apply_body pg env cid i db =
     (case Exec env 1 ''insert processed_events'' (insert_processed pg cid (tx_now env) i db) of
        Inl e \<Rightarrow> Inl e
      | Inr (n, db1) \<Rightarrow>
          if n = 0 then Inr (OutcomeDuplicate, db1)
          else (case Exec env 2 ''insert vehicle_positions'' (insert_position pg (tx_now env) i db1) of
                  Inl e \<Rightarrow> Inl e
                | Inr (_, db2) \<Rightarrow>
                    (case Exec env 3 ''upsert vehicle_current'' (upsert_current pg (tx_now env) i db2) of
                       Inl e \<Rightarrow> Inl e
                     | Inr (m, db3) \<Rightarrow>
                         (case Exec env 4 ''upsert schema_versions''
                                 (upsert_version (tx_now env) i db3) of
                            Inl e \<Rightarrow> Inl e
                          | Inr (_, db4) \<Rightarrow>
                              Inr (if m = 0 then OutcomeLate else OutcomeApplied, db4)))))"

definition Apply ::
  "pg_lib \<Rightarrow> store option \<Rightarrow> tx_env \<Rightarrow> input \<Rightarrow> sink_db \<Rightarrow> (sink_error + outcome) \<times> sink_db" where
  "Apply pg s env i db =
     (case s of
        None \<Rightarrow> (Inl (SinkError ''nil store''), db)
      | Some st \<Rightarrow>
          if \<not> st_pool st then (Inl (SinkError ''nil store''), db)
          else InTx env (apply_body pg env (st_consumer_id st) i) db)"

section \<open>Dead letters\<close>

text \<open>\<open>dl_payload\<close> is \<open>None\<close> for a nil slice.\<close>

record dead_letter =
  dl_event_id :: string
  dl_key :: string
  dl_payload :: "bytes option"
  dl_error :: string
  dl_reason :: string
  dl_attempts :: int
  dl_topic :: string
  dl_partition :: int
  dl_offset :: int
  dl_first_seen :: time

definition dead_reasons :: "string list" where
  "dead_reasons = [''decode'', ''unknown_version'', ''retries_exhausted'', ''unknown'']"

definition upsert_dead ::
  "pg_lib \<Rightarrow> time \<Rightarrow> time \<Rightarrow> string \<Rightarrow> dead_letter \<Rightarrow> sink_db \<Rightarrow> pg_error + unit \<times> sink_db" where
  "upsert_dead pg now first reason dl db =
     (case pg_uuid pg (dl_event_id dl) of
        None \<Rightarrow> Inl (PgError ''22P02'')
      | Some u \<Rightarrow>
          if \<not> pg_text_ok (dl_error dl) \<or> \<not> pg_text_ok reason \<or> \<not> pg_text_ok (dl_topic dl)
          then Inl (PgError ''22021'')
          else (case dl_payload dl of
                  None \<Rightarrow> Inl (PgError ''23502'')
                | Some pl \<Rightarrow>
                    if reason \<notin> set dead_reasons then Inl (PgError ''23514'')
                    else if row_of d_event_id u (dead_letters db) = None then
                      Inr ((), db\<lparr>dead_letters := dead_letters db @
                        [\<lparr>d_event_id = u, d_raw_payload = pl, d_error = dl_error dl,
                          d_reason = reason, d_attempts = dl_attempts dl,
                          d_first_failed_at = usec first, d_last_failed_at = usec now,
                          d_topic = dl_topic dl, d_partition = dl_partition dl,
                          d_offset = dl_offset dl, d_state = ''dead'', d_replayed_at = None\<rparr>]\<rparr>)
                    else
                      Inr ((), db\<lparr>dead_letters := update_row d_event_id u
                        (\<lambda>r. r\<lparr>d_error := dl_error dl, d_reason := reason,
                               d_attempts := d_attempts r + dl_attempts dl,
                               d_last_failed_at := usec now, d_state := ''dead'',
                               d_replayed_at := None\<rparr>) (dead_letters db)\<rparr>)))"

definition RecordDeadLetter ::
  "pg_lib \<Rightarrow> store option \<Rightarrow> tx_env \<Rightarrow> dead_letter \<Rightarrow> sink_db \<Rightarrow> sink_error option \<times> sink_db" where
  "RecordDeadLetter pg s env dl db =
     (case s of
        None \<Rightarrow> (Some (SinkError ''nil store''), db)
      | Some st \<Rightarrow>
          if \<not> st_pool st then (Some (SinkError ''nil store''), db)
          else if dl_event_id dl = [] then (Some (SinkError ''dead letter has no event id''), db)
          else
            let reason = (if dl_reason dl = [] then ''unknown'' else dl_reason dl);
                first = (if dl_first_seen dl = 0 then tx_now env else dl_first_seen dl) in
            (case InTx env (\<lambda>d. Exec env 1 ''record dead letter''
                                  (upsert_dead pg (tx_now env) first reason dl d)) db of
               (Inl e, db') \<Rightarrow> (Some e, db')
             | (Inr _, db') \<Rightarrow> (None, db')))"

definition DLQDepth :: "store option \<Rightarrow> pg_error option \<Rightarrow> sink_db \<Rightarrow> sink_error + nat" where
  "DLQDepth s fault db =
     (case s of
        None \<Rightarrow> Inl (SinkError ''nil store'')
      | Some st \<Rightarrow>
          if \<not> st_pool st then Inl (SinkError ''nil store'')
          else (case fault of
                  Some e \<Rightarrow> Inl (Wrapped ''count dead letters'' e)
                | None \<Rightarrow> Inr (length (filter (\<lambda>r. d_state r = ''dead'') (dead_letters db)))))"

end
