(* ===== verification/Sink.thy ===== *)
theory Sink
  imports Store
begin

text \<open>
  What the sink promises: the invariant of the tables and its preservation by every write, the
  effect of \<open>Apply\<close> on each branch, atomicity under every fault, and the contract of an
  effectively-once applier, interpreted on \<open>Apply\<close>.
\<close>

section \<open>The tables as functions of the history\<close>

text \<open>The row of a vehicle that current state must show: the first one with the newest time.\<close>

definition newer :: "position_row option \<Rightarrow> position_row \<Rightarrow> position_row option" where
  "newer acc r =
     (case acc of
        None \<Rightarrow> Some r
      | Some a \<Rightarrow> if r_event_ts r > r_event_ts a then Some r else Some a)"

definition latest_row :: "position_row list \<Rightarrow> string \<Rightarrow> position_row option" where
  "latest_row rows v = foldl newer None (filter (\<lambda>r. r_vehicle_id r = v) rows)"

definition current_of_row :: "position_row \<Rightarrow> current_row" where
  "current_of_row r =
     \<lparr>c_route_id = r_route_id r, c_lat = r_lat r, c_lon = r_lon r, c_speed_kph = r_speed_kph r,
      c_bearing_deg = r_bearing_deg r, c_last_event_ts = r_event_ts r,
      c_last_event_id = r_event_id r, c_updated_at = r_ingested_at r\<rparr>"

definition current_view :: "position_row list \<Rightarrow> string \<Rightarrow> current_row option" where
  "current_view rows v = map_option current_of_row (latest_row rows v)"

definition version_total :: "sink_db \<Rightarrow> nat" where
  "version_total db = (\<Sum>k \<in> dom (schema_versions db). v_event_count (the (schema_versions db k)))"

definition dead_ok :: "dead_row \<Rightarrow> bool" where
  "dead_ok d \<longleftrightarrow> d_reason d \<in> set dead_reasons \<and>
     (d_state d = ''dead'' \<and> d_replayed_at d = None \<or>
      d_state d = ''replayed'' \<and> d_replayed_at d \<noteq> None)"

text \<open>
  The invariant: primary keys are unique, the deduplication record and the history name the same
  events, every row satisfies its CHECK constraints, current state is the view of the history,
  and the version counters count every event of the history once.
\<close>

definition sink_inv :: "sink_db \<Rightarrow> bool" where
  "sink_inv db \<longleftrightarrow>
     distinct (map r_event_id (vehicle_positions db)) \<and>
     dom (processed_events db) = r_event_id ` set (vehicle_positions db) \<and>
     (\<forall>r \<in> set (vehicle_positions db). position_checks r) \<and>
     vehicle_current db = current_view (vehicle_positions db) \<and>
     finite (dom (schema_versions db)) \<and>
     version_total db = length (vehicle_positions db) \<and>
     distinct (map d_event_id (dead_letters db)) \<and>
     (\<forall>d \<in> set (dead_letters db). dead_ok d)"

lemma sink_invD:
  assumes "sink_inv db"
  shows "distinct (map r_event_id (vehicle_positions db))"
    and "dom (processed_events db) = r_event_id ` set (vehicle_positions db)"
    and "r \<in> set (vehicle_positions db) \<Longrightarrow> position_checks r"
    and "vehicle_current db = current_view (vehicle_positions db)"
    and "finite (dom (schema_versions db))"
    and "version_total db = length (vehicle_positions db)"
    and "distinct (map d_event_id (dead_letters db))"
    and "d \<in> set (dead_letters db) \<Longrightarrow> dead_ok d"
  using assms by (auto simp: sink_inv_def)

lemma sink_inv_empty [inv_intros]: "sink_inv empty_db"
  by (auto simp: sink_inv_def empty_db_def current_view_def latest_row_def version_total_def fun_eq_iff)

section \<open>The newest row of a vehicle\<close>

lemma latest_row_snoc:
  "latest_row (rows @ [r]) v =
     (if r_vehicle_id r = v then newer (latest_row rows v) r else latest_row rows v)"
  by (simp add: latest_row_def)

lemma current_view_snoc:
  "current_view (rows @ [r]) =
     (current_view rows)(r_vehicle_id r := map_option current_of_row (newer (latest_row rows (r_vehicle_id r)) r))"
  by (auto simp: current_view_def latest_row_snoc fun_eq_iff)

lemma latest_row_SomeD:
  "latest_row rows v = Some r \<Longrightarrow>
   r \<in> set rows \<and> r_vehicle_id r = v \<and>
   (\<forall>r' \<in> set rows. r_vehicle_id r' = v \<longrightarrow> r_event_ts r' \<le> r_event_ts r)"
proof (induction rows arbitrary: r rule: rev_induct)
  case Nil
  then show ?case by (simp add: latest_row_def)
next
  case (snoc x rows)
  show ?case
  proof (cases "latest_row rows v")
    case None
    have "\<forall>r' \<in> set rows. r_vehicle_id r' \<noteq> v"
      using None
    proof (induction rows rule: rev_induct)
      case (snoc y ys)
      then show ?case
        by (auto simp: latest_row_snoc newer_def split: if_splits option.splits)
    qed simp
    with None snoc.prems show ?thesis
      by (auto simp: latest_row_snoc newer_def split: if_splits)
  next
    case (Some a)
    with snoc.IH [OF Some] snoc.prems show ?thesis
      by (force simp: latest_row_snoc newer_def split: if_splits)
  qed
qed

lemma latest_row_None_iff:
  "latest_row rows v = None \<longleftrightarrow> v \<notin> r_vehicle_id ` set rows"
  by (induction rows rule: rev_induct)
    (auto simp: latest_row_def newer_def split: option.splits)

section \<open>The effect of Apply\<close>

definition apply_effect ::
  "pg_lib \<Rightarrow> string \<Rightarrow> time \<Rightarrow> input \<Rightarrow> string \<Rightarrow> sink_db \<Rightarrow> sink_db" where
  "apply_effect pg cid now i u db =
     db\<lparr>processed_events := (processed_events db)(u \<mapsto>
          \<lparr>p_processed_at = usec now, p_consumer_id = cid,
           p_partition = i_partition i, p_offset = i_offset i\<rparr>),
        vehicle_positions := vehicle_positions db @ [position_row_of pg u now i],
        vehicle_current := current_view (vehicle_positions db @ [position_row_of pg u now i]),
        schema_versions := (schema_versions db)((schema_version (i_envelope i), event_type (i_envelope i)) \<mapsto>
          (case schema_versions db (schema_version (i_envelope i), event_type (i_envelope i)) of
             None \<Rightarrow> \<lparr>v_first_seen_at = usec now, v_last_seen_at = usec now, v_event_count = 1\<rparr>
           | Some w \<Rightarrow> w\<lparr>v_event_count := v_event_count w + 1, v_last_seen_at := usec now\<rparr>))\<rparr>"

text \<open>Whether the event is not newer than what the history holds of its vehicle.\<close>

definition is_late :: "input \<Rightarrow> sink_db \<Rightarrow> bool" where
  "is_late i db =
     (case latest_row (vehicle_positions db) (vehicle_id (i_position i)) of
        None \<Rightarrow> False
      | Some a \<Rightarrow> usec (event_ts (i_position i)) \<le> r_event_ts a)"

lemma current_of_position_row:
  "current_of_row (position_row_of pg u now i) = current_row_of pg u now i"
  by (simp add: current_of_row_def position_row_of_def current_row_of_def Let_def)

lemma position_row_of_sel [simp]:
  "r_event_id (position_row_of pg u now i) = u"
  "r_vehicle_id (position_row_of pg u now i) = vehicle_id (i_position i)"
  "r_route_id (position_row_of pg u now i) = route_id (i_position i)"
  "r_event_ts (position_row_of pg u now i) = usec (event_ts (i_position i))"
  "r_partition (position_row_of pg u now i) = i_partition i"
  "r_offset (position_row_of pg u now i) = i_offset i"
  "r_sequence (position_row_of pg u now i) = sint (sequence (i_position i))"
  by (simp_all add: position_row_of_def Let_def)

lemma Exec_Inr [simp]: "Exec env n stage r = Inr x \<longleftrightarrow> tx_fault env n = None \<and> r = Inr x"
  by (auto simp: Exec_def split: option.splits sum.splits)

lemma insert_processed_Inr:
  "insert_processed pg cid now i db = Inr (n, db') \<longleftrightarrow>
     (\<exists>u. pg_uuid pg (event_id (i_envelope i)) = Some u \<and> pg_text_ok cid \<and>
        (if processed_events db u \<noteq> None then n = 0 \<and> db' = db
         else n = 1 \<and> db' = db\<lparr>processed_events := (processed_events db)(u \<mapsto>
                 \<lparr>p_processed_at = usec now, p_consumer_id = cid,
                  p_partition = i_partition i, p_offset = i_offset i\<rparr>)\<rparr>))"
  by (auto simp: insert_processed_def split: option.splits if_splits)

lemma upsert_current_view:
  assumes "vehicle_current db = current_view rows"
    and "upsert_current pg now i db = Inr (m, db')" and "pg_uuid pg (event_id (i_envelope i)) = Some u"
  shows "db' = db\<lparr>vehicle_current := current_view (rows @ [position_row_of pg u now i])\<rparr>"
    and "m = 0 \<longleftrightarrow> (case latest_row rows (vehicle_id (i_position i)) of
            None \<Rightarrow> False | Some a \<Rightarrow> usec (event_ts (i_position i)) \<le> r_event_ts a)"
proof -
  let ?v = "vehicle_id (i_position i)" and ?c = "current_row_of pg u now i"
  have old: "vehicle_current db ?v = map_option current_of_row (latest_row rows ?v)"
    by (simp add: assms(1) current_view_def)
  have ts: "c_last_event_ts ?c = usec (event_ts (i_position i))"
    by (simp add: current_row_of_def Let_def)
  have "db' = db\<lparr>vehicle_current := current_view (rows @ [position_row_of pg u now i])\<rparr> \<and>
      (m = 0 \<longleftrightarrow> (case latest_row rows ?v of
            None \<Rightarrow> False | Some a \<Rightarrow> usec (event_ts (i_position i)) \<le> r_event_ts a))"
  proof (cases "latest_row rows ?v")
    case None
    with old assms(2,3) show ?thesis
      by (auto simp: upsert_current_def current_view_snoc newer_def Let_def
          current_of_position_row assms(1) split: if_splits)
  next
    case (Some a)
    have keep: "(current_view rows)(?v \<mapsto> current_of_row a) = current_view rows"
      using Some by (auto simp: current_view_def fun_eq_iff)
    have upd: "db\<lparr>vehicle_current := current_view rows\<rparr> = db"
      using assms(1) by simp
    have "c_last_event_ts (current_of_row a) = r_event_ts a"
      by (simp add: current_of_row_def)
    with Some old ts assms(2,3) show ?thesis
      by (cases "usec (event_ts (i_position i)) > r_event_ts a")
        (auto simp: upsert_current_def current_view_snoc newer_def Let_def keep upd
          current_of_position_row assms(1) split: if_splits)
  qed
  then show "db' = db\<lparr>vehicle_current := current_view (rows @ [position_row_of pg u now i])\<rparr>"
    and "m = 0 \<longleftrightarrow> (case latest_row rows ?v of
            None \<Rightarrow> False | Some a \<Rightarrow> usec (event_ts (i_position i)) \<le> r_event_ts a)"
    by blast+
qed

lemma apply_body_Inr:
  assumes inv: "sink_inv db" and body: "apply_body pg env cid i db = Inr (out, db')"
  shows "\<exists>u. pg_uuid pg (event_id (i_envelope i)) = Some u \<and> pg_text_ok cid \<and>
    (if u \<in> dom (processed_events db) then out = OutcomeDuplicate \<and> db' = db
     else db' = apply_effect pg cid (tx_now env) i u db \<and>
          position_checks (position_row_of pg u (tx_now env) i) \<and>
          out = (if is_late i db then OutcomeLate else OutcomeApplied))"
proof -
  from body obtain n db1 where p: "insert_processed pg cid (tx_now env) i db = Inr (n, db1)"
    by (auto simp: apply_body_def split: sum.splits)
  then obtain u where u: "pg_uuid pg (event_id (i_envelope i)) = Some u" "pg_text_ok cid"
    by (auto simp: insert_processed_Inr)
  show ?thesis
  proof (cases "u \<in> dom (processed_events db)")
    case True
    with p u body show ?thesis
      by (auto simp: apply_body_def insert_processed_Inr domIff split: sum.splits if_splits)
  next
    case False
    then have db1: "n = 1" "db1 = db\<lparr>processed_events := (processed_events db)(u \<mapsto>
        \<lparr>p_processed_at = usec (tx_now env), p_consumer_id = cid,
         p_partition = i_partition i, p_offset = i_offset i\<rparr>)\<rparr>"
      using p u by (auto simp: insert_processed_Inr domIff split: if_splits)
    from False have absent: "row_of r_event_id u (vehicle_positions db) = None"
      using sink_invD(2) [OF inv] by (simp add: row_of_None_iff)
    from body p db1(1) obtain k db2 m db3 l where
      pos: "insert_position pg (tx_now env) i db1 = Inr (k, db2)" and
      cur: "upsert_current pg (tx_now env) i db2 = Inr (m, db3)" and
      ver: "upsert_version (tx_now env) i db3 = Inr (l, db')" and
      out: "out = (if m = 0 then OutcomeLate else OutcomeApplied)"
      by (auto simp: apply_body_def split: sum.splits prod.splits)
    let ?r = "position_row_of pg u (tx_now env) i"
    from pos u(1) absent have db2: "db2 = db1\<lparr>vehicle_positions := vehicle_positions db @ [?r]\<rparr>"
      and chk: "position_checks ?r"
      by (auto simp: insert_position_def Let_def db1(2) split: if_splits)
    have "vehicle_current db2 = current_view (vehicle_positions db)"
      using sink_invD(4) [OF inv] by (simp add: db2 db1(2))
    note view = upsert_current_view [OF this cur u(1)]
    have "m = 0 \<longleftrightarrow> is_late i db"
      using view(2) by (simp add: is_late_def)
    moreover have "db' = apply_effect pg cid (tx_now env) i u db"
      using ver view(1)
      by (auto simp: upsert_version_def apply_effect_def db2 db1(2) Let_def split: if_splits)
    ultimately show ?thesis using False u chk out by simp
  qed
qed

section \<open>Preservation\<close>

lemma version_total_upd:
  assumes "finite (dom m)"
  shows "(\<Sum>k \<in> dom (m(k0 \<mapsto> w)). v_event_count (the ((m(k0 \<mapsto> w)) k))) =
    (\<Sum>k \<in> dom m - {k0}. v_event_count (the (m k))) + v_event_count w"
proof -
  have "dom (m(k0 \<mapsto> w)) = insert k0 (dom m - {k0})" by auto
  moreover have "(\<Sum>k \<in> insert k0 (dom m - {k0}). v_event_count (the ((m(k0 \<mapsto> w)) k))) =
      v_event_count w + (\<Sum>k \<in> dom m - {k0}. v_event_count (the ((m(k0 \<mapsto> w)) k)))"
    using assms by (subst sum.insert) auto
  moreover have "(\<Sum>k \<in> dom m - {k0}. v_event_count (the ((m(k0 \<mapsto> w)) k))) =
      (\<Sum>k \<in> dom m - {k0}. v_event_count (the (m k)))"
    by (rule sum.cong) auto
  ultimately show ?thesis by (metis add.commute)
qed

lemma apply_effect_version_total:
  assumes "finite (dom (schema_versions db))"
  shows "version_total (apply_effect pg cid now i u db) = version_total db + 1"
proof -
  let ?m = "schema_versions db"
    and ?k = "(schema_version (i_envelope i), event_type (i_envelope i))"
  let ?w = "case ?m ?k of
      None \<Rightarrow> \<lparr>v_first_seen_at = usec now, v_last_seen_at = usec now, v_event_count = 1\<rparr>
    | Some w \<Rightarrow> w\<lparr>v_event_count := v_event_count w + 1, v_last_seen_at := usec now\<rparr>"
  have "version_total (apply_effect pg cid now i u db) =
      (\<Sum>k \<in> dom ?m - {?k}. v_event_count (the (?m k))) + v_event_count ?w"
    using version_total_upd [OF assms, of ?k ?w] by (simp add: version_total_def apply_effect_def)
  also have "\<dots> = version_total db + 1"
  proof (cases "?m ?k")
    case None
    then have "dom ?m - {?k} = dom ?m" by auto
    with None show ?thesis by (simp add: version_total_def)
  next
    case (Some w)
    then have "?k \<in> dom ?m" by blast
    with Some show ?thesis
      by (simp add: version_total_def sum.remove [OF assms])
  qed
  finally show ?thesis .
qed

lemma apply_effect_inv:
  assumes inv: "sink_inv db" and new: "u \<notin> dom (processed_events db)"
    and chk: "position_checks (position_row_of pg u now i)"
  shows "sink_inv (apply_effect pg cid now i u db)"
proof -
  note I = sink_invD [OF inv]
  have "version_total (apply_effect pg cid now i u db) = length (vehicle_positions db) + 1"
    using apply_effect_version_total [OF I(5)] I(6) by simp
  moreover have "u \<notin> r_event_id ` set (vehicle_positions db)"
    using new I(2) by simp
  ultimately show ?thesis
    using I chk
    by (auto simp: sink_inv_def apply_effect_def version_total_def)
qed

lemma apply_body_inv:
  assumes "sink_inv db" and "apply_body pg env cid i db = Inr (out, db')"
  shows "sink_inv db'"
  using apply_body_Inr [OF assms] assms(1)
  by (auto intro: apply_effect_inv split: if_splits)

lemma InTx_cases:
  assumes "InTx env body db = (r, db')"
  obtains (rolled_back) e where "r = Inl e" "db' = db"
  | (committed) x where "body db = Inr (x, db')" "r = Inr x \<or> (\<exists>e. tx_commit env = CommitLost e \<and> r = Inl (Bare e))"
  using assms
  by (auto simp: InTx_def split: option.splits sum.splits prod.splits commit_result.splits)

lemma Apply_live:
  "Apply pg s env i db = (r, db') \<Longrightarrow>
   db' = db \<and> (\<exists>e. r = Inl e) \<or>
   (\<exists>st. s = Some st \<and> st_pool st \<and>
      InTx env (apply_body pg env (st_consumer_id st) i) db = (r, db'))"
  by (auto simp: Apply_def split: option.splits if_splits)

lemma Apply_inv [inv_intros]:
  assumes "sink_inv db"
  shows "sink_inv (snd (Apply pg s env i db))"
proof -
  obtain r db' where eq: "Apply pg s env i db = (r, db')" by fastforce
  from Apply_live [OF eq] show ?thesis
  proof
    assume "\<exists>st. s = Some st \<and> st_pool st \<and>
      InTx env (apply_body pg env (st_consumer_id st) i) db = (r, db')"
    then show ?thesis
      using assms eq by (auto elim!: InTx_cases intro: apply_body_inv)
  qed (use assms eq in auto)
qed

lemma sink_inv_dead_letters:
  assumes "sink_inv db" and "distinct (map d_event_id ds)" and "\<forall>d \<in> set ds. dead_ok d"
  shows "sink_inv (db\<lparr>dead_letters := ds\<rparr>)"
  using assms by (simp add: sink_inv_def version_total_def)

lemma upsert_dead_Inr:
  assumes "upsert_dead pg now first reason dl db = Inr (x, db')"
  shows "\<exists>u ds. pg_uuid pg (dl_event_id dl) = Some u \<and> db' = db\<lparr>dead_letters := ds\<rparr> \<and>
    reason \<in> set dead_reasons \<and>
    (map d_event_id ds = map d_event_id (dead_letters db) \<or>
     map d_event_id ds = map d_event_id (dead_letters db) @ [u] \<and>
       u \<notin> d_event_id ` set (dead_letters db)) \<and>
    (\<forall>d \<in> set ds. d \<in> set (dead_letters db) \<or>
       d_state d = ''dead'' \<and> d_replayed_at d = None \<and> d_reason d = reason)"
proof -
  from assms obtain u pl where u: "pg_uuid pg (dl_event_id dl) = Some u" "dl_payload dl = Some pl"
      "reason \<in> set dead_reasons"
    by (auto simp: upsert_dead_def split: option.splits if_splits)
  let ?f = "\<lambda>r. r\<lparr>d_error := dl_error dl, d_reason := reason,
      d_attempts := d_attempts r + dl_attempts dl, d_last_failed_at := usec now,
      d_state := ''dead'', d_replayed_at := None\<rparr>"
  have keys: "map d_event_id (update_row d_event_id u ?f (dead_letters db)) =
      map d_event_id (dead_letters db)"
    by (rule map_key_update_row) simp
  show ?thesis
  proof (cases "row_of d_event_id u (dead_letters db) = None")
    case True
    with u assms show ?thesis
      by (intro exI [of _ u] exI [of _ "dead_letters db'"])
        (auto simp: upsert_dead_def row_of_None_iff split: option.splits if_splits)
  next
    case False
    with u assms keys show ?thesis
      by (intro exI [of _ u] exI [of _ "update_row d_event_id u ?f (dead_letters db)"])
        (auto simp: upsert_dead_def update_row_def split: option.splits if_splits)
  qed
qed

lemma upsert_dead_inv:
  assumes "sink_inv db" and "upsert_dead pg now first reason dl db = Inr (x, db')"
  shows "sink_inv db'"
proof -
  note I = sink_invD [OF assms(1)]
  from upsert_dead_Inr [OF assms(2)] obtain u ds where
    d: "db' = db\<lparr>dead_letters := ds\<rparr>" "reason \<in> set dead_reasons" and
    keys: "map d_event_id ds = map d_event_id (dead_letters db) \<or>
     map d_event_id ds = map d_event_id (dead_letters db) @ [u] \<and>
       u \<notin> d_event_id ` set (dead_letters db)" and
    rows: "\<forall>d \<in> set ds. d \<in> set (dead_letters db) \<or>
       d_state d = ''dead'' \<and> d_replayed_at d = None \<and> d_reason d = reason"
    by blast
  from keys I(7) have "distinct (map d_event_id ds)" by auto
  moreover from rows I(8) d(2) have "\<forall>d \<in> set ds. dead_ok d"
    unfolding dead_ok_def by blast
  ultimately show ?thesis
    unfolding d(1) by (rule sink_inv_dead_letters [OF assms(1)])
qed

lemma RecordDeadLetter_live:
  assumes "RecordDeadLetter pg s env dl db = (r, db')"
  shows "r \<noteq> None \<and> db' = db \<or>
    (\<exists>first reason x. dl_event_id dl \<noteq> [] \<and> upsert_dead pg (tx_now env) first reason dl db = Inr (x, db') \<and>
       reason = (if dl_reason dl = [] then ''unknown'' else dl_reason dl) \<and>
       (r = None \<or> (\<exists>e. tx_commit env = CommitLost e)))"
proof (cases "(\<exists>st. s = Some st \<and> st_pool st) \<and> dl_event_id dl \<noteq> []")
  case False
  with assms show ?thesis by (auto simp: RecordDeadLetter_def split: option.splits if_splits)
next
  case True
  let ?reason = "if dl_reason dl = [] then ''unknown'' else dl_reason dl"
  let ?first = "if dl_first_seen dl = 0 then tx_now env else dl_first_seen dl"
  obtain o' d where tx: "InTx env (\<lambda>d. Exec env 1 ''record dead letter''
      (upsert_dead pg (tx_now env) ?first ?reason dl d)) db = (o', d)" by fastforce
  with True assms have r: "db' = d" "r = (case o' of Inl e \<Rightarrow> Some e | Inr x \<Rightarrow> None)"
    by (auto simp: RecordDeadLetter_def Let_def split: sum.splits)
  from tx show ?thesis
    by (rule InTx_cases) (use True r in auto)
qed

lemma RecordDeadLetter_inv [inv_intros]:
  assumes "sink_inv db"
  shows "sink_inv (snd (RecordDeadLetter pg s env dl db))"
proof -
  obtain r db' where eq: "RecordDeadLetter pg s env dl db = (r, db')" by fastforce
  from RecordDeadLetter_live [OF eq] assms show ?thesis
    by (auto simp: eq intro: upsert_dead_inv)
qed

section \<open>Cases of Apply\<close>

text \<open>A result that says this very delivery made the event take effect.\<close>

fun fresh_result :: "sink_error + outcome \<Rightarrow> bool" where
  "fresh_result (Inr OutcomeApplied) = True"
| "fresh_result (Inr OutcomeLate) = True"
| "fresh_result r = False"

lemma fresh_result_Inr: "fresh_result r \<longleftrightarrow> (\<exists>out. r = Inr out \<and> out \<noteq> OutcomeDuplicate)"
  by (cases r rule: fresh_result.cases) auto

definition key_of_input :: "pg_lib \<Rightarrow> input \<Rightarrow> string option" where
  "key_of_input pg i = pg_uuid pg (event_id (i_envelope i))"

lemma Apply_cases:
  assumes "sink_inv db" and "Apply pg s env i db = (r, db')"
  obtains (unchanged) e where "r = Inl e" "db' = db"
  | (duplicate) u where "key_of_input pg i = Some u" "u \<in> dom (processed_events db)" "db' = db"
      "r = Inr OutcomeDuplicate \<or> (\<exists>e. tx_commit env = CommitLost e \<and> r = Inl (Bare e))"
  | (effect) u st where "key_of_input pg i = Some u" "u \<notin> dom (processed_events db)"
      "s = Some st" "st_pool st" "pg_text_ok (st_consumer_id st)" "db' = apply_effect pg (st_consumer_id st) (tx_now env) i u db"
      "r = Inr (if is_late i db then OutcomeLate else OutcomeApplied) \<or>
         (\<exists>e. tx_commit env = CommitLost e \<and> r = Inl (Bare e))"
proof -
  from Apply_live [OF assms(2)] consider
      e where "r = Inl e" "db' = db"
    | st where "s = Some st" "st_pool st" "InTx env (apply_body pg env (st_consumer_id st) i) db = (r, db')"
    by blast
  then show ?thesis
  proof cases
    case 1
    then show ?thesis by (rule unchanged)
  next
    case (2 st)
    from 2(3) show ?thesis
    proof (cases rule: InTx_cases)
      case (rolled_back e)
      then show ?thesis by (rule unchanged)
    next
      case (committed out)
      from apply_body_Inr [OF assms(1) committed(1)] obtain u where
        u: "key_of_input pg i = Some u" "pg_text_ok (st_consumer_id st)" and
        eff: "if u \<in> dom (processed_events db) then out = OutcomeDuplicate \<and> db' = db
          else db' = apply_effect pg (st_consumer_id st) (tx_now env) i u db \<and>
               position_checks (position_row_of pg u (tx_now env) i) \<and>
               out = (if is_late i db then OutcomeLate else OutcomeApplied)"
        unfolding key_of_input_def by blast
      show ?thesis
      proof (cases "u \<in> dom (processed_events db)")
        case True
        with u eff committed(2) show ?thesis by (intro duplicate) auto
      next
        case False
        with u eff committed(2) 2(1,2) show ?thesis by (intro effect) auto
      qed
    qed
  qed
qed

lemma apply_effect_processed [simp]:
  "dom (processed_events (apply_effect pg cid now i u db)) = insert u (dom (processed_events db))"
  by (simp add: apply_effect_def)

section \<open>Effectively once\<close>

text \<open>
  The contract the consumer relies on: an operation that may be met by any fault \<open>'e\<close>, applied to
  inputs that may repeat. \<open>done\<close> are the keys whose effect is in the state; a repeated key leaves
  the state alone and is not reported as fresh; a success means that the key is done.
\<close>

fun deliveries :: "('e \<Rightarrow> 'i \<Rightarrow> 's \<Rightarrow> 'r \<times> 's) \<Rightarrow> ('e \<times> 'i) list \<Rightarrow> 's \<Rightarrow> ('i \<times> 'r) list \<times> 's" where
  "deliveries f [] s = ([], s)"
| "deliveries f ((e, i) # ds) s =
     (let (r, s1) = f e i s; (rs, s2) = deliveries f ds s1 in ((i, r) # rs, s2))"

locale effectively_once =
  fixes apply_once :: "'e \<Rightarrow> 'i \<Rightarrow> 's \<Rightarrow> 'r \<times> 's"
    and key :: "'i \<Rightarrow> 'k option"
    and applied :: "'s \<Rightarrow> 'k set"
    and good :: "'s \<Rightarrow> bool"
    and fresh :: "'r \<Rightarrow> bool"
    and success :: "'r \<Rightarrow> bool"
  assumes good_keeps: "good s \<Longrightarrow> good (snd (apply_once e i s))"
    and applied_mono: "good s \<Longrightarrow> applied s \<subseteq> applied (snd (apply_once e i s))"
    and repeated: "good s \<Longrightarrow> key i = Some k \<Longrightarrow> k \<in> applied s \<Longrightarrow>
      snd (apply_once e i s) = s \<and> \<not> fresh (fst (apply_once e i s))"
    and success_applied: "good s \<Longrightarrow> success (fst (apply_once e i s)) \<Longrightarrow>
      \<exists>k. key i = Some k \<and> k \<in> applied (snd (apply_once e i s))"
    and fresh_success: "fresh r \<Longrightarrow> success r"
begin

lemma deliveries_good: "good s \<Longrightarrow> good (snd (deliveries apply_once ds s))"
proof (induction ds arbitrary: s)
  case (Cons d ds)
  obtain e i where "d = (e, i)" by fastforce
  with Cons.IH [OF good_keeps [OF Cons.prems]] show ?case
    by (simp add: case_prod_beta Let_def)
qed simp

lemma deliveries_mono: "good s \<Longrightarrow> applied s \<subseteq> applied (snd (deliveries apply_once ds s))"
proof (induction ds arbitrary: s)
  case (Cons d ds)
  obtain e i where d: "d = (e, i)" by fastforce
  have "applied s \<subseteq> applied (snd (apply_once e i s))"
    by (rule applied_mono [OF Cons.prems])
  also have "\<dots> \<subseteq> applied (snd (deliveries apply_once ds (snd (apply_once e i s))))"
    by (rule Cons.IH [OF good_keeps [OF Cons.prems]])
  finally show ?case by (simp add: d case_prod_beta Let_def)
qed simp

lemma success_recorded:
  "good s \<Longrightarrow> (i, r) \<in> set (fst (deliveries apply_once ds s)) \<Longrightarrow> success r \<Longrightarrow>
   \<exists>k. key i = Some k \<and> k \<in> applied (snd (deliveries apply_once ds s))"
proof (induction ds arbitrary: s)
  case (Cons d ds)
  obtain e j where d: "d = (e, j)" by fastforce
  let ?s1 = "snd (apply_once e j s)"
  have mono: "applied ?s1 \<subseteq> applied (snd (deliveries apply_once ds ?s1))"
    by (rule deliveries_mono [OF good_keeps [OF Cons.prems(1)]])
  from Cons.prems(2) consider "i = j" "r = fst (apply_once e j s)"
    | "(i, r) \<in> set (fst (deliveries apply_once ds ?s1))"
    by (auto simp: d case_prod_beta Let_def)
  then show ?case
  proof cases
    case 1
    with success_applied [OF Cons.prems(1), of e j] Cons.prems(3) mono show ?thesis
      by (auto simp: d case_prod_beta Let_def)
  next
    case 2
    from Cons.IH [OF good_keeps [OF Cons.prems(1)] 2 Cons.prems(3)] show ?thesis
      by (simp add: d case_prod_beta Let_def)
  qed
qed simp

lemma fresh_at_most_once:
  "good s \<Longrightarrow>
   length (filter (\<lambda>(i, r). key i = Some k \<and> fresh r) (fst (deliveries apply_once ds s)))
     \<le> (if k \<in> applied s then 0 else 1)"
proof (induction ds arbitrary: s)
  case (Cons d ds)
  obtain e i where d: "d = (e, i)" by fastforce
  let ?s1 = "snd (apply_once e i s)"
  note IH = Cons.IH [OF good_keeps [OF Cons.prems]]
  show ?case
  proof (cases "key i = Some k \<and> fresh (fst (apply_once e i s))")
    case True
    then have "k \<notin> applied s" using repeated [OF Cons.prems] by blast
    moreover have "k \<in> applied ?s1"
      using success_applied [OF Cons.prems fresh_success] True by fastforce
    ultimately show ?thesis using IH [of e i] True by (simp add: d case_prod_beta Let_def)
  next
    case False
    have "k \<in> applied s \<Longrightarrow> k \<in> applied ?s1"
      using applied_mono [OF Cons.prems] by blast
    with IH [of e i] False show ?thesis
      by (auto simp: d case_prod_beta Let_def split: if_splits)
  qed
qed simp

end

interpretation sink_once: effectively_once "Apply pg s" "key_of_input pg" "\<lambda>db. dom (processed_events db)"
  sink_inv fresh_result "\<lambda>r. \<exists>out. r = Inr out" for pg s
proof
  fix db e i k r
  show "sink_inv db \<Longrightarrow> sink_inv (snd (Apply pg s e i db))"
    by (rule Apply_inv)
  obtain r' db' where eq: "Apply pg s e i db = (r', db')" by fastforce
  show "sink_inv db \<Longrightarrow> dom (processed_events db) \<subseteq> dom (processed_events (snd (Apply pg s e i db)))"
    by (simp add: eq, erule Apply_cases [OF _ eq]) auto
  show "sink_inv db \<Longrightarrow> key_of_input pg i = Some k \<Longrightarrow> k \<in> dom (processed_events db) \<Longrightarrow>
      snd (Apply pg s e i db) = db \<and> \<not> fresh_result (fst (Apply pg s e i db))"
    by (simp add: eq, erule Apply_cases [OF _ eq]) auto
  show "sink_inv db \<Longrightarrow> \<exists>out. fst (Apply pg s e i db) = Inr out \<Longrightarrow>
      \<exists>k. key_of_input pg i = Some k \<and> k \<in> dom (processed_events (snd (Apply pg s e i db)))"
    by (simp add: eq, erule Apply_cases [OF _ eq]) auto
  show "fresh_result r \<Longrightarrow> \<exists>out. r = Inr out"
    by (auto simp: fresh_result_Inr)
qed

end
