(* ===== verification/Sample.thy ===== *)
theory Sample
  imports Event
begin

text \<open>
  One concrete instance of the library's text functions, for the witnesses: an abbreviating
  printer that is injective on the documents below, and a scanner that knows their texts. Floats
  are whole numbers, instants are written as their number of nanoseconds, and an identifier that
  starts with \<open>u\<close> is a UUID. It stands for no code of the repository.
\<close>

fun sample_text :: "node \<Rightarrow> bytes" where
  "sample_text JNull = ''n''"
| "sample_text (JBool b) = (if b then ''t'' else ''f'')"
| "sample_text (JNum s) = s"
| "sample_text (JStr s) = CHR 0x22 # take 2 s"
| "sample_text (JArr xs) = CHR ''['' # map (\<lambda>x. CHR ''x'') xs"
| "sample_text (JObj ms) = CHR ''{'' # (case ms of [] \<Rightarrow> [] | m # ms' \<Rightarrow> take 1 (fst m)) @ map (\<lambda>m. CHR ''x'') ms"

definition sample_id :: string where
  "sample_id = ''u1''"

definition sample_now :: time where
  "sample_now = 2000"

definition sample_position :: vehicle_position where
  "sample_position = \<lparr>vehicle_id = ''v1'', route_id = ''r1'', lat = Finite 12, lon = Finite 77,
     speed_kph = Some (Finite 30), bearing_deg = None, event_ts = 1000, sequence = 7\<rparr>"

definition sample_position_members :: "(string \<times> bytes) list" where
  "sample_position_members =
     [(''vehicle_id'', sample_text (JStr ''v1'')), (''route_id'', sample_text (JStr ''r1'')),
      (''lat'', ''12''), (''lon'', ''77''), (''speed_kph'', ''30''),
      (''event_ts'', sample_text (JStr ''1000'')), (''sequence'', ''7'')]"

definition sample_payload :: bytes where
  "sample_payload = sample_text (JObj sample_position_members)"

definition sample_observation :: bytes where
  "sample_observation =
     sample_text (JObj (sample_position_members @ [(''event_id'', sample_text (JStr sample_id))]))"

definition sample_envelope :: envelope where
  "sample_envelope = \<lparr>schema_version = 1, event_id = sample_id,
     event_type = ''vehicle.position'', produced_at = 2000, source = ''ingest'',
     payload = sample_payload\<rparr>"

definition sample_envelope_members :: "(string \<times> bytes) list" where
  "sample_envelope_members =
     [(''schema_version'', ''1''), (''event_id'', sample_text (JStr sample_id)),
      (''event_type'', sample_text (JStr ''vehicle.position'')),
      (''produced_at'', sample_text (JStr ''2000'')), (''source'', sample_text (JStr ''ingest'')),
      (''payload'', sample_payload)]"

definition sample_wire :: bytes where
  "sample_wire = sample_text (JObj sample_envelope_members)"

text \<open>The members of the frame of this event.\<close>

definition sample_frame_members :: "(string \<times> bytes) list" where
  "sample_frame_members =
     [(''event_id'', sample_text (JStr sample_id)), (''vehicle_id'', sample_text (JStr ''v1'')),
      (''route_id'', sample_text (JStr ''r1'')), (''lat'', ''12''), (''lon'', ''77''), (''speed_kph'', ''30''),
      (''event_ts'', sample_text (JStr ''1000'')), (''sequence'', ''7'')]"

definition sample_nodes :: "node list" where
  "sample_nodes = [JNull, JNum ''1'', JNum ''7'', JNum ''12'', JNum ''30'', JNum ''77'',
     JStr ''v1'', JStr ''r1'', JStr ''1000'', JStr ''2000'', JStr ''ingest'',
     JStr ''vehicle.position'', JStr sample_id,
     JObj sample_position_members,
     JObj (sample_position_members @ [(''event_id'', sample_text (JStr sample_id))]),
     JObj sample_envelope_members,
     JObj sample_frame_members,
     JArr [sample_observation],
     JObj [(''events'', sample_text (JArr [sample_observation]))]]"

definition sample_scan :: "bytes \<Rightarrow> scan" where
  "sample_scan raw =
     (case find (\<lambda>n. sample_text n = raw) sample_nodes of
        Some n \<Rightarrow> Value n
      | None \<Rightarrow> if raw = [] then Incomplete else SyntaxError)"

definition sample_lib :: lib where
  "sample_lib = \<lparr>json_scan = sample_scan, json_text = sample_text, json_compact = (\<lambda>x. x),
     json_valid = (\<lambda>x. sample_scan x \<noteq> SyntaxError),
     lit_float = (\<lambda>s. map_option (\<lambda>i. Finite (of_int i)) (lit_int s)),
     float_lit = (\<lambda>r. dec_int \<lfloor>r\<rfloor>),
     time_parse = lit_int, time_text = (\<lambda>t. Some (dec_int t)),
     uuid_ok = (\<lambda>s. take 1 s = ''u'')\<rparr>"

lemmas sample_simps =
  sample_lib_def sample_scan_def sample_nodes_def sample_wire_def sample_envelope_members_def
  sample_envelope_def sample_observation_def sample_payload_def sample_position_members_def
  sample_position_def sample_now_def sample_id_def sample_frame_members_def

lemma digit_chars:
  "digit_char 0 = CHR ''0''" "digit_char 1 = CHR ''1''" "digit_char (Suc 0) = CHR ''1''"
  "digit_char 2 = CHR ''2''" "digit_char 3 = CHR ''3''" "digit_char 4 = CHR ''4''"
  "digit_char 5 = CHR ''5''" "digit_char 6 = CHR ''6''" "digit_char 7 = CHR ''7''"
  "digit_char 8 = CHR ''8''" "digit_char 9 = CHR ''9''"
  by (simp_all add: digit_char_def char_of_eq_iff)

lemmas sample_eval =
  sample_simps Decode_def decode_doc_def decode_struct_def digit_chars dec_nat.simps dec_int_def
  envelope_names_def position_names_def observation_names_def field_of_def store_envelope_def
  store_position_def store_observation_def read_str_def read_int_def read_time_def read_float_def
  read_float_ptr_def read_uint64_def zero_envelope_def zero_position_def parse_nat_def is_digit_def
  code_of_def validateHeader_def Version_def EventTypeVehiclePosition_def faithful_def

lemma sample_Decode: "Decode sample_lib sample_wire = Inr sample_envelope"
  by (simp add: sample_eval)

lemma sample_AsVehiclePosition:
  "AsVehiclePosition sample_lib sample_envelope = Inr sample_position"
  by (simp add: sample_eval AsVehiclePosition_def Validate_def f_le_Finite_left)

lemma sample_marshal: "marshal_position sample_lib sample_position = Some sample_payload"
  by (simp add: sample_eval marshal_position_def position_members_def text_float_def
      member_float_ptr_def text_time_def text_str_def text_uint64_def)

lemma sample_Accept:
  "Accept sample_lib sample_observation ''ingest'' sample_now [] =
     Inr (sample_envelope, sample_position)"
proof -
  have "decode_doc sample_lib observation_names (store_observation sample_lib) sample_observation
      \<lparr>o_position = zero_position, o_event_id = []\<rparr> =
      Some \<lparr>o_position = sample_position, o_event_id = sample_id\<rparr>"
    by (simp add: sample_eval)
  moreover have "Validate sample_position = None"
    by (simp add: sample_position_def Validate_def)
  moreover have "Build sample_lib ''ingest'' sample_position sample_id sample_now =
      Inr sample_envelope"
    using calculation(2) sample_marshal
    by (simp add: Build_def sample_id_def sample_lib_def sample_envelope_def sample_now_def
        Version_def EventTypeVehiclePosition_def)
  ultimately show ?thesis
    by (simp add: Accept_def ValidateClock_def MaxFutureSkew_def)
      (simp add: sample_position_def sample_id_def sample_now_def sample_lib_def)
qed

lemma sample_position_codec: "position_codec sample_lib sample_position"
  by (simp add: sample_eval position_codec_def float_codec_def time_codec_def position_members_def
      text_float_def member_float_ptr_def text_time_def text_str_def text_uint64_def)

lemma sample_envelope_codec: "envelope_codec sample_lib sample_envelope"
  by (simp add: sample_eval envelope_codec_def time_codec_def envelope_members_def text_str_def
      text_int_def text_time_def raw_member_def)

end
