(* ===== verification/Sink_Props.thy ===== *)
theory Sink_Props
  imports Sink Sample
begin

text \<open>
  The properties of the sink, proved from the lemmas of \<open>Sink\<close>: effectively-once application under
  every sequence of faults, atomicity, the retry after a lost commit acknowledgement, the
  late-data rule, and convergence of current state. The witnesses run the transaction on the
  sample event.
\<close>

section \<open>A concrete database\<close>

definition sample_pg :: pg_lib where
  "sample_pg = \<lparr>pg_uuid = (\<lambda>s. if take 2 s = ''u:'' then None else if take 1 s = ''u'' then Some s else None),
     pg_real = (\<lambda>x. x)\<rparr>"

definition sample_store :: store where
  "sample_store = \<lparr>st_pool = True, st_consumer_id = ''c''\<rparr>"

definition sample_input :: input where
  "sample_input = \<lparr>i_envelope = sample_envelope, i_position = sample_position,
     i_partition = 0, i_offset = 5\<rparr>"

definition sample_db :: sink_db where
  "sample_db = apply_effect sample_pg ''c'' 5000 sample_input ''u1'' empty_db"

definition lost :: "time \<Rightarrow> tx_env" where
  "lost now = \<lparr>tx_fault = (\<lambda>i. None), tx_commit = CommitLost ConnError, tx_now = now\<rparr>"

lemma sample_key [simp]: "key_of_input sample_pg sample_input = Some ''u1''"
  by (simp add: key_of_input_def sample_pg_def sample_input_def sample_envelope_def sample_id_def)

lemma sample_text_ok: "pg_text_ok ''c''" "pg_text_ok ''v1''" "pg_text_ok ''r1''" "pg_text_ok ''vehicle.position''"
  by (simp_all add: pg_text_ok_def)

section \<open>A transaction without faults\<close>

text \<open>What Postgres refuses of an event: a uuid text, a NUL byte, a CHECK constraint.\<close>

definition storable :: "pg_lib \<Rightarrow> string \<Rightarrow> input \<Rightarrow> bool" where
  "storable pg cid i \<longleftrightarrow> key_of_input pg i \<noteq> None \<and> pg_text_ok cid \<and>
     pg_text_ok (vehicle_id (i_position i)) \<and> pg_text_ok (route_id (i_position i)) \<and>
     pg_text_ok (event_type (i_envelope i)) \<and>
     pg_between (- 90) 90 (lat (i_position i)) \<and> pg_between (- 180) 180 (lon (i_position i)) \<and>
     pg_nonneg (map_option (pg_real pg) (speed_kph (i_position i)))"

lemma calm_Exec [simp]:
  "Exec (calm now) n stage (Inr x) = Inr x" "Exec (calm now) n stage (Inl e) = Inl (Wrapped stage e)"
  by (simp_all add: Exec_def calm_def)

lemma calm_sel [simp]: "tx_now (calm now) = now"
  by (simp add: calm_def)

lemma Apply_calm:
  assumes inv: "sink_inv db" and ok: "storable pg (st_consumer_id st) i" and pool: "st_pool st"
    and u: "key_of_input pg i = Some u"
  shows "Apply pg (Some st) (calm now) i db =
    (if u \<in> dom (processed_events db) then (Inr OutcomeDuplicate, db)
     else (Inr (if is_late i db then OutcomeLate else OutcomeApplied),
           apply_effect pg (st_consumer_id st) now i u db))"
proof -
  let ?body = "apply_body pg (calm now) (st_consumer_id st) i db"
  have "\<exists>out db'. ?body = Inr (out, db')"
    using ok u sink_invD(2) [OF inv]
    by (auto simp: apply_body_def insert_processed_def insert_position_def upsert_current_def
        upsert_version_def storable_def position_checks_def position_row_of_def key_of_input_def
        Let_def split: option.splits)
  then obtain out db' where body: "?body = Inr (out, db')" by blast
  moreover have "Apply pg (Some st) (calm now) i db = (Inr out, db')"
    using body pool by (simp add: Apply_def InTx_def calm_def)
  ultimately show ?thesis
    using apply_body_Inr [OF inv body] u by (auto simp: key_of_input_def)
qed

lemma sample_storable: "storable sample_pg ''c'' sample_input"
  by (simp add: storable_def sample_text_ok sample_input_def sample_envelope_def sample_position_def
      pg_between_def pg_nonneg_def sample_pg_def f_le_Finite_left key_of_input_def sample_id_def)

lemma sample_Apply: "Apply sample_pg (Some sample_store) (calm 5000) sample_input empty_db =
    (Inr OutcomeApplied, sample_db)"
  using Apply_calm [OF sink_inv_empty, of sample_pg sample_store sample_input "''u1''" 5000]
    sample_storable
  by (simp add: sample_store_def sample_db_def empty_db_def is_late_def latest_row_def)

lemma sample_db_inv: "sink_inv sample_db"
  using Apply_inv [OF sink_inv_empty, of sample_pg "Some sample_store" "calm 5000" sample_input]
  by (simp add: sample_Apply)

lemma sample_db_u1: "''u1'' \<in> dom (processed_events sample_db)"
  by (simp add: sample_db_def)

lemma sample_db_new: "sample_db \<noteq> empty_db"
  using sample_db_u1 by (metis domIff empty_db_def sink_db.select_convs(1))

lemma sample_duplicate: "Apply sample_pg (Some sample_store) (calm now) sample_input sample_db =
    (Inr OutcomeDuplicate, sample_db)"
  using Apply_calm [OF sample_db_inv, of sample_pg sample_store sample_input "''u1''" now]
    sample_storable sample_db_u1
  by (simp add: sample_store_def)

lemma lost_calm: "Exec (lost now) = Exec (calm now)" "tx_now (lost now) = tx_now (calm now)"
  by (simp_all add: fun_eq_iff Exec_def lost_def calm_def)

lemma sample_lost: "Apply sample_pg (Some sample_store) (lost 5000) sample_input empty_db =
    (Inl (Bare ConnError), sample_db)"
proof -
  have "apply_body sample_pg (lost 5000) ''c'' sample_input empty_db =
      apply_body sample_pg (calm 5000) ''c'' sample_input empty_db"
    by (simp only: apply_body_def lost_calm)
  with sample_Apply show ?thesis
    by (auto simp: Apply_def InTx_def lost_def calm_def sample_store_def
        split: sum.splits prod.splits)
qed

lemma deliveries_inv: "snd (deliveries (Apply pg s) ds empty_db) = db \<Longrightarrow> sink_inv db"
  using sink_once.deliveries_good [OF sink_inv_empty] by blast

lemma current_newest:
  assumes "sink_inv db"
  shows "vehicle_current db v = None \<longleftrightarrow> v \<notin> r_vehicle_id ` set (vehicle_positions db)"
    and "vehicle_current db v = Some c \<Longrightarrow>
      \<exists>r \<in> set (vehicle_positions db). r_vehicle_id r = v \<and> c = current_of_row r \<and>
         (\<forall>r' \<in> set (vehicle_positions db). r_vehicle_id r' = v \<longrightarrow> r_event_ts r' \<le> r_event_ts r)"
  using sink_invD(4) [OF assms]
  by (auto simp: current_view_def latest_row_None_iff dest: latest_row_SomeD)

section \<open>Properties\<close>

text \<open>
  C3. Effectively once: whatever deliveries of whatever events reach \<open>Apply\<close>, in any order, with
  any repetition and any fault of the connection or of the commit at each of them, an event id has
  at most one history row, at most one delivery of it reports that it took effect, and every
  delivery that reports success leaves the event recorded.
\<close>

theorem Apply_effectively_once:
  assumes "deliveries (Apply pg s) ds empty_db = (rs, db)"
  shows "distinct (map r_event_id (vehicle_positions db)) \<and>
    length (filter (\<lambda>(i, r). key_of_input pg i = Some u \<and> fresh_result r) rs) \<le> 1 \<and>
    (\<forall>i out. (i, Inr out) \<in> set rs \<longrightarrow>
       (\<exists>k. key_of_input pg i = Some k \<and> k \<in> r_event_id ` set (vehicle_positions db)))"
proof (intro conjI allI impI)
  note rs = arg_cong [OF assms, of fst, simplified, symmetric]
    and db = arg_cong [OF assms, of snd, simplified, symmetric]
  have inv: "sink_inv db"
    unfolding db by (rule sink_once.deliveries_good [OF sink_inv_empty])
  then show "distinct (map r_event_id (vehicle_positions db))" by (rule sink_invD)
  show "length (filter (\<lambda>(i, r). key_of_input pg i = Some u \<and> fresh_result r) rs) \<le> 1"
    using sink_once.fresh_at_most_once [OF sink_inv_empty, of pg u s ds] rs
    by (simp add: empty_db_def)
  fix i out
  assume "(i, Inr out) \<in> set rs"
  then show "\<exists>k. key_of_input pg i = Some k \<and> k \<in> r_event_id ` set (vehicle_positions db)"
    using sink_once.success_recorded [OF sink_inv_empty, of i "Inr out" pg s ds]
      sink_invD(2) [OF inv] by (simp add: rs db)
qed

theorem Apply_effectively_once_witness:
  "deliveries (Apply sample_pg (Some sample_store))
      [(lost 5000, sample_input), (calm 6000, sample_input)] empty_db =
     ([(sample_input, Inl (Bare ConnError)), (sample_input, Inr OutcomeDuplicate)], sample_db) \<and>
   distinct (map r_event_id (vehicle_positions sample_db)) \<and>
   ''u1'' \<in> r_event_id ` set (vehicle_positions sample_db)"
proof -
  have d: "deliveries (Apply sample_pg (Some sample_store))
      [(lost 5000, sample_input), (calm 6000, sample_input)] empty_db =
     ([(sample_input, Inl (Bare ConnError)), (sample_input, Inr OutcomeDuplicate)], sample_db)"
    by (simp add: sample_lost sample_duplicate)
  from d Apply_effectively_once [OF d] show ?thesis
    by (metis list.set_intros(1,2) option.inject sample_key)
qed

text \<open>
  C7. Atomicity: one call of \<open>Apply\<close> leaves the tables as they were or makes the whole effect of the
  event visible: deduplication row, history row, current state and version counter together. It
  changes the tables without reporting the event as applied only when the acknowledgement of the
  commit was lost.
\<close>

theorem Apply_atomic:
  assumes "sink_inv db" and "Apply pg s env i db = (r, db')"
  shows "db' = db \<and> \<not> fresh_result r \<or>
    (\<exists>u st. key_of_input pg i = Some u \<and> u \<notin> dom (processed_events db) \<and> s = Some st \<and>
       db' = apply_effect pg (st_consumer_id st) (tx_now env) i u db \<and>
       (r = Inr (if is_late i db then OutcomeLate else OutcomeApplied) \<or>
        (\<exists>e. tx_commit env = CommitLost e \<and> r = Inl (Bare e))))"
  using assms(1) by (cases rule: Apply_cases [OF _ assms(2)]) auto

theorem Apply_atomic_witness:
  "sample_db = apply_effect sample_pg ''c'' 5000 sample_input ''u1'' empty_db \<and> sample_db \<noteq> empty_db"
  using Apply_atomic [OF sink_inv_empty sample_Apply] sample_db_new
  by (auto simp: sample_store_def)

text \<open>
  A retry after an unknown commit: when \<open>Apply\<close> failed although its effect is in the tables, the
  next fault-free delivery of the same event reports a duplicate and changes nothing.
\<close>

lemma Apply_retry_after_lost_commit:
  assumes "sink_inv db" and "Apply pg s env i db = (Inl e, db')" and "db' \<noteq> db"
  shows "Apply pg s (calm now) i db' = (Inr OutcomeDuplicate, db')"
  using assms(1,2)
proof (cases rule: Apply_cases)
  case (effect u st)
  then have "u \<in> dom (processed_events db')" by simp
  with effect(1,5) have "insert_processed pg (st_consumer_id st) now i db' = Inr (0, db')"
    unfolding insert_processed_Inr key_of_input_def domIff by simp
  then have "apply_body pg (calm now) (st_consumer_id st) i db' = Inr (OutcomeDuplicate, db')"
    by (simp add: apply_body_def)
  with effect show ?thesis by (simp add: Apply_def InTx_def calm_def)
qed (use assms(3) in auto)

text \<open>
  C8. The late-data rule: no call of \<open>Apply\<close> moves a vehicle's current state back in event time or
  removes it, and an event that is not newer than current state is kept in the history while
  current state stays as it was.
\<close>

theorem Apply_never_rewinds:
  assumes "sink_inv db" and "Apply pg s env i db = (r, db')"
    and "vehicle_current db v = Some c"
  shows "\<exists>c'. vehicle_current db' v = Some c' \<and>
    (c' = c \<or> c_last_event_ts c < c_last_event_ts c') \<and>
    (r = Inr OutcomeLate \<longrightarrow> c' = c \<and> length (vehicle_positions db') = length (vehicle_positions db) + 1)"
  using assms(1,2)
proof (cases rule: Apply_cases)
  case (effect u st)
  let ?row = "position_row_of pg u (tx_now env) i" and ?rows = "vehicle_positions db"
  have cur: "current_view ?rows v = Some c"
    using assms(3) sink_invD(4) [OF assms(1)] by simp
  then obtain a where a: "latest_row ?rows v = Some a" "c = current_of_row a"
    by (auto simp: current_view_def)
  have db': "vehicle_current db' v = current_view (?rows @ [?row]) v"
      "vehicle_positions db' = ?rows @ [?row]"
    by (simp_all add: effect apply_effect_def)
  have ts: "c_last_event_ts (current_of_row x) = r_event_ts x" for x
    by (simp add: current_of_row_def)
  show ?thesis
  proof (cases "vehicle_id (i_position i) = v")
    case True
    show ?thesis
    proof (cases "r_event_ts a < usec (event_ts (i_position i))")
      case newer: True
      with True a effect(7) show ?thesis
        by (auto simp: db' current_view_def latest_row_snoc newer_def is_late_def ts)
    next
      case False
      with True a show ?thesis
        by (simp add: db' current_view_def latest_row_snoc newer_def)
    qed
  next
    case False
    then show ?thesis
      using a by (simp add: db' current_view_def latest_row_snoc)
  qed
qed (use assms(3) in auto)

definition older_input :: input where
  "older_input = sample_input\<lparr>i_envelope := sample_envelope\<lparr>event_id := ''u2''\<rparr>\<rparr>"

lemma sample_late: "Apply sample_pg (Some sample_store) (calm 9000) older_input sample_db =
    (Inr OutcomeLate, apply_effect sample_pg ''c'' 9000 older_input ''u2'' sample_db)"
proof -
  have "key_of_input sample_pg older_input = Some ''u2''" "storable sample_pg ''c'' older_input"
    using sample_storable by (auto simp: key_of_input_def sample_pg_def older_input_def
        storable_def sample_input_def)
  moreover have "is_late older_input sample_db" "''u2'' \<notin> dom (processed_events sample_db)"
    by (simp_all add: is_late_def sample_db_def apply_effect_def latest_row_def newer_def
        older_input_def sample_input_def empty_db_def)
  ultimately show ?thesis
    using Apply_calm [OF sample_db_inv, of sample_pg sample_store older_input "''u2''" 9000]
    by (simp add: sample_store_def)
qed

theorem Apply_never_rewinds_witness:
  "\<exists>c db'. Apply sample_pg (Some sample_store) (calm 9000) older_input sample_db = (Inr OutcomeLate, db') \<and>
     vehicle_current sample_db ''v1'' = Some c \<and> vehicle_current db' ''v1'' = Some c"
proof -
  obtain c where c: "vehicle_current sample_db ''v1'' = Some c"
    by (auto simp: sample_db_def apply_effect_def current_view_def latest_row_def newer_def
        sample_input_def sample_position_def empty_db_def)
  from Apply_never_rewinds [OF sample_db_inv sample_late c] sample_late c show ?thesis
    by auto
qed

text \<open>
  C9. Current state is the history's newest report: after any sequence of deliveries a vehicle has a
  current state exactly when the history has a row of it, and then it shows, field by field, a row
  of the history none of whose vehicle's rows is newer (the drift view of the schema is empty).
\<close>

theorem current_is_newest_report:
  assumes "snd (deliveries (Apply pg s) ds empty_db) = db"
  shows "(vehicle_current db v = None \<longleftrightarrow> v \<notin> r_vehicle_id ` set (vehicle_positions db)) \<and>
    (\<forall>c. vehicle_current db v = Some c \<longrightarrow>
      (\<exists>r \<in> set (vehicle_positions db). r_vehicle_id r = v \<and> c = current_of_row r \<and>
         (\<forall>r' \<in> set (vehicle_positions db). r_vehicle_id r' = v \<longrightarrow> r_event_ts r' \<le> r_event_ts r)))"
  using current_newest [OF deliveries_inv [OF assms], of v] by simp

theorem current_is_newest_report_witness:
  "\<exists>c. vehicle_current sample_db ''v1'' = Some c \<and> c_lat c = Finite 12 \<and> c_last_event_ts c = 1"
proof -
  have "snd (deliveries (Apply sample_pg (Some sample_store)) [(calm 5000, sample_input)] empty_db) = sample_db"
    by (simp add: sample_Apply)
  from current_is_newest_report [OF this, of "''v1''"] show ?thesis
    by (auto simp: sample_db_def apply_effect_def empty_db_def sample_input_def sample_position_def
        current_of_row_def position_row_of_def usec_def current_view_def latest_row_def newer_def Let_def)
qed

definition report :: "position_row \<Rightarrow>
    (string \<times> string \<times> string) \<times> (float64 \<times> float64) \<times> (float64 option \<times> float64 option) \<times> int" where
  "report r = ((r_event_id r, r_vehicle_id r, r_route_id r), (r_lat r, r_lon r),
     (r_speed_kph r, r_bearing_deg r), r_event_ts r)"

definition shown :: "current_row option \<Rightarrow> current_row option" where
  "shown c = map_option (\<lambda>x. x\<lparr>c_updated_at := 0\<rparr>) c"

lemma report_shown: "report r = report r' \<Longrightarrow> shown (Some (current_of_row r)) = shown (Some (current_of_row r'))"
  by (simp add: report_def shown_def current_of_row_def)

text \<open>
  C10. Convergence: two consumers that received the same reports, in different orders, with different
  repetitions and different faults, agree on the current state of every vehicle (up to the time
  the row was written), provided no two reports of one vehicle carry the same event time.
\<close>

theorem current_state_converges:
  assumes d1: "snd (deliveries (Apply pg s1) ds1 empty_db) = db1"
    and d2: "snd (deliveries (Apply pg s2) ds2 empty_db) = db2"
    and same: "report ` set (vehicle_positions db1) = report ` set (vehicle_positions db2)"
    and ties: "\<forall>r \<in> set (vehicle_positions db1). \<forall>r' \<in> set (vehicle_positions db1).
      r_vehicle_id r = r_vehicle_id r' \<and> r_event_ts r = r_event_ts r' \<longrightarrow> r = r'"
  shows "shown (vehicle_current db1 v) = shown (vehicle_current db2 v)"
proof -
  let ?R1 = "set (vehicle_positions db1)" and ?R2 = "set (vehicle_positions db2)"
  note n1 = current_newest [OF deliveries_inv [OF d1], of v]
    and n2 = current_newest [OF deliveries_inv [OF d2], of v]
  have to1: "\<exists>r' \<in> ?R1. report r' = report r" if "r \<in> ?R2" for r
  proof -
    have "report r \<in> report ` ?R1"
      unfolding same using that by (rule imageI)
    then obtain r' where "report r = report r'" "r' \<in> ?R1" by (rule imageE)
    then show ?thesis by (intro bexI [of _ r']) simp_all
  qed
  have to2: "\<exists>r' \<in> ?R2. report r' = report r" if "r \<in> ?R1" for r
  proof -
    have "report r \<in> report ` ?R2"
      unfolding same [symmetric] using that by (rule imageI)
    then obtain r' where "report r = report r'" "r' \<in> ?R2" by (rule imageE)
    then show ?thesis by (intro bexI [of _ r']) simp_all
  qed
  have veh: "r_vehicle_id r = r_vehicle_id r' \<and> r_event_ts r = r_event_ts r'"
    if "report r = report r'" for r r'
    using that by (simp add: report_def)
  show ?thesis
  proof (cases "vehicle_current db1 v")
    case None
    then have "\<forall>r \<in> ?R1. r_vehicle_id r \<noteq> v" using n1(1) by auto
    then have "v \<notin> r_vehicle_id ` ?R2"
    proof -
      have False if "r \<in> ?R2" "r_vehicle_id r = v" for r
      proof -
        from to1 [OF that(1)] obtain r' where "r' \<in> ?R1" "report r' = report r" by blast
        with veh [of r' r] that(2) \<open>\<forall>r \<in> ?R1. r_vehicle_id r \<noteq> v\<close> show False by simp
      qed
      then show ?thesis by blast
    qed
    with None n2(1) show ?thesis by simp
  next
    case (Some c1)
    then obtain r1 where r1: "r1 \<in> ?R1" "r_vehicle_id r1 = v" "c1 = current_of_row r1"
      "\<forall>r' \<in> ?R1. r_vehicle_id r' = v \<longrightarrow> r_event_ts r' \<le> r_event_ts r1"
      using n1(2) by blast
    obtain r1' where r1': "r1' \<in> ?R2" "report r1' = report r1" using to2 [OF r1(1)] by blast
    then have "v \<in> r_vehicle_id ` ?R2"
      using r1(2) veh [OF r1'(2)] by (intro image_eqI [of _ _ r1']) simp_all
    then obtain c2 where c2: "vehicle_current db2 v = Some c2" using n2(1) by fastforce
    then obtain r2 where r2: "r2 \<in> ?R2" "r_vehicle_id r2 = v" "c2 = current_of_row r2"
      "\<forall>r' \<in> ?R2. r_vehicle_id r' = v \<longrightarrow> r_event_ts r' \<le> r_event_ts r2"
      using n2(2) by blast
    obtain r2' where r2': "r2' \<in> ?R1" "report r2' = report r2" using to1 [OF r2(1)] by blast
    note v1 = veh [OF r1'(2)] and v2 = veh [OF r2'(2)]
    have "r_event_ts r2' \<le> r_event_ts r1" "r_event_ts r1' \<le> r_event_ts r2"
      using bspec [OF r1(4) r2'(1)] bspec [OF r2(4) r1'(1)] r1(2) r2(2) v1 v2 by simp_all
    with v1 v2 r1(2) r2(2) have "r_vehicle_id r1 = r_vehicle_id r2' \<and> r_event_ts r1 = r_event_ts r2'"
      by simp
    then have "r1 = r2'" using ties r1(1) r2'(1) by blast
    with r2'(2) have "report r1 = report r2" by simp
    from report_shown [OF this] show ?thesis
      unfolding Some c2 r1(3) r2(3) .
  qed
qed

definition newer_input :: input where
  "newer_input = \<lparr>i_envelope = sample_envelope\<lparr>event_id := ''u3''\<rparr>,
     i_position = sample_position\<lparr>event_ts := 9000\<rparr>, i_partition = 0, i_offset = 6\<rparr>"

lemma newer_storable: "storable sample_pg ''c'' newer_input" "key_of_input sample_pg newer_input = Some ''u3''"
  using sample_storable
  by (auto simp: key_of_input_def sample_pg_def newer_input_def storable_def sample_input_def)

lemma sample_orders:
  "deliveries (Apply sample_pg (Some sample_store)) [(calm 5000, sample_input), (calm 6000, newer_input)] empty_db =
     ([(sample_input, Inr OutcomeApplied), (newer_input, Inr OutcomeApplied)],
      apply_effect sample_pg ''c'' 6000 newer_input ''u3'' sample_db)"
  "deliveries (Apply sample_pg (Some sample_store)) [(calm 7000, newer_input), (calm 8000, sample_input)] empty_db =
     ([(newer_input, Inr OutcomeApplied), (sample_input, Inr OutcomeLate)],
      apply_effect sample_pg ''c'' 8000 sample_input ''u1''
        (apply_effect sample_pg ''c'' 7000 newer_input ''u3'' empty_db))"
proof -
  have "\<not> is_late newer_input sample_db" "''u3'' \<notin> dom (processed_events sample_db)"
    by (simp_all add: is_late_def sample_db_def apply_effect_def latest_row_def newer_def usec_def
        newer_input_def sample_input_def sample_position_def empty_db_def)
  then have "Apply sample_pg (Some sample_store) (calm 6000) newer_input sample_db =
      (Inr OutcomeApplied, apply_effect sample_pg ''c'' 6000 newer_input ''u3'' sample_db)"
    using Apply_calm [OF sample_db_inv, of sample_pg sample_store newer_input "''u3''" 6000]
      newer_storable by (simp add: sample_store_def)
  then show "deliveries (Apply sample_pg (Some sample_store))
      [(calm 5000, sample_input), (calm 6000, newer_input)] empty_db =
     ([(sample_input, Inr OutcomeApplied), (newer_input, Inr OutcomeApplied)],
      apply_effect sample_pg ''c'' 6000 newer_input ''u3'' sample_db)"
    by (simp add: sample_Apply)
  let ?db = "apply_effect sample_pg ''c'' 7000 newer_input ''u3'' empty_db"
  have 1: "Apply sample_pg (Some sample_store) (calm 7000) newer_input empty_db = (Inr OutcomeApplied, ?db)"
    using Apply_calm [OF sink_inv_empty, of sample_pg sample_store newer_input "''u3''" 7000]
      newer_storable by (simp add: sample_store_def empty_db_def is_late_def latest_row_def)
  have "sink_inv ?db"
    using Apply_inv [OF sink_inv_empty, of sample_pg "Some sample_store" "calm 7000" newer_input] 1 by simp
  moreover have "is_late sample_input ?db" "''u1'' \<notin> dom (processed_events ?db)"
    by (simp_all add: is_late_def apply_effect_def latest_row_def newer_def usec_def
        newer_input_def sample_input_def sample_position_def empty_db_def)
  ultimately have "Apply sample_pg (Some sample_store) (calm 8000) sample_input ?db =
      (Inr OutcomeLate, apply_effect sample_pg ''c'' 8000 sample_input ''u1'' ?db)"
    using Apply_calm [of ?db sample_pg sample_store sample_input "''u1''" 8000] sample_storable
    by (simp add: sample_store_def)
  with 1 show "deliveries (Apply sample_pg (Some sample_store))
      [(calm 7000, newer_input), (calm 8000, sample_input)] empty_db =
     ([(newer_input, Inr OutcomeApplied), (sample_input, Inr OutcomeLate)],
      apply_effect sample_pg ''c'' 8000 sample_input ''u1'' ?db)"
    by simp
qed

theorem current_state_converges_witness:
  "shown (vehicle_current (snd (deliveries (Apply sample_pg (Some sample_store))
       [(calm 5000, sample_input), (calm 6000, newer_input)] empty_db)) ''v1'') =
   shown (vehicle_current (snd (deliveries (Apply sample_pg (Some sample_store))
       [(calm 7000, newer_input), (calm 8000, sample_input)] empty_db)) ''v1'')"
  unfolding sample_orders snd_conv
  by (rule current_state_converges [OF arg_cong [OF sample_orders(1), of snd, unfolded snd_conv]
        arg_cong [OF sample_orders(2), of snd, unfolded snd_conv]])
    (auto simp: sample_db_def apply_effect_def empty_db_def report_def
      position_row_of_def Let_def usec_def newer_input_def sample_input_def sample_position_def)

end
