(* ===== verification/Event_Props.thy ===== *)
theory Event_Props
  imports Sink_Props
begin

text \<open>
  The properties of the event model: what ingest accepts is what the consumer reads back, what an
  accepted event guarantees to the tables behind it, and the refusal of unknown fields.
\<close>

lemma Accept_header:
  assumes "Accept l raw src now fresh = Inr (env, pos)"
  shows "schema_version env = Version" "event_type env = EventTypeVehiclePosition"
    "produced_at env = now" "source env = src" "event_id env \<noteq> []" "uuid_ok l (event_id env)"
    "marshal_position l pos = Some (payload env)" "Validate pos = None"
    "event_ts pos \<le> now + MaxFutureSkew"
  using Accept_InrD [OF assms] Build_InrD by fastforce+

text \<open>
  C14. The two ends agree: the envelope ingest builds for an observation it accepts is published as
  bytes from which the consumer decodes the same envelope and the same position, for every text
  library that reads back what it writes of these values.
\<close>

theorem accepted_event_is_read_back:
  assumes acc: "Accept l raw src now fresh = Inr (env, pos)" and now: "now \<noteq> 0"
    and pc: "position_codec l pos" and ec: "envelope_codec l env"
    and empty: "json_scan l [] = Incomplete"
  shows "\<exists>wire. Marshal l env = Inr wire \<and> Decode l wire = Inr env \<and>
    IsKnownEventType env \<and> AsVehiclePosition l env = Inr pos"
proof -
  note H = Accept_header [OF acc]
  from position_roundtrip [OF pc] H(7)
  have dec: "decode_doc l position_names (store_position l) (payload env) zero_position = Some pos"
    by simp
  have "payload env \<noteq> []"
  proof
    assume "payload env = []"
    with dec empty show False by (simp add: decode_doc_def)
  qed
  then have "validateHeader l env = None"
    using H now by (simp add: validateHeader_def Version_def EventTypeVehiclePosition_def)
  from envelope_roundtrip [OF ec this] H dec show ?thesis
    by (auto simp: IsKnownEventType_def AsVehiclePosition_def)
qed

theorem accepted_event_is_read_back_witness:
  "\<exists>wire. Marshal sample_lib sample_envelope = Inr wire \<and> Decode sample_lib wire = Inr sample_envelope \<and>
     AsVehiclePosition sample_lib sample_envelope = Inr sample_position"
proof -
  have "sample_now \<noteq> 0" "json_scan sample_lib [] = Incomplete"
    by (simp_all add: sample_simps)
  from accepted_event_is_read_back [OF sample_Accept this(1) sample_position_codec sample_envelope_codec this(2)]
  show ?thesis by blast
qed

text \<open>
  An accepted event satisfies the constraints of the tables: identifiers are present, its
  coordinates are finite and in range, a speed is not negative, a bearing is in [0, 360), and its
  time is at most five minutes ahead of the clock. So no CHECK constraint can refuse it, given
  that the conversion to \<open>real\<close> keeps the sign.
\<close>

lemma accepted_event_is_in_range:
  assumes acc: "Accept l raw src now fresh = Inr (env, pos)"
    and real: "\<And>r. 0 \<le> r \<Longrightarrow> pg_nonneg (Some (pg_real pg (Finite r)))"
  shows "vehicle_id pos \<noteq> [] \<and> route_id pos \<noteq> [] \<and> event_id env \<noteq> [] \<and>
    event_ts pos \<noteq> 0 \<and> event_ts pos \<le> now + 300 * 10 ^ 9 \<and>
    (\<forall>b. bearing_deg pos = Some b \<longrightarrow> (\<exists>r. b = Finite r \<and> 0 \<le> r \<and> r < 360)) \<and>
    position_checks (position_row_of pg u t \<lparr>i_envelope = env, i_position = pos, i_partition = p, i_offset = o'\<rparr>)"
proof -
  note H = Accept_header [OF acc] and V = Validate_NoneD [OF Accept_header(8) [OF acc]]
    and F = marshal_position_finite [OF Accept_header(7) [OF acc]]
  obtain a b where ab: "lat pos = Finite a" "lon pos = Finite b"
    using F(1,2) by (cases "lat pos"; cases "lon pos") auto
  have "pg_between (- 90) 90 (lat pos)" "pg_between (- 180) 180 (lon pos)"
    using Validate_Finite_bounds [OF H(8) ab] by (simp_all add: ab pg_between_def)
  moreover have "pg_nonneg (map_option (pg_real pg) (speed_kph pos))"
  proof (cases "speed_kph pos")
    case None
    then show ?thesis by (simp add: pg_nonneg_def)
  next
    case (Some s)
    from F(3) [OF Some] obtain r where r: "s = Finite r" by (cases s) auto
    with V(8) [OF Some] have "0 \<le> r" by (simp add: not_less)
    with r Some real show ?thesis by simp
  qed
  moreover have "\<exists>r. b = Finite r \<and> 0 \<le> r \<and> r < 360" if b: "bearing_deg pos = Some b" for b
  proof -
    from F(4) [OF b] obtain r where r: "b = Finite r" by (cases b) auto
    with V(9) [OF b] show ?thesis by (auto simp: f_le_Finite_left not_less not_le)
  qed
  ultimately show ?thesis
    using V(1-3) H(5,9) by (auto simp: position_checks_def position_row_of_def Let_def MaxFutureSkew_def)
qed

text \<open>
  Unknown fields are refused at both ends: a submission or a log record whose JSON object has
  a member that no field of the struct matches (exactly or by case folding) is not accepted,
  whatever its other members are.
\<close>

lemma unknown_field_refused:
  assumes "json_scan l raw = Value (JObj ms)" and "(k, x) \<in> set ms"
  shows "(field_of observation_names k = None \<longrightarrow>
      Accept l raw src now fresh = Inl (ValidationError [] NotAnObservation)) \<and>
    (field_of envelope_names k = None \<longrightarrow> Decode l raw = Inl MalformedJSON)"
  using Accept_unknown_member [OF assms] Decode_unknown_member [OF assms] by blast

text \<open>
  The identity of an event: a submission that names its event id keeps it verbatim in the
  envelope, so a retransmission carries the same key; one that names none gets the freshly minted
  id. Nothing else of the envelope depends on the choice.
\<close>

lemma event_id_preserved:
  assumes "Accept l raw src now fresh = Inr (env, pos)"
    and "decode_doc l observation_names (store_observation l) raw
           \<lparr>o_position = zero_position, o_event_id = []\<rparr> = Some obs"
  shows "event_id env = (if o_event_id obs = [] then fresh else o_event_id obs) \<and> pos = o_position obs \<and>
    (o_event_id obs \<noteq> [] \<longrightarrow> Accept l raw src now fresh' = Inr (env, pos))"
  using assms
  by (auto simp: Accept_def dest!: Build_InrD(4) split: option.splits if_splits sum.splits event_error.splits)

end
