(* ===== verification/Broker.thy ===== *)
theory Broker
  imports Prelude
begin

text \<open>
  The wrapper around the Kafka client, \<open>internal/platform/broker\<close>: publishing with headers in a
  fixed order, the failure of a batch, and the creation of topics.

  franz-go is outside the sources. A topic log is the list of records it holds; what becomes of
  record \<open>i\<close> of one \<open>ProduceSync\<close> is \<open>ack i\<close>: acknowledged, refused, or appended with the
  acknowledgement lost. A Go map of headers is an association list read with \<open>map_of\<close>.
\<close>

section \<open>Producing\<close>

record brecord =
  b_key :: string
  b_value :: bytes
  b_headers :: "(string \<times> string) list"

record wire_record =
  k_topic :: string
  k_key :: bytes
  k_value :: bytes
  k_headers :: "(string \<times> bytes) list"

datatype rec_ack = Acked | Refused string | AckLost string

datatype broker_error =
    NilProducer
  | NilClient
  | NoTopic
  | NotAcknowledged nat nat string
  | NoSeedBrokers
  | CreateClientFailed
  | PingFailed
  | ListTopicsFailed
  | CreateTopicFailed string
  | DescribeFailed
  | DescribeTopicFailed string

definition header_list :: "(string \<times> string) list \<Rightarrow> (string \<times> bytes) list" where
  "header_list hs = map (\<lambda>k. (k, the (map_of hs k))) (sort (remdups (map fst hs)))"

definition wire_of :: "string \<Rightarrow> brecord \<Rightarrow> wire_record" where
  "wire_of topic r =
     \<lparr>k_topic = topic, k_key = b_key r, k_value = b_value r,
      k_headers = (if length (b_headers r) > 0 then header_list (b_headers r) else [])\<rparr>"

definition ack_error :: "rec_ack \<Rightarrow> string option" where
  "ack_error a = (case a of Acked \<Rightarrow> None | Refused e \<Rightarrow> Some e | AckLost e \<Rightarrow> Some e)"

fun lands :: "rec_ack \<Rightarrow> bool" where
  "lands (Refused e) = False"
| "lands a = True"

text \<open>\<open>ProduceSync\<close>: the result of each record, and the log afterwards.\<close>

definition produce_sync ::
  "(nat \<Rightarrow> rec_ack) \<Rightarrow> wire_record list \<Rightarrow> wire_record list \<Rightarrow> string option list \<times> wire_record list" where
  "produce_sync ack krs lg =
     (map (\<lambda>i. ack_error (ack i)) [0..<length krs],
      lg @ map ((!) krs) (filter (\<lambda>i. lands (ack i)) [0..<length krs]))"

definition Produce ::
  "bool \<Rightarrow> (nat \<Rightarrow> rec_ack) \<Rightarrow> string \<Rightarrow> brecord list \<Rightarrow> wire_record list \<Rightarrow>
     broker_error option \<times> wire_record list" where
  "Produce p ack topic recs lg =
     (if \<not> p then (Some NilProducer, lg)
      else if length recs = 0 then (None, lg)
      else if topic = [] then (Some NoTopic, lg)
      else
        let (results, lg') = produce_sync ack (map (wire_of topic) recs) lg in
        (case filter (\<lambda>e. e \<noteq> None) results of
           [] \<Rightarrow> (None, lg')
         | e # es \<Rightarrow> (Some (NotAcknowledged (length (e # es)) (length recs) (the e)), lg')))"

section \<open>The client\<close>

text \<open>\<open>created\<close> and \<open>pinged\<close> are the answers of \<open>kgo.NewClient\<close> and of the ping.\<close>

definition NewClient :: "string list \<Rightarrow> string \<Rightarrow> bool \<Rightarrow> bool \<Rightarrow> broker_error + string" where
  "NewClient seedBrokers clientID created pinged =
     (if length seedBrokers = 0 then Inl NoSeedBrokers
      else
        let cid = (if clientID = [] then ''event-stream-platform'' else clientID) in
        if \<not> created then Inl CreateClientFailed
        else if \<not> pinged then Inl PingFailed
        else Inr cid)"

definition NewProducer :: "string list \<Rightarrow> string \<Rightarrow> bool \<Rightarrow> bool \<Rightarrow> broker_error + string" where
  "NewProducer seedBrokers clientID created pinged =
     (case NewClient seedBrokers clientID created pinged of Inl e \<Rightarrow> Inl e | Inr cl \<Rightarrow> Inr cl)"

definition Ping :: "bool \<Rightarrow> bool \<Rightarrow> broker_error option" where
  "Ping cl pinged = (if \<not> cl then Some NilClient else if \<not> pinged then Some PingFailed else None)"

definition ProducerPing :: "bool \<Rightarrow> bool \<Rightarrow> broker_error option" where
  "ProducerPing p pinged = (if \<not> p then Some NilProducer else Ping p pinged)"

section \<open>Topics\<close>

record topic_spec =
  t_name :: string
  t_partitions :: int
  t_retention :: duration

text \<open>The configuration a topic was created with: partitions and, if set, \<open>retention.ms\<close>.\<close>

type_synonym cluster = "string \<rightharpoonup> int \<times> string option"

text \<open>The answer to one create request; \<open>Exists\<close> when a concurrent run created the topic first.\<close>

datatype create_reply = Created | Exists "int \<times> string option" | CreateRefused | RequestFailed

definition topic_config :: "topic_spec \<Rightarrow> int \<times> string option" where
  "topic_config spec =
     (t_partitions spec,
      if t_retention spec > 0 then Some (dec_int (t_retention spec div 10 ^ 6)) else None)"

fun create_missing ::
  "cluster \<Rightarrow> (string \<Rightarrow> create_reply) \<Rightarrow> topic_spec list \<Rightarrow> string list \<Rightarrow> cluster \<Rightarrow>
     string list \<times> broker_error option \<times> cluster" where
  "create_missing existing reply [] created c = (created, None, c)"
| "create_missing existing reply (spec # specs) created c =
     (if existing (t_name spec) \<noteq> None then create_missing existing reply specs created c
      else (case reply (t_name spec) of
              RequestFailed \<Rightarrow> (created, Some (CreateTopicFailed (t_name spec)), c)
            | CreateRefused \<Rightarrow> (created, Some (CreateTopicFailed (t_name spec)), c)
            | Exists cfg \<Rightarrow> create_missing existing reply specs created (c(t_name spec \<mapsto> cfg))
            | Created \<Rightarrow> create_missing existing reply specs (created @ [t_name spec])
                           (c(t_name spec \<mapsto> topic_config spec))))"

definition EnsureTopics ::
  "bool \<Rightarrow> bool \<Rightarrow> (string \<Rightarrow> create_reply) \<Rightarrow> topic_spec list \<Rightarrow> cluster \<Rightarrow>
     string list \<times> broker_error option \<times> cluster" where
  "EnsureTopics cl listed reply specs c =
     (if \<not> cl then ([], Some NilClient, c)
      else if \<not> listed then ([], Some ListTopicsFailed, c)
      else create_missing c reply specs [] c)"

text \<open>\<open>details\<close> is the broker's answer: each topic with its error flag and partition count.\<close>

fun describe :: "(string \<times> bool \<times> nat) list \<Rightarrow> (string \<rightharpoonup> nat) \<Rightarrow> broker_error + (string \<rightharpoonup> nat)" where
  "describe [] out = Inr out"
| "describe ((t, failed, n) # ds) out =
     (if failed then Inl (DescribeTopicFailed t) else describe ds (out(t \<mapsto> n)))"

definition DescribeTopics ::
  "bool \<Rightarrow> (string \<times> bool \<times> nat) list option \<Rightarrow> broker_error + (string \<rightharpoonup> nat)" where
  "DescribeTopics cl details =
     (if \<not> cl then Inl NilClient
      else (case details of None \<Rightarrow> Inl DescribeFailed | Some ds \<Rightarrow> describe ds Map.empty))"

section \<open>Lemmas\<close>

lemma header_list_keys: "map fst (header_list hs) = sort (remdups (map fst hs))"
  by (simp add: header_list_def comp_def)

lemma header_list_sorted: "sorted (map fst (header_list hs))" "distinct (map fst (header_list hs))"
  by (simp_all add: header_list_keys)

lemma map_of_header_list: "map_of (header_list hs) = map_of hs"
proof
  fix k
  show "map_of (header_list hs) k = map_of hs k"
    by (cases "k \<in> fst ` set hs")
      (auto simp: header_list_def map_of_map_restrict map_of_eq_None_iff [THEN iffD2]
        restrict_map_def weak_map_of_SomeI dest: map_of_eq_None_iff [THEN iffD1])
qed

lemma header_list_map_of: "map_of hs = map_of hs' \<Longrightarrow> header_list hs = header_list hs'"
proof -
  assume eq: "map_of hs = map_of hs'"
  then have "set (map fst hs) = set (map fst hs')"
    by (metis dom_map_of_conv_image_fst list.set_map)
  then have "sort (remdups (map fst hs)) = sort (remdups (map fst hs'))"
    by (metis sorted_list_of_set_sort_remdups)
  with eq show ?thesis by (simp add: header_list_def)
qed

lemma subseq_set: "subseq xs ys \<Longrightarrow> set xs \<subseteq> set ys"
  by (induction rule: list_emb.induct) auto

lemma produce_sync_all:
  "(\<forall>i < length krs. ack i = Acked) \<Longrightarrow> snd (produce_sync ack krs lg) = lg @ krs"
proof -
  assume ack: "\<forall>i < length krs. ack i = Acked"
  then have "filter (\<lambda>i. lands (ack i)) [0..<length krs] = [0..<length krs]"
    by (simp add: filter_id_conv)
  then show ?thesis by (simp add: produce_sync_def map_nth)
qed

lemma produce_sync_log:
  "\<exists>landed. snd (produce_sync ack krs lg) = lg @ landed \<and> subseq landed krs"
proof -
  have "subseq (map ((!) krs) (filter (\<lambda>i. lands (ack i)) [0..<length krs])) (map ((!) krs) [0..<length krs])"
    by (intro subseq_map subseq_filter_left)
  then show ?thesis by (simp add: produce_sync_def map_nth)
qed

lemma Produce_None:
  assumes "Produce p ack topic recs lg = (None, lg')"
  shows "lg' = lg @ map (wire_of topic) recs"
proof (cases "recs = []")
  case True
  with assms show ?thesis by (auto simp: Produce_def split: if_splits)
next
  case False
  with assms have "filter (\<lambda>e. e \<noteq> None) (map (\<lambda>i. ack_error (ack i)) [0..<length recs]) = []"
    and lg': "lg' = snd (produce_sync ack (map (wire_of topic) recs) lg)"
    by (auto simp: Produce_def produce_sync_def split: if_splits list.splits)
  then have "\<forall>i < length recs. ack i = Acked"
    by (auto simp: filter_empty_conv ack_error_def split: rec_ack.splits)
      (metis atLeast0LessThan lessThan_iff rec_ack.exhaust)
  with lg' show ?thesis by (simp add: produce_sync_all)
qed

lemma Produce_log:
  "\<exists>landed. snd (Produce p ack topic recs lg) = lg @ landed \<and> subseq landed (map (wire_of topic) recs)"
  using produce_sync_log [of ack "map (wire_of topic) recs" lg]
  by (auto simp: Produce_def case_prod_beta Let_def split: list.splits)

lemma create_missing_keeps:
  assumes "existing t \<noteq> None"
  shows "snd (snd (create_missing existing reply specs created c)) t = c t"
  using assms
proof (induction specs arbitrary: created c)
  case (Cons spec specs)
  have "t_name spec = t \<Longrightarrow> existing (t_name spec) \<noteq> None" using Cons.prems by simp
  with Cons show ?case by (cases "t_name spec = t") (auto split: create_reply.splits)
qed simp

lemma create_missing_created:
  "t \<in> set (fst (create_missing existing reply specs created c)) \<Longrightarrow>
   t \<in> set created \<or> t \<in> t_name ` set specs \<and> existing t = None"
proof (induction specs arbitrary: created c)
  case (Cons spec specs)
  show ?case
  proof (cases "existing (t_name spec) = None")
    case True
    with Cons.prems show ?thesis
      by (cases "reply (t_name spec)") (auto dest!: Cons.IH)
  next
    case False
    with Cons.prems show ?thesis by (auto dest!: Cons.IH)
  qed
qed simp

lemma create_missing_mono:
  "t \<in> dom c \<Longrightarrow> t \<in> dom (snd (snd (create_missing existing reply specs created c)))"
proof (induction specs arbitrary: created c)
  case (Cons spec specs)
  show ?case
  proof (cases "existing (t_name spec) = None")
    case True
    have up: "t \<in> dom (c(k \<mapsto> v))" for k v using Cons.prems by simp
    show ?thesis
      using True Cons.IH [OF up] Cons.prems
      by (cases "reply (t_name spec)") (simp_all del: fun_upd_apply)
  next
    case False
    with Cons show ?thesis by simp
  qed
qed simp

lemma create_missing_all:
  "fst (snd (create_missing existing reply specs created c)) = None \<Longrightarrow> dom existing \<subseteq> dom c \<Longrightarrow>
   spec \<in> set specs \<Longrightarrow> t_name spec \<in> dom (snd (snd (create_missing existing reply specs created c)))"
proof (induction specs arbitrary: created c)
  case (Cons s specs)
  have more: "dom existing \<subseteq> dom (c(k \<mapsto> v))" for k v using Cons.prems(2) by auto
  show ?case
  proof (cases "existing (t_name s) = None")
    case True
    have new: "t_name s \<in> dom (snd (snd (create_missing existing reply specs l (c(t_name s \<mapsto> v)))))" for l v
      by (rule create_missing_mono) simp
    show ?thesis
      using True Cons.prems Cons.IH [OF _ more] new
      by (cases "spec = s"; cases "reply (t_name s)") (simp_all del: fun_upd_apply)
  next
    case False
    then have "t_name s \<in> dom c" using Cons.prems(2) by blast
    then have "t_name s \<in> dom (snd (snd (create_missing existing reply specs created c)))"
      by (rule create_missing_mono)
    with False Cons.prems Cons.IH [of created c] show ?thesis
      by (cases "spec = s") simp_all
  qed
qed simp

end
