(* ===== verification/DeadLetters.thy ===== *)
theory DeadLetters
  imports Sink_Props Broker
begin

text \<open>
  The dead-letter sink of the consumer, \<open>internal/consumer/deadletter.go\<close>: a refused event goes to
  the dead-letter topic first and into the table second. The contract of the \<open>DeadLetterer\<close>
  interface is a locale; its interpretation on \<open>DeadLetter\<close> discharges the laws for the code.
\<close>

record dlq_sink =
  dq_pub :: bool
  dq_store :: store
  dq_topic :: string

datatype dl_error =
    NilPublisherForDLQ
  | NilStoreForDLQ
  | NoDLQTopic
  | NilLogger
  | NoPayload string
  | DLQPublishFailed string broker_error
  | DLQRecordFailed string sink_error

definition NewDLQSink :: "bool \<Rightarrow> store option \<Rightarrow> string \<Rightarrow> bool \<Rightarrow> dl_error + dlq_sink" where
  "NewDLQSink pub st topic logger =
     (if \<not> pub then Inl NilPublisherForDLQ
      else (case st of
              None \<Rightarrow> Inl NilStoreForDLQ
            | Some s \<Rightarrow>
                if topic = [] then Inl NoDLQTopic
                else if \<not> logger then Inl NilLogger
                else Inr \<lparr>dq_pub = pub, dq_store = s, dq_topic = topic\<rparr>))"

text \<open>The state is the dead-letter topic and the database.\<close>

definition DeadLetter ::
  "pg_lib \<Rightarrow> dlq_sink \<Rightarrow> (nat \<Rightarrow> rec_ack) \<Rightarrow> tx_env \<Rightarrow> dead_letter \<Rightarrow> wire_record list \<times> sink_db \<Rightarrow>
     dl_error option \<times> wire_record list \<times> sink_db" where
  "DeadLetter pg d ack env dl s =
     (let (lg, db) = s in
      case dl_payload dl of
        None \<Rightarrow> (Some (NoPayload (dl_event_id dl)), lg, db)
      | Some pl \<Rightarrow>
          (case Produce (dq_pub d) ack (dq_topic d)
                  [\<lparr>b_key = dl_key dl, b_value = pl, b_headers = []\<rparr>] lg of
             (Some e, lg') \<Rightarrow> (Some (DLQPublishFailed (dq_topic d) e), lg', db)
           | (None, lg') \<Rightarrow>
               (case RecordDeadLetter pg (Some (dq_store d)) env dl db of
                  (Some e, db') \<Rightarrow> (Some (DLQRecordFailed (dl_event_id dl) e), lg', db')
                | (None, db') \<Rightarrow> (None, lg', db'))))"

section \<open>The contract\<close>

text \<open>Both copies of a refused event: its bytes on the topic, its identifier in the table.\<close>

definition recorded :: "pg_lib \<Rightarrow> dlq_sink \<Rightarrow> dead_letter \<Rightarrow> wire_record list \<times> sink_db \<Rightarrow> bool" where
  "recorded pg d dl s \<longleftrightarrow>
     (\<exists>pl u. dl_payload dl = Some pl \<and> pg_uuid pg (dl_event_id dl) = Some u \<and>
        \<lparr>k_topic = dq_topic d, k_key = dl_key dl, k_value = pl, k_headers = []\<rparr> \<in> set (fst s) \<and>
        u \<in> d_event_id ` set (dead_letters (snd s)))"

text \<open>
  What the consumer relies on: a refusal reported as recorded is recorded, and no later call
  forgets it.
\<close>

locale dead_letterer =
  fixes dead_letter_op :: "'e \<Rightarrow> dead_letter \<Rightarrow> 's \<Rightarrow> 'err option \<times> 's"
    and is_recorded :: "dead_letter \<Rightarrow> 's \<Rightarrow> bool"
  assumes success_recorded: "dead_letter_op e dl s = (None, s') \<Longrightarrow> is_recorded dl s'"
    and recorded_stays: "is_recorded dl s \<Longrightarrow> is_recorded dl (snd (dead_letter_op e dl' s))"
begin

lemma recorded_through: "is_recorded dl s \<Longrightarrow> is_recorded dl (fold (\<lambda>(e, dl') s. snd (dead_letter_op e dl' s)) ops s)"
  by (induction ops arbitrary: s) (auto intro: recorded_stays)

lemma success_recorded_through:
  "dead_letter_op e dl s = (None, s') \<Longrightarrow>
   is_recorded dl (fold (\<lambda>(e, dl') s. snd (dead_letter_op e dl' s)) ops s')"
  by (rule recorded_through [OF success_recorded])

end

lemma upsert_dead_ids:
  assumes "upsert_dead pg now first reason dl db = Inr (x, db')"
  shows "d_event_id ` set (dead_letters db) \<subseteq> d_event_id ` set (dead_letters db')"
    and "\<exists>u. pg_uuid pg (dl_event_id dl) = Some u \<and> u \<in> d_event_id ` set (dead_letters db')"
    and "processed_events db' = processed_events db" and "vehicle_positions db' = vehicle_positions db"
proof -
  from upsert_dead_Inr [OF assms] obtain ds where d: "db' = db\<lparr>dead_letters := ds\<rparr>"
    and keys: "set (map d_event_id (dead_letters db)) \<subseteq> set (map d_event_id ds)"
    by (metis order_refl set_append sup_ge1)
  from d keys show "d_event_id ` set (dead_letters db) \<subseteq> d_event_id ` set (dead_letters db')"
    by simp
  show "processed_events db' = processed_events db" "vehicle_positions db' = vehicle_positions db"
    by (simp_all add: d)
  from assms obtain u pl where u: "pg_uuid pg (dl_event_id dl) = Some u" "dl_payload dl = Some pl"
    by (auto simp: upsert_dead_def split: option.splits if_splits)
  show "\<exists>u. pg_uuid pg (dl_event_id dl) = Some u \<and> u \<in> d_event_id ` set (dead_letters db')"
  proof (cases "row_of d_event_id u (dead_letters db) = None")
    case True
    with u assms show ?thesis by (auto simp: upsert_dead_def split: if_splits)
  next
    case False
    then have "u \<in> d_event_id ` set (dead_letters db)" by (simp add: row_of_None_iff)
    with d keys u(1) show ?thesis by auto
  qed
qed

lemma RecordDeadLetter_ids:
  assumes "RecordDeadLetter pg s env dl db = (r, db')"
  shows "d_event_id ` set (dead_letters db) \<subseteq> d_event_id ` set (dead_letters db')"
    and "r = None \<Longrightarrow> \<exists>u. pg_uuid pg (dl_event_id dl) = Some u \<and> u \<in> d_event_id ` set (dead_letters db')"
    and "processed_events db' = processed_events db" and "vehicle_positions db' = vehicle_positions db"
proof -
  from RecordDeadLetter_live [OF assms] have "d_event_id ` set (dead_letters db) \<subseteq> d_event_id ` set (dead_letters db') \<and>
      processed_events db' = processed_events db \<and> vehicle_positions db' = vehicle_positions db \<and>
      (r = None \<longrightarrow> (\<exists>u. pg_uuid pg (dl_event_id dl) = Some u \<and> u \<in> d_event_id ` set (dead_letters db')))"
  proof
    assume "\<exists>first reason x. dl_event_id dl \<noteq> [] \<and>
      upsert_dead pg (tx_now env) first reason dl db = Inr (x, db') \<and>
       reason = (if dl_reason dl = [] then ''unknown'' else dl_reason dl) \<and>
       (r = None \<or> (\<exists>e. tx_commit env = CommitLost e))"
    then obtain first reason x where "upsert_dead pg (tx_now env) first reason dl db = Inr (x, db')"
      by blast
    from upsert_dead_ids [OF this] show ?thesis by simp
  qed auto
  then show "d_event_id ` set (dead_letters db) \<subseteq> d_event_id ` set (dead_letters db')"
    and "r = None \<Longrightarrow> \<exists>u. pg_uuid pg (dl_event_id dl) = Some u \<and> u \<in> d_event_id ` set (dead_letters db')"
    and "processed_events db' = processed_events db" and "vehicle_positions db' = vehicle_positions db"
    by simp_all
qed

lemma DeadLetter_cases:
  assumes "DeadLetter pg d ack env dl (lg, db) = (r, lg', db')"
  obtains (refused) "r \<noteq> None" "\<exists>landed. lg' = lg @ landed" "db' = db"
  | (written) pl e where "dl_payload dl = Some pl"
      "lg' = lg @ [\<lparr>k_topic = dq_topic d, k_key = dl_key dl, k_value = pl, k_headers = []\<rparr>]"
      "RecordDeadLetter pg (Some (dq_store d)) env dl db = (e, db')" "r = None \<longleftrightarrow> e = None"
proof (cases "dl_payload dl")
  case None
  with assms show ?thesis by (intro refused) (auto simp: DeadLetter_def)
next
  case (Some pl)
  let ?recs = "[\<lparr>b_key = dl_key dl, b_value = pl, b_headers = []\<rparr>]"
  obtain pe lg1 where p: "Produce (dq_pub d) ack (dq_topic d) ?recs lg = (pe, lg1)" by fastforce
  show ?thesis
  proof (cases pe)
    case None
    with p have "lg1 = lg @ [\<lparr>k_topic = dq_topic d, k_key = dl_key dl, k_value = pl, k_headers = []\<rparr>]"
      using Produce_None by (fastforce simp: wire_of_def)
    with None p assms Some show ?thesis
      by (intro written [of pl "fst (RecordDeadLetter pg (Some (dq_store d)) env dl db)"])
        (auto simp: DeadLetter_def split: prod.splits option.splits)
  next
    case (Some e)
    with p assms \<open>dl_payload dl = Some pl\<close> Produce_log [of "dq_pub d" ack "dq_topic d" ?recs lg]
    show ?thesis by (intro refused) (auto simp: DeadLetter_def)
  qed
qed

lemma DeadLetter_recorded:
  assumes "DeadLetter pg d ack env dl (lg, db) = (None, lg', db')"
  shows "recorded pg d dl (lg', db')"
  using assms
proof (cases rule: DeadLetter_cases)
  case (written pl e)
  from RecordDeadLetter_ids(2) [OF written(3)] written show ?thesis
    by (auto simp: recorded_def)
qed simp

lemma DeadLetter_grows:
  assumes "DeadLetter pg d ack env dl (lg, db) = (r, lg', db')"
  shows "(\<exists>landed. lg' = lg @ landed) \<and>
    d_event_id ` set (dead_letters db) \<subseteq> d_event_id ` set (dead_letters db') \<and>
    processed_events db' = processed_events db \<and> vehicle_positions db' = vehicle_positions db"
  using assms
proof (cases rule: DeadLetter_cases)
  case (written pl e)
  from RecordDeadLetter_ids(1,3,4) [OF written(3)] written(2) show ?thesis by blast
qed auto

lemma DeadLetter_inv [inv_intros]:
  assumes "sink_inv db"
  shows "sink_inv (snd (snd (DeadLetter pg d ack env dl (lg, db))))"
proof -
  obtain r lg' db' where eq: "DeadLetter pg d ack env dl (lg, db) = (r, lg', db')"
    by (metis prod.exhaust)
  then show ?thesis
  proof (cases rule: DeadLetter_cases)
    case (written pl e)
    with RecordDeadLetter_inv [OF assms, of pg "Some (dq_store d)" env dl] eq show ?thesis by simp
  qed (use eq assms in auto)
qed

interpretation dlq: dead_letterer "\<lambda>(ack, env) dl s. DeadLetter pg d ack env dl s" "recorded pg d" for pg d
proof
  fix e :: "(nat \<Rightarrow> rec_ack) \<times> tx_env" and dl and s s' :: "wire_record list \<times> sink_db"
  show "(case e of (ack, env) \<Rightarrow> \<lambda>dl s. DeadLetter pg d ack env dl s) dl s = (None, s') \<Longrightarrow> recorded pg d dl s'"
    by (cases e; cases s; cases s') (simp add: DeadLetter_recorded)
next
  fix e :: "(nat \<Rightarrow> rec_ack) \<times> tx_env" and dl dl' and s :: "wire_record list \<times> sink_db"
  obtain ack env where e: "e = (ack, env)" by fastforce
  obtain lg db where s: "s = (lg, db)" by fastforce
  obtain r lg' db' where eq: "DeadLetter pg d ack env dl' (lg, db) = (r, lg', db')" by (metis prod.exhaust)
  from DeadLetter_grows [OF eq] show "recorded pg d dl s \<Longrightarrow>
      recorded pg d dl (snd ((case e of (ack, env) \<Rightarrow> \<lambda>dl s. DeadLetter pg d ack env dl s) dl' s))"
    by (auto simp: e s eq recorded_def)
qed

end
