(* ===== verification/History.thy ===== *)
theory History
  imports Sink_Props
begin

text \<open>
  The reads of \<open>internal/sink/replay_view.go\<close> and \<open>Store.GetCurrent\<close>: resolving a resume point,
  the bounded replay after it in the total order \<open>(event_ts, event_id)\<close>, and current state as a
  fan-out frame. The order is a \<open>linorder\<close> instance, so the library's sorting applies to it.
  A uuid is compared by its canonical text, which orders as Postgres orders its bytes.
\<close>

section \<open>Resume points\<close>

datatype resume_point = RP (rp_ts: int) (rp_id: string)

instantiation resume_point :: linorder
begin

definition less_eq_resume_point :: "resume_point \<Rightarrow> resume_point \<Rightarrow> bool" where
  "less_eq_resume_point a b \<longleftrightarrow> rp_ts a < rp_ts b \<or> rp_ts a = rp_ts b \<and> rp_id a \<le> rp_id b"

definition less_resume_point :: "resume_point \<Rightarrow> resume_point \<Rightarrow> bool" where
  "less_resume_point a b \<longleftrightarrow> rp_ts a < rp_ts b \<or> rp_ts a = rp_ts b \<and> rp_id a < rp_id b"

instance
  by standard
    (auto simp: less_eq_resume_point_def less_resume_point_def intro: resume_point.expand)

end

definition point_of :: "position_row \<Rightarrow> resume_point" where
  "point_of r = RP (r_event_ts r) (r_event_id r)"

section \<open>The reads\<close>

text \<open>Where a query meets a connection fault: sent, scanned or iterated.\<close>

datatype query_fault = AtQuery pg_error | AtScan pg_error | AtIterate pg_error

definition sequence_of :: "int \<Rightarrow> 64 word" where
  "sequence_of seq = (if seq < 0 then 0 else of_int seq)"

definition frame_of_row :: "position_row \<Rightarrow> frame" where
  "frame_of_row r =
     \<lparr>f_event_id = r_event_id r, f_vehicle_id = r_vehicle_id r, f_route_id = r_route_id r,
      f_lat = r_lat r, f_lon = r_lon r, f_speed_kph = r_speed_kph r,
      f_bearing_deg = r_bearing_deg r, f_event_ts = of_usec (r_event_ts r),
      f_sequence = sequence_of (r_sequence r)\<rparr>"

definition PositionTime ::
  "pg_lib \<Rightarrow> store option \<Rightarrow> pg_error option \<Rightarrow> string \<Rightarrow> sink_db \<Rightarrow> sink_error + time \<times> bool" where
  "PositionTime pg s fault eventID db =
     (case s of
        None \<Rightarrow> Inl (SinkError ''nil store'')
      | Some st \<Rightarrow>
          if \<not> st_pool st then Inl (SinkError ''nil store'')
          else if eventID = [] then Inl (SinkError ''no event id'')
          else (case fault of
                  Some e \<Rightarrow> Inl (Wrapped ''resolve resume point'' e)
                | None \<Rightarrow>
                    (case pg_uuid pg eventID of
                       None \<Rightarrow> Inl (Wrapped ''resolve resume point'' (PgError ''22P02''))
                     | Some u \<Rightarrow>
                         (case row_of r_event_id u (vehicle_positions db) of
                            None \<Rightarrow> Inr (0, False)
                          | Some r \<Rightarrow> Inr (of_usec (r_event_ts r), True)))))"

definition CurrentPosition ::
  "store option \<Rightarrow> pg_error option \<Rightarrow> string \<Rightarrow> sink_db \<Rightarrow> sink_error + frame \<times> bool" where
  "CurrentPosition s fault vehicleID db =
     (case s of
        None \<Rightarrow> Inl (SinkError ''nil store'')
      | Some st \<Rightarrow>
          if \<not> st_pool st then Inl (SinkError ''nil store'')
          else if vehicleID = [] then Inl (SinkError ''no vehicle id'')
          else (case fault of
                  Some e \<Rightarrow> Inl (Wrapped ''read current position'' e)
                | None \<Rightarrow>
                    if \<not> pg_text_ok vehicleID
                    then Inl (Wrapped ''read current position'' (PgError ''22021''))
                    else
                    (case vehicle_current db vehicleID of
                       None \<Rightarrow> Inr (zero_frame, False)
                     | Some c \<Rightarrow>
                         let seq = (case row_of r_event_id (c_last_event_id c) (vehicle_positions db) of
                                      None \<Rightarrow> 0 | Some h \<Rightarrow> r_sequence h) in
                         Inr (\<lparr>f_event_id = c_last_event_id c, f_vehicle_id = vehicleID,
                               f_route_id = c_route_id c, f_lat = c_lat c, f_lon = c_lon c,
                               f_speed_kph = c_speed_kph c, f_bearing_deg = c_bearing_deg c,
                               f_event_ts = of_usec (c_last_event_ts c),
                               f_sequence = sequence_of seq\<rparr>, True))))"

text \<open>The rows the query of \<open>PositionsSince\<close> selects, in its order, before the LIMIT.\<close>

definition rows_after :: "resume_point \<Rightarrow> position_row list \<Rightarrow> position_row list" where
  "rows_after p rows = sort_key point_of (filter (\<lambda>r. p < point_of r) rows)"

definition PositionsSince ::
  "pg_lib \<Rightarrow> store option \<Rightarrow> query_fault option \<Rightarrow> time \<Rightarrow> string \<Rightarrow> int \<Rightarrow> sink_db \<Rightarrow>
     sink_error + frame list" where
  "PositionsSince pg s fault after afterID limit db =
     (case s of
        None \<Rightarrow> Inl (SinkError ''nil store'')
      | Some st \<Rightarrow>
          if \<not> st_pool st then Inl (SinkError ''nil store'')
          else if afterID = [] then Inl (SinkError ''a resume point requires an id'')
          else if limit \<le> 0 then Inl (SinkError ''a positive limit is required'')
          else (case fault of
                  Some (AtQuery e) \<Rightarrow> Inl (Wrapped ''replay from'' e)
                | Some (AtScan e) \<Rightarrow> Inl (Wrapped ''scan replayed position'' e)
                | Some (AtIterate e) \<Rightarrow> Inl (Wrapped ''iterate replayed positions'' e)
                | None \<Rightarrow>
                    (case pg_uuid pg afterID of
                       None \<Rightarrow> Inl (Wrapped ''replay from'' (PgError ''22P02''))
                     | Some u \<Rightarrow>
                         Inr (map frame_of_row
                               (take (nat limit)
                                 (rows_after (RP (usec after) u) (vehicle_positions db)))))))"

definition GetCurrent ::
  "pg_error option \<Rightarrow> string \<Rightarrow> sink_db \<Rightarrow> sink_error + current_row" where
  "GetCurrent fault vehicleID db =
     (case fault of
        Some e \<Rightarrow> Inl (Bare e)
      | None \<Rightarrow>
          if \<not> pg_text_ok vehicleID then Inl (Bare (PgError ''22021''))
          else (case vehicle_current db vehicleID of
                  None \<Rightarrow> Inl (SinkError ''no rows'')
                | Some c \<Rightarrow> Inr c))"

section \<open>Lemmas on the order\<close>

lemma inj_point_of: "distinct (map r_event_id rows) \<Longrightarrow> inj_on point_of (set rows)"
  by (auto simp: point_of_def inj_on_def distinct_map)

lemma rows_after_set [simp]: "set (rows_after p rows) = {r \<in> set rows. p < point_of r}"
  by (simp add: rows_after_def)

lemma rows_after_sorted: "sorted (map point_of (rows_after p rows))"
  by (simp add: rows_after_def)

lemma rows_after_strict:
  assumes "distinct (map r_event_id rows)"
  shows "sorted_wrt (<) (map point_of (rows_after p rows))"
proof -
  have "distinct (rows_after p rows)"
    using assms by (auto simp: rows_after_def distinct_map)
  moreover have "inj_on point_of (set (rows_after p rows))"
    using inj_point_of [OF assms] by (rule inj_on_subset) auto
  ultimately have "distinct (map point_of (rows_after p rows))" by (simp add: distinct_map)
  with rows_after_sorted show ?thesis by (simp add: strict_sorted_iff)
qed

text \<open>Resuming after the row at index \<open>n\<close> gives what follows it: no gap and no repetition.\<close>

lemma filter_sorted_drop:
  fixes f :: "'a \<Rightarrow> 'b::linorder"
  assumes "sorted_wrt (<) (map f xs)" and "n < length xs"
  shows "filter (\<lambda>x. f (xs ! n) < f x) xs = drop (Suc n) xs"
proof -
  have "xs = take (Suc n) xs @ drop (Suc n) xs" by simp
  moreover have "filter (\<lambda>x. f (xs ! n) < f x) (take (Suc n) xs) = []"
  proof -
    have "f x \<le> f (xs ! n)" if x: "x \<in> set (take (Suc n) xs)" for x
    proof -
      from x obtain k where k: "x = xs ! k" "k \<le> n"
        by (auto simp: in_set_conv_nth)
      with assms show ?thesis
        by (cases "k = n") (auto simp: sorted_wrt_iff_nth_less intro!: less_imp_le)
    qed
    then show ?thesis by (force simp: filter_empty_conv)
  qed
  moreover have "filter (\<lambda>x. f (xs ! n) < f x) (drop (Suc n) xs) = drop (Suc n) xs"
    using assms by (auto simp: filter_id_conv in_set_conv_nth sorted_wrt_iff_nth_less)
  ultimately show ?thesis by (metis append_Nil filter_append)
qed

lemma rows_after_page:
  assumes "distinct (map r_event_id rows)" and "n < length (rows_after p rows)"
  shows "rows_after (point_of (rows_after p rows ! n)) rows = drop (Suc n) (rows_after p rows)"
proof -
  let ?xs = "rows_after p rows"
  let ?q = "point_of (?xs ! n)"
  have "p < ?q"
    using nth_mem [OF assms(2)] by simp
  then have "filter (\<lambda>r. ?q < point_of r) rows =
      filter (\<lambda>r. ?q < point_of r) (filter (\<lambda>r. p < point_of r) rows)"
    by (auto intro!: filter_cong)
  then have "rows_after ?q rows = filter (\<lambda>r. ?q < point_of r) ?xs"
    by (simp add: rows_after_def filter_sort)
  also have "\<dots> = drop (Suc n) ?xs"
    by (rule filter_sorted_drop [OF rows_after_strict [OF assms(1)] assms(2)])
  finally show ?thesis .
qed

lemma usec_of_usec [simp]: "usec (of_usec u) = u"
  by (simp add: usec_def of_usec_def)

lemma PositionsSince_live:
  assumes "PositionsSince pg s fault after a limit db = Inr frames"
  shows "\<exists>u. pg_uuid pg a = Some u \<and> a \<noteq> [] \<and> 0 < limit \<and>
    frames = map frame_of_row (take (nat limit) (rows_after (RP (usec after) u) (vehicle_positions db)))"
  using assms by (auto simp: PositionsSince_def split: option.splits if_splits query_fault.splits)

lemma PositionTime_found:
  assumes "PositionTime pg s fault a db = Inr (t, True)"
  shows "\<exists>u r. pg_uuid pg a = Some u \<and> row_of r_event_id u (vehicle_positions db) = Some r \<and>
    t = of_usec (r_event_ts r)"
  using assms by (auto simp: PositionTime_def split: option.splits if_splits)

section \<open>A history of two rows\<close>

definition two_rows_db :: sink_db where
  "two_rows_db = apply_effect sample_pg ''c'' 6000 newer_input ''u3'' sample_db"

definition first_row :: position_row where
  "first_row = position_row_of sample_pg ''u1'' 5000 sample_input"

definition second_row :: position_row where
  "second_row = position_row_of sample_pg ''u3'' 6000 newer_input"

lemma two_rows_inv: "sink_inv two_rows_db"
  using deliveries_inv [of sample_pg "Some sample_store"
      "[(calm 5000, sample_input), (calm 6000, newer_input)]" two_rows_db]
  by (simp only: sample_orders two_rows_db_def snd_conv)

lemma two_rows: "vehicle_positions two_rows_db = [first_row, second_row]"
  by (simp add: two_rows_db_def sample_db_def apply_effect_def empty_db_def first_row_def second_row_def)

lemma two_points: "point_of first_row = RP 1 ''u1''" "point_of second_row = RP 9 ''u3''"
  by (simp_all add: point_of_def first_row_def second_row_def sample_input_def newer_input_def
      sample_position_def usec_def)

lemma two_rows_after:
  "rows_after (RP 0 ''u1'') [first_row, second_row] = [first_row, second_row]"
  "rows_after (RP 1 ''u1'') [first_row, second_row] = [second_row]"
  by (simp_all add: rows_after_def two_points less_resume_point_def less_eq_resume_point_def)

section \<open>Properties\<close>

text \<open>
  C15. A replay page is exact: the frames \<open>PositionsSince\<close> returns are those of distinct rows of the
  history, strictly increasing in \<open>(event_ts, event_id)\<close> and after the resume point, at most
  \<open>limit\<close> of them, and every row after the resume point that is missing from a page comes after
  every row of the page.
\<close>

theorem PositionsSince_exact:
  assumes "sink_inv db" and "PositionsSince pg s fault after a limit db = Inr frames"
  shows "\<exists>u page. pg_uuid pg a = Some u \<and> frames = map frame_of_row page \<and>
    set page \<subseteq> set (vehicle_positions db) \<and> length page \<le> nat limit \<and>
    sorted_wrt (<) (map point_of page) \<and>
    (\<forall>r \<in> set page. RP (usec after) u < point_of r) \<and>
    (\<forall>r \<in> set (vehicle_positions db). RP (usec after) u < point_of r \<and> r \<notin> set page \<longrightarrow>
       length page = nat limit \<and> (\<forall>q \<in> set page. point_of q < point_of r))"
proof -
  from PositionsSince_live [OF assms(2)] obtain u where u: "pg_uuid pg a = Some u"
    "frames = map frame_of_row (take (nat limit) (rows_after (RP (usec after) u) (vehicle_positions db)))"
    by blast
  let ?all = "rows_after (RP (usec after) u) (vehicle_positions db)"
  let ?page = "take (nat limit) ?all"
  have strict: "sorted_wrt (<) (map point_of ?all)"
    using rows_after_strict sink_invD(1) [OF assms(1)] by blast
  have "map point_of ?all = map point_of ?page @ map point_of (drop (nat limit) ?all)"
    by (metis append_take_drop_id map_append)
  with strict have pre: "sorted_wrt (<) (map point_of ?page)"
    and later: "\<And>q r. q \<in> set ?page \<Longrightarrow> r \<in> set (drop (nat limit) ?all) \<Longrightarrow> point_of q < point_of r"
    by (auto simp: sorted_wrt_append)
  have rest: "r \<in> set ?page \<or> r \<in> set (drop (nat limit) ?all)" if "r \<in> set ?all" for r
    using that by (metis Un_iff append_take_drop_id set_append)
  have full: "length ?page = nat limit" if "r \<in> set (drop (nat limit) ?all)" for r
    using that by (cases "nat limit \<le> length ?all") auto
  have sub: "r \<in> set ?all" if "r \<in> set ?page" for r
    using that by (rule in_set_takeD)
  show ?thesis
    by (intro exI [of _ u] exI [of _ ?page] conjI ballI impI)
      (use u pre later rest full sub in \<open>auto\<close>)
qed

theorem PositionsSince_exact_witness:
  "PositionsSince sample_pg (Some sample_store) None 1000 ''u1'' 10 two_rows_db =
     Inr [frame_of_row second_row] \<and>
   (\<exists>page. map frame_of_row page = [frame_of_row second_row] \<and> set page \<subseteq> {first_row, second_row} \<and>
      sorted_wrt (<) (map point_of page))"
proof -
  have "PositionsSince sample_pg (Some sample_store) None 1000 ''u1'' 10 two_rows_db =
      Inr [frame_of_row second_row]"
    using two_rows_after
    by (simp add: PositionsSince_def sample_pg_def sample_store_def two_rows usec_def)
  moreover from PositionsSince_exact [OF two_rows_inv this] obtain page where
    "map frame_of_row page = [frame_of_row second_row]" "set page \<subseteq> {first_row, second_row}"
    "sorted_wrt (<) (map point_of page)"
    by (metis two_rows list.simps(15) set_empty2 empty_set)
  ultimately show ?thesis by (intro conjI exI [of _ page])
qed

text \<open>
  C16. A resumed client has no gap and no repetition: when it saw the frame at position \<open>n\<close> of the
  replay order and comes back with that frame's id, resolving the id and reading on gives exactly
  the frames that follow it, in order (up to the limit).
\<close>

theorem resume_continues:
  assumes "sink_inv db" and "st_pool st" and "0 < limit"
    and n: "n < length (rows_after p (vehicle_positions db))"
    and id: "rows_after p (vehicle_positions db) ! n = r" "pg_uuid pg a = Some (r_event_id r)" "a \<noteq> []"
  shows "PositionTime pg (Some st) None a db = Inr (of_usec (r_event_ts r), True) \<and>
    PositionsSince pg (Some st) None (of_usec (r_event_ts r)) a limit db =
      Inr (map frame_of_row (take (nat limit) (drop (Suc n) (rows_after p (vehicle_positions db)))))"
proof -
  have "r \<in> set (vehicle_positions db)"
    using nth_mem [OF n] id(1) by simp
  then have "row_of r_event_id (r_event_id r) (vehicle_positions db) = Some r"
    using sink_invD(1) [OF assms(1)] by (simp add: row_of_Some_iff)
  moreover have "rows_after (RP (r_event_ts r) (r_event_id r)) (vehicle_positions db) =
      drop (Suc n) (rows_after p (vehicle_positions db))"
    using rows_after_page [OF sink_invD(1) [OF assms(1)] n] id(1) by (simp add: point_of_def)
  ultimately show ?thesis
    using assms(2,3) id by (simp add: PositionTime_def PositionsSince_def)
qed

theorem resume_continues_witness:
  "PositionsSince sample_pg (Some sample_store) None (of_usec (r_event_ts first_row)) ''u1'' 10 two_rows_db =
     Inr [frame_of_row second_row]"
proof -
  have id: "r_event_id first_row = ''u1''" by (simp add: first_row_def)
  have "PositionTime sample_pg (Some sample_store) None ''u1'' two_rows_db =
      Inr (of_usec (r_event_ts first_row), True) \<and>
    PositionsSince sample_pg (Some sample_store) None (of_usec (r_event_ts first_row)) ''u1'' 10 two_rows_db =
      Inr (map frame_of_row (take (nat 10) (drop (Suc 0)
        (rows_after (RP 0 ''u1'') (vehicle_positions two_rows_db)))))"
    by (rule resume_continues [OF two_rows_inv])
      (simp_all add: two_rows two_rows_after sample_store_def sample_pg_def id)
  then show ?thesis by (simp add: two_rows two_rows_after)
qed

text \<open>
  C17. What a resume does not give back: an event that was applied while the client was away, but
  whose event time is before the client's last frame, is in the history and on no later replay.
\<close>

theorem late_event_never_replayed:
  assumes "sink_inv db" and "Apply pg s env i db = (Inr out, db')"
    and "usec (event_ts (i_position i)) < usec after"
  shows "PositionsSince pg s2 fault after a limit db' = PositionsSince pg s2 fault after a limit db"
proof -
  have "rows_after (RP (usec after) u) (vehicle_positions db') =
      rows_after (RP (usec after) u) (vehicle_positions db)" for u
    using assms(1,2)
  proof (cases rule: Apply_cases)
    case (effect k st)
    have "\<not> RP (usec after) u < point_of (position_row_of pg k (tx_now env) i)"
      using assms(3) by (simp add: less_resume_point_def point_of_def)
    with effect(6) show ?thesis by (simp add: apply_effect_def rows_after_def)
  qed auto
  then show ?thesis unfolding PositionsSince_def by (simp only:)
qed

theorem late_event_never_replayed_witness:
  "\<exists>db'. Apply sample_pg (Some sample_store) (calm 9000) older_input sample_db = (Inr OutcomeLate, db') \<and>
     length (vehicle_positions db') = Suc (length (vehicle_positions sample_db)) \<and>
     PositionsSince sample_pg (Some sample_store) None 3000 ''u1'' 10 db' =
       PositionsSince sample_pg (Some sample_store) None 3000 ''u1'' 10 sample_db"
proof -
  have "usec (event_ts (i_position older_input)) < usec 3000"
    by (simp add: older_input_def sample_input_def sample_position_def usec_def)
  from late_event_never_replayed [OF sample_db_inv sample_late this, of "Some sample_store" None "''u1''" 10]
  show ?thesis
    using sample_late by (simp add: apply_effect_def)
qed

text \<open>
  Where a vehicle is now: \<open>CurrentPosition\<close> answers with the frame of the newest report in the
  vehicle's history, the same frame a replay would carry for it, and with "not found" exactly when
  the history has no report of the vehicle.
\<close>

lemma CurrentPosition_newest:
  assumes "sink_inv db" and "st_pool st" and "v \<noteq> []" and "pg_text_ok v"
  shows "CurrentPosition (Some st) None v db =
    (case latest_row (vehicle_positions db) v of
       None \<Rightarrow> Inr (zero_frame, False)
     | Some r \<Rightarrow> Inr (frame_of_row r, True))"
proof (cases "latest_row (vehicle_positions db) v")
  case None
  then show ?thesis
    using assms sink_invD(4) [OF assms(1)] by (simp add: CurrentPosition_def current_view_def)
next
  case (Some r)
  then have r: "r \<in> set (vehicle_positions db)" "r_vehicle_id r = v"
    by (auto dest: latest_row_SomeD)
  then have "row_of r_event_id (r_event_id r) (vehicle_positions db) = Some r"
    using sink_invD(1) [OF assms(1)] by (simp add: row_of_Some_iff)
  with Some r(2) show ?thesis
    using assms sink_invD(4) [OF assms(1)]
    by (simp add: CurrentPosition_def current_view_def current_of_row_def frame_of_row_def Let_def)
qed

text \<open>
  What is read back of a sequence number: a number below \<open>2 ^ 63\<close> comes back as it was sent; a
  larger one passes validation, is stored as a negative number, and comes back as zero.
\<close>

lemma sequence_read_back:
  "f_sequence (frame_of_row (position_row_of pg u now i)) =
     (if sequence (i_position i) < 2 ^ 63 then sequence (i_position i) else 0)"
proof -
  let ?w = "sequence (i_position i)"
  have "?w < 2 ^ 63 \<longleftrightarrow> uint ?w < 2 ^ 63"
    by (simp add: word_less_def)
  moreover have "sint ?w = (if uint ?w < 2 ^ 63 then uint ?w else uint ?w - 2 ^ 64)"
    using uint_lt2p [of ?w] uint_ge_0 [of ?w]
      minus_mod_self2 [of "uint ?w + 2 ^ 63" "2 ^ 64"]
      mod_pos_pos_trivial [of "uint ?w + 2 ^ 63 - 2 ^ 64" "2 ^ 64"]
    by (auto simp: sint_uint signed_take_bit_eq_take_bit_shift take_bit_eq_mod)
  moreover have "uint ?w - 2 ^ 64 < 0"
    using uint_lt2p [of ?w] by simp
  ultimately show ?thesis
    by (simp add: frame_of_row_def sequence_of_def)
qed

end
