(* ===== verification/Consumer.thy ===== *)
theory Consumer
  imports DeadLetters History
begin

text \<open>
  The consumer-group member, \<open>internal/consumer/consumer.go\<close>: one record through decode, apply with
  bounded retries, publish and refusal; one polled batch with its per-partition commits; and the
  poll loop.

  What the consumer calls is the record \<open>deps\<close> of functions on a state \<open>'w\<close>: the sink's \<open>Apply\<close>,
  the \<open>DeadLetterer\<close>, the optional \<open>Publisher\<close>, \<open>CommitRecords\<close>, \<open>AllowRebalance\<close>, the context,
  the timer of a backoff, and the metric counters. \<open>Consumer_Live\<close> builds it from the modelled
  components. Log lines and duration histograms are left out. SHA-1 name-based UUIDs and the text
  of an error are the two functions of \<open>texts\<close>.
\<close>

record krecord =
  kr_topic :: string
  kr_partition :: int
  kr_offset :: int
  kr_key :: bytes
  kr_value :: "bytes option"

datatype cause =
    CauseEvent event_error
  | CauseUnknownType string int
  | CauseSink sink_error

record texts =
  uuid_sha1 :: "string \<Rightarrow> string"
  show_cause :: "cause \<Rightarrow> string"

record 'w deps =
  d_cancelled :: "'w \<Rightarrow> bool \<times> 'w"
  d_apply :: "input \<Rightarrow> 'w \<Rightarrow> (sink_error + outcome) \<times> 'w"
  d_dead :: "dead_letter \<Rightarrow> 'w \<Rightarrow> dl_error option \<times> 'w"
  d_publish :: "(frame \<Rightarrow> 'w \<Rightarrow> (fan_error + nat) \<times> 'w) option"
  d_wait :: "duration \<Rightarrow> 'w \<Rightarrow> bool \<times> 'w"
  d_commit :: "krecord \<Rightarrow> 'w \<Rightarrow> string option \<times> 'w"
  d_allow_rebalance :: "'w \<Rightarrow> 'w"
  d_count :: "string \<Rightarrow> string \<Rightarrow> 'w \<Rightarrow> 'w"

section \<open>Construction\<close>

record options =
  op_topic :: string
  op_batch_size :: int
  op_max_retries :: int
  op_backoff_base :: duration
  op_backoff_max :: duration

datatype consumer_error =
    NilKafkaClient | NilSinkStore | NilDeadLetterer | NilConsumerLogger | NoConsumerTopic

definition millisecond :: duration where
  "millisecond = 10 ^ 6"

definition second :: duration where
  "second = 10 ^ 9"

definition New :: "bool \<Rightarrow> bool \<Rightarrow> bool \<Rightarrow> bool \<Rightarrow> options \<Rightarrow> consumer_error + options" where
  "New cl st dlq logger o0 =
     (if \<not> cl then Inl NilKafkaClient
      else if \<not> st then Inl NilSinkStore
      else if \<not> dlq then Inl NilDeadLetterer
      else if \<not> logger then Inl NilConsumerLogger
      else if op_topic o0 = [] then Inl NoConsumerTopic
      else
        let o1 = (if op_batch_size o0 < 1 then o0\<lparr>op_batch_size := 200\<rparr> else o0);
            o2 = (if op_backoff_base o1 \<le> 0 then o1\<lparr>op_backoff_base := 250 * millisecond\<rparr> else o1);
            o3 = (if op_backoff_max o2 < op_backoff_base o2 then o2\<lparr>op_backoff_max := 30 * second\<rparr> else o2);
            o4 = (if op_max_retries o3 = 0 then o3\<lparr>op_max_retries := 5\<rparr> else o3)
        in Inr o4)"

section \<open>Helpers\<close>

definition position_name :: "krecord \<Rightarrow> string" where
  "position_name r = kr_topic r @ ''/'' @ dec_int (kr_partition r) @ ''/'' @ dec_int (kr_offset r)"

definition positionID :: "texts \<Rightarrow> krecord \<Rightarrow> string" where
  "positionID t r = uuid_sha1 t (position_name r)"

text \<open>The doubling loop of \<open>backoff\<close> with the number of iterations its index still allows.\<close>

fun backoff_loop :: "nat \<Rightarrow> duration \<Rightarrow> duration \<Rightarrow> duration" where
  "backoff_loop 0 mx d = d"
| "backoff_loop (Suc n) mx d = (if d < mx then backoff_loop n mx (wrap64 (d * 2)) else d)"

definition backoff :: "options \<Rightarrow> int \<Rightarrow> duration" where
  "backoff c attempt =
     (let d = backoff_loop (nat (attempt - 1)) (op_backoff_max c) (op_backoff_base c) in
      if d > op_backoff_max c then op_backoff_max c else d)"

fun pg_error_of :: "sink_error \<Rightarrow> pg_error option" where
  "pg_error_of (SinkError m) = None"
| "pg_error_of (Bare e) = Some e"
| "pg_error_of (Wrapped m e) = Some e"

definition isPermanent :: "sink_error \<Rightarrow> bool" where
  "isPermanent err =
     (case pg_error_of err of
        Some (PgError code) \<Rightarrow>
          (if prefix ''23'' code then True
           else if prefix ''22'' code then True
           else if prefix ''08'' code then False
           else if code = ''40001'' then False
           else if code = ''40P01'' then False
           else False)
      | _ \<Rightarrow> False)"

section \<open>One record\<close>

definition refuse ::
  "texts \<Rightarrow> 'w deps \<Rightarrow> krecord \<Rightarrow> string \<Rightarrow> string \<Rightarrow> int \<Rightarrow> cause \<Rightarrow> 'w \<Rightarrow> bool \<times> 'w" where
  "refuse t d r eventID reason attempts cause w =
     (let dl = \<lparr>dl_event_id = eventID, dl_key = kr_key r, dl_payload = kr_value r,
                dl_error = show_cause t cause, dl_reason = reason, dl_attempts = attempts,
                dl_topic = kr_topic r, dl_partition = kr_partition r, dl_offset = kr_offset r,
                dl_first_seen = 0\<rparr> in
      case d_dead d dl w of
        (Some e, w1) \<Rightarrow> (False, w1)
      | (None, w1) \<Rightarrow>
          (True, d_count d ''dead_letter_total'' reason (d_count d ''consumer_events_total'' ''dead'' w1)))"

definition live_frame :: "envelope \<Rightarrow> vehicle_position \<Rightarrow> frame" where
  "live_frame env pos =
     \<lparr>f_event_id = event_id env, f_vehicle_id = vehicle_id pos, f_route_id = route_id pos,
      f_lat = lat pos, f_lon = lon pos, f_speed_kph = speed_kph pos,
      f_bearing_deg = bearing_deg pos, f_event_ts = event_ts pos, f_sequence = sequence pos\<rparr>"

definition publish :: "'w deps \<Rightarrow> envelope \<Rightarrow> vehicle_position \<Rightarrow> 'w \<Rightarrow> 'w" where
  "publish d env pos w =
     (case d_publish d of
        None \<Rightarrow> w
      | Some pub \<Rightarrow>
          (case pub (live_frame env pos) w of
             (Inl e, w1) \<Rightarrow> d_count d ''fanout_events_total'' ''failed'' w1
           | (Inr n, w1) \<Rightarrow>
               if n = 0 then d_count d ''fanout_events_total'' ''no_subscribers'' w1
               else d_count d ''fanout_events_total'' ''published'' w1))"

definition after_apply :: "'w deps \<Rightarrow> envelope \<Rightarrow> vehicle_position \<Rightarrow> outcome \<Rightarrow> 'w \<Rightarrow> 'w" where
  "after_apply d env pos out w =
     (case out of
        OutcomeApplied \<Rightarrow> publish d env pos (d_count d ''consumer_events_total'' ''applied'' w)
      | OutcomeDuplicate \<Rightarrow> d_count d ''consumer_events_total'' ''duplicate'' w
      | OutcomeLate \<Rightarrow> publish d env pos (d_count d ''consumer_events_total'' ''late'' w))"

definition input_of :: "envelope \<Rightarrow> vehicle_position \<Rightarrow> krecord \<Rightarrow> input" where
  "input_of env pos r =
     \<lparr>i_envelope = env, i_position = pos, i_partition = kr_partition r, i_offset = kr_offset r\<rparr>"

text \<open>The loop of \<open>processOne\<close>; \<open>attempts\<close> is the count before the iteration.\<close>

function apply_loop ::
  "options \<Rightarrow> texts \<Rightarrow> 'w deps \<Rightarrow> envelope \<Rightarrow> vehicle_position \<Rightarrow> krecord \<Rightarrow> int \<Rightarrow> 'w \<Rightarrow> bool \<times> 'w" where
  "apply_loop c t d env pos r attempts w =
     (let n = attempts + 1 in
      case d_apply d (input_of env pos r) w of
        (Inr out, w1) \<Rightarrow> (True, after_apply d env pos out w1)
      | (Inl e, w1) \<Rightarrow>
          if isPermanent e then refuse t d r (event_id env) ''decode'' n (CauseSink e) w1
          else if n > op_max_retries c then
            refuse t d r (event_id env) ''retries_exhausted'' n (CauseSink e) w1
          else
            (case d_wait d (backoff c n) (d_count d ''consumer_retries_total'' ''transient'' w1) of
               (False, w2) \<Rightarrow> (False, w2)
             | (True, w2) \<Rightarrow> apply_loop c t d env pos r n w2))"
  by auto

termination
  by (relation "measure (\<lambda>(c, t, d, env, pos, r, attempts, w). nat (op_max_retries c - attempts))") auto

declare apply_loop.simps [simp del]

definition processOne ::
  "options \<Rightarrow> lib \<Rightarrow> texts \<Rightarrow> 'w deps \<Rightarrow> krecord \<Rightarrow> 'w \<Rightarrow> bool \<times> 'w" where
  "processOne c l t d r w =
     (case Decode l (case kr_value r of None \<Rightarrow> [] | Some v \<Rightarrow> v) of
        Inl err \<Rightarrow> refuse t d r (positionID t r) ''decode'' 0 (CauseEvent err) w
      | Inr env \<Rightarrow>
          if \<not> IsKnownEventType env then
            refuse t d r (event_id env) ''unknown_version'' 0
              (CauseUnknownType (event_type env) (schema_version env)) w
          else
            (case AsVehiclePosition l env of
               Inl err \<Rightarrow> refuse t d r (event_id env) ''decode'' 0 (CauseEvent err) w
             | Inr pos \<Rightarrow> apply_loop c t d env pos r 0 w))"

section \<open>One batch\<close>

text \<open>The records of one partition, up to the first that is not finished with; the last good one.\<close>

fun run_group ::
  "options \<Rightarrow> lib \<Rightarrow> texts \<Rightarrow> 'w deps \<Rightarrow> krecord list \<Rightarrow> krecord option \<Rightarrow> 'w \<Rightarrow> krecord option \<times> 'w" where
  "run_group c l t d [] lastOK w = (lastOK, w)"
| "run_group c l t d (r # rs) lastOK w =
     (case d_cancelled d w of
        (True, w1) \<Rightarrow> (lastOK, w1)
      | (False, w1) \<Rightarrow>
          (case processOne c l t d r w1 of
             (False, w2) \<Rightarrow> (lastOK, w2)
           | (True, w2) \<Rightarrow> run_group c l t d rs (Some r) w2))"

definition partitions_of :: "krecord list \<Rightarrow> int list" where
  "partitions_of rs = sort (remdups (map kr_partition rs))"

definition group_of :: "int \<Rightarrow> krecord list \<Rightarrow> krecord list" where
  "group_of p rs = sort_key kr_offset (filter (\<lambda>r. kr_partition r = p) rs)"

definition run_partition ::
  "options \<Rightarrow> lib \<Rightarrow> texts \<Rightarrow> 'w deps \<Rightarrow> krecord list \<Rightarrow> 'w \<Rightarrow> 'w" where
  "run_partition c l t d grp w =
     (case run_group c l t d grp None w of
        (None, w1) \<Rightarrow> w1
      | (Some r, w1) \<Rightarrow> snd (d_commit d r w1))"

definition processBatch ::
  "options \<Rightarrow> lib \<Rightarrow> texts \<Rightarrow> 'w deps \<Rightarrow> krecord list \<Rightarrow> 'w \<Rightarrow> 'w" where
  "processBatch c l t d rs w =
     fold (\<lambda>p w. run_partition c l t d (group_of p rs) w) (partitions_of rs) w"

section \<open>The poll loop\<close>

text \<open>What one \<open>PollRecords\<close> hands out: records, and whether the client was closed.\<close>

record poll =
  po_records :: "krecord list"
  po_closed :: bool

datatype run_end = Returned | Polling

text \<open>
  \<open>Run\<close> on the polls the client answers with. The loop only ends by returning; on a finite list
  \<open>Polling\<close> says that it waits for the next answer.
\<close>

fun Run ::
  "options \<Rightarrow> lib \<Rightarrow> texts \<Rightarrow> 'w deps \<Rightarrow> poll list \<Rightarrow> 'w \<Rightarrow> run_end \<times> 'w" where
  "Run c l t d [] w =
     (case d_cancelled d w of (stop, w1) \<Rightarrow> (if stop then Returned else Polling, w1))"
| "Run c l t d (p # ps) w =
     (case d_cancelled d w of
        (True, w1) \<Rightarrow> (Returned, w1)
      | (False, w1) \<Rightarrow>
          let w2 = (if length (po_records p) > 0 then processBatch c l t d (po_records p) w1 else w1);
              w3 = d_allow_rebalance d w2 in
          if po_closed p then (Returned, w3)
          else (case d_cancelled d w3 of
                  (True, w4) \<Rightarrow> (Returned, w4)
                | (False, w4) \<Rightarrow> Run c l t d ps w4))"

end
