(* ===== verification/Consumer_Ports.thy ===== *)
theory Consumer_Ports
  imports Consumer
begin

text \<open>
  The contract of what the consumer calls, as a locale, and the consumer's correctness proved once
  from it: a record reported as finished with is applied or refused durably, and a batch commits
  only such records. \<open>Consumer_Live\<close> interprets the locale on the modelled sink, dead-letter
  sink and publisher.
\<close>

definition value_of :: "krecord \<Rightarrow> bytes" where
  "value_of r = (case kr_value r of None \<Rightarrow> [] | Some v \<Rightarrow> v)"

text \<open>
  A record is settled when the event it carries is in the sink or a dead letter that carries its
  bytes and its position is recorded.
\<close>

definition settled ::
  "lib \<Rightarrow> (input \<Rightarrow> 'w \<Rightarrow> bool) \<Rightarrow> (dead_letter \<Rightarrow> 'w \<Rightarrow> bool) \<Rightarrow> krecord \<Rightarrow> 'w \<Rightarrow> bool" where
  "settled l applied dead r w \<longleftrightarrow>
     (\<exists>env pos. Decode l (value_of r) = Inr env \<and> IsKnownEventType env \<and>
        AsVehiclePosition l env = Inr pos \<and> applied (input_of env pos r) w) \<or>
     (\<exists>dl. dl_payload dl = kr_value r \<and> dl_key dl = kr_key r \<and> dl_topic dl = kr_topic r \<and>
        dl_partition dl = kr_partition r \<and> dl_offset dl = kr_offset r \<and> dead dl w)"

locale consumer_ports =
  fixes d :: "'w deps"
    and good :: "'w \<Rightarrow> bool"
    and le :: "'w \<Rightarrow> 'w \<Rightarrow> bool"
    and applied :: "input \<Rightarrow> 'w \<Rightarrow> bool"
    and dead :: "dead_letter \<Rightarrow> 'w \<Rightarrow> bool"
    and commits :: "'w \<Rightarrow> krecord list"
  assumes le_refl: "le w w"
    and le_trans: "le w w' \<Longrightarrow> le w' w'' \<Longrightarrow> le w w''"
    and le_good: "le w w' \<Longrightarrow> good w \<Longrightarrow> good w'"
    and le_applied: "le w w' \<Longrightarrow> applied i w \<Longrightarrow> applied i w'"
    and le_dead: "le w w' \<Longrightarrow> dead dl w \<Longrightarrow> dead dl w'"
    and cancelled_quiet: "d_cancelled d w = (b, w') \<Longrightarrow> le w w' \<and> commits w' = commits w"
    and apply_quiet: "d_apply d i w = (r, w') \<Longrightarrow> le w w' \<and> commits w' = commits w"
    and dead_quiet: "d_dead d dl w = (e, w') \<Longrightarrow> le w w' \<and> commits w' = commits w"
    and publish_quiet: "d_publish d = Some pub \<Longrightarrow> pub f w = (n, w') \<Longrightarrow> le w w' \<and> commits w' = commits w"
    and wait_quiet: "d_wait d t w = (b, w') \<Longrightarrow> le w w' \<and> commits w' = commits w"
    and rebalance_quiet: "le w (d_allow_rebalance d w) \<and> commits (d_allow_rebalance d w) = commits w"
    and count_quiet: "le w (d_count d m x w) \<and> commits (d_count d m x w) = commits w"
    and commit_le: "d_commit d k w = (ce, w') \<Longrightarrow> le w w'"
    and commit_adds: "d_commit d k w = (ce, w') \<Longrightarrow> commits w' = commits w \<or> commits w' = commits w @ [k]"
    and apply_success: "good w \<Longrightarrow> d_apply d i w = (Inr out, w') \<Longrightarrow> applied i w'"
    and dead_success: "good w \<Longrightarrow> d_dead d dl w = (None, w') \<Longrightarrow> dead dl w'"
begin

lemma quiet_trans:
  "le w w' \<and> commits w' = commits w \<Longrightarrow> le w' w'' \<and> commits w'' = commits w' \<Longrightarrow>
   le w w'' \<and> commits w'' = commits w"
  by (auto intro: le_trans)

lemma settled_le: "settled l applied dead r w \<Longrightarrow> le w w' \<Longrightarrow> settled l applied dead r w'"
  unfolding settled_def by (blast intro: le_applied le_dead)

lemma refuse_spec:
  assumes "good w" and "refuse t d r eid reason n cause w = (b, w')"
  shows "le w w' \<and> commits w' = commits w \<and> (b \<longrightarrow> settled l applied dead r w')"
proof -
  let ?dl = "\<lparr>dl_event_id = eid, dl_key = kr_key r, dl_payload = kr_value r,
      dl_error = show_cause t cause, dl_reason = reason, dl_attempts = n,
      dl_topic = kr_topic r, dl_partition = kr_partition r, dl_offset = kr_offset r, dl_first_seen = 0\<rparr>"
  obtain e w1 where d: "d_dead d ?dl w = (e, w1)" by fastforce
  note q = dead_quiet [OF d]
  show ?thesis
  proof (cases e)
    case (Some x)
    with d q assms(2) show ?thesis by (simp add: refuse_def)
  next
    case None
    let ?w2 = "d_count d ''consumer_events_total'' ''dead'' w1"
    have w': "b" "w' = d_count d ''dead_letter_total'' reason ?w2"
      using None d assms(2) by (simp_all add: refuse_def)
    have q1: "le w1 w' \<and> commits w' = commits w1"
      unfolding w'(2) by (rule quiet_trans [OF count_quiet count_quiet])
    have "dead ?dl w1" using dead_success [OF assms(1)] d None by simp
    then have "dead ?dl w'" using le_dead q1 by blast
    then have "settled l applied dead r w'"
      unfolding settled_def by (intro disjI2 exI [of _ ?dl]) simp
    with quiet_trans [OF q q1] show ?thesis by blast
  qed
qed

lemma publish_spec: "le w (publish d env pos w) \<and> commits (publish d env pos w) = commits w"
proof (cases "d_publish d")
  case None
  then show ?thesis by (simp add: publish_def le_refl)
next
  case (Some pub)
  obtain n w1 where p: "pub (live_frame env pos) w = (n, w1)" by fastforce
  note q = publish_quiet [OF Some p]
  show ?thesis
    using Some p quiet_trans [OF q count_quiet] by (auto simp: publish_def split: sum.splits)
qed

lemma after_apply_spec: "le w (after_apply d env pos out w) \<and> commits (after_apply d env pos out w) = commits w"
  unfolding after_apply_def
  by (cases out) (simp_all add: count_quiet quiet_trans [OF count_quiet publish_spec])

lemma apply_loop_spec:
  assumes "Decode l (value_of r) = Inr env" "IsKnownEventType env" "AsVehiclePosition l env = Inr pos"
  shows "good w \<Longrightarrow> apply_loop c t d env pos r n w = (b, w') \<Longrightarrow>
    le w w' \<and> commits w' = commits w \<and> (b \<longrightarrow> settled l applied dead r w')"
proof (induction "nat (op_max_retries c - n)" arbitrary: n w rule: less_induct)
  case less
  obtain res w1 where a: "d_apply d (input_of env pos r) w = (res, w1)" by fastforce
  note q = apply_quiet [OF a]
  have good1: "good w1" using le_good q less.prems(1) by blast
  show ?case
  proof (cases res)
    case (Inr out)
    have w': "b" "w' = after_apply d env pos out w1"
      using a Inr less.prems(2) by (simp_all add: apply_loop.simps [of c])
    have "applied (input_of env pos r) w1"
      using apply_success [OF less.prems(1)] a Inr by blast
    then have "settled l applied dead r w1" unfolding settled_def using assms by blast
    with settled_le after_apply_spec quiet_trans [OF q after_apply_spec] w' show ?thesis by blast
  next
    case (Inl e)
    let ?n = "n + 1"
    have eq: "apply_loop c t d env pos r n w =
      (if isPermanent e then refuse t d r (event_id env) ''decode'' ?n (CauseSink e) w1
       else if ?n > op_max_retries c then refuse t d r (event_id env) ''retries_exhausted'' ?n (CauseSink e) w1
       else (case d_wait d (backoff c ?n) (d_count d ''consumer_retries_total'' ''transient'' w1) of
               (False, w2) \<Rightarrow> (False, w2)
             | (True, w2) \<Rightarrow> apply_loop c t d env pos r ?n w2))"
      using a Inl by (simp add: apply_loop.simps [of c t d env pos r n] Let_def)
    show ?thesis
    proof (cases "isPermanent e \<or> ?n > op_max_retries c")
      case True
      then obtain reason where "refuse t d r (event_id env) reason ?n (CauseSink e) w1 = (b, w')"
        using eq less.prems(2) by (metis (full_types))
      from refuse_spec [OF good1 this] q show ?thesis by (metis le_trans)
    next
      case False
      obtain b2 w2 where wt:
        "d_wait d (backoff c ?n) (d_count d ''consumer_retries_total'' ''transient'' w1) = (b2, w2)"
        by fastforce
      note q2 = quiet_trans [OF q quiet_trans [OF count_quiet wait_quiet [OF wt]]]
      show ?thesis
      proof (cases b2)
        case True
        then have "apply_loop c t d env pos r ?n w2 = (b, w')"
          using False eq wt less.prems(2) by auto
        moreover have "good w2" using le_good q2 less.prems(1) by blast
        ultimately have "le w2 w' \<and> commits w' = commits w2 \<and> (b \<longrightarrow> settled l applied dead r w')"
          using False by (intro less.hyps [of ?n]) auto
        with q2 quiet_trans show ?thesis by blast
      next
        case b2: False
        then show ?thesis using False eq wt less.prems(2) q2 by auto
      qed
    qed
  qed
qed

lemma processOne_spec:
  assumes "good w" and "processOne c l t d r w = (b, w')"
  shows "le w w' \<and> commits w' = commits w \<and> (b \<longrightarrow> settled l applied dead r w')"
proof (cases "Decode l (value_of r)")
  case (Inl e)
  with assms(2) refuse_spec [OF assms(1)] show ?thesis by (simp add: processOne_def value_of_def)
next
  case env: (Inr env)
  show ?thesis
  proof (cases "IsKnownEventType env")
    case False
    with env assms(2) refuse_spec [OF assms(1)] show ?thesis
      by (simp add: processOne_def value_of_def)
  next
    case known: True
    show ?thesis
    proof (cases "AsVehiclePosition l env")
      case (Inl e)
      with env known assms(2) refuse_spec [OF assms(1)] show ?thesis
        by (simp add: processOne_def value_of_def)
    next
      case (Inr pos)
      with env known assms(2) apply_loop_spec [OF env known Inr assms(1)] show ?thesis
        by (simp add: processOne_def value_of_def)
    qed
  qed
qed

text \<open>A group stops after some number of records, all of them settled, and reports the last one.\<close>

lemma run_group_spec:
  "good w \<Longrightarrow> run_group c l t d rs ok w = (res, w') \<Longrightarrow>
   le w w' \<and> commits w' = commits w \<and>
   (\<exists>done rest. rs = done @ rest \<and> (\<forall>r \<in> set done. settled l applied dead r w') \<and>
      res = (if done = [] then ok else Some (last done)))"
proof (induction rs arbitrary: ok w)
  case Nil
  then show ?case by (simp add: le_refl)
next
  case (Cons r rs)
  obtain stop w1 where c: "d_cancelled d w = (stop, w1)" by fastforce
  note q1 = cancelled_quiet [OF c]
  have good1: "good w1" using le_good q1 Cons.prems(1) by blast
  show ?case
  proof (cases stop)
    case True
    with c Cons.prems(2) q1 show ?thesis by auto
  next
    case go: False
    obtain b w2 where p: "processOne c l t d r w1 = (b, w2)" by fastforce
    note s = processOne_spec [OF good1 p]
    show ?thesis
    proof (cases b)
      case False
      with go c p Cons.prems(2) s q1 show ?thesis
        by (intro conjI exI [of _ "[]"] exI [of _ "r # rs"]) (auto intro: le_trans)
    next
      case True
      have run: "run_group c l t d rs (Some r) w2 = (res, w')"
        using go True c p Cons.prems(2) by simp
      have "good w2" using le_good s good1 by blast
      from Cons.IH [OF this run] obtain done' rest where IH: "le w2 w'" "commits w' = commits w2"
        "rs = done' @ rest" "\<forall>x \<in> set done'. settled l applied dead x w'"
        "res = (if done' = [] then Some r else Some (last done'))" by blast
      have "settled l applied dead r w'" using s True IH(1) settled_le by blast
      with IH s q1 show ?thesis
        by (intro conjI exI [of _ "r # done'"] exI [of _ rest]) (auto intro: le_trans)
    qed
  qed
qed

lemma run_partition_spec:
  assumes "good w" and "w' = run_partition c l t d grp w" and "sorted (map kr_offset grp)"
  shows "le w w' \<and> (\<exists>new. commits w' = commits w @ new \<and>
    (\<forall>r \<in> set new. r \<in> set grp \<and> (\<forall>r' \<in> set grp. kr_offset r' < kr_offset r \<or> r' = r \<longrightarrow> settled l applied dead r' w')))"
proof -
  obtain res w1 where g: "run_group c l t d grp None w = (res, w1)" by fastforce
  from run_group_spec [OF assms(1) g] obtain done' rest where
    s: "le w w1" "commits w1 = commits w" "grp = done' @ rest"
    "\<forall>r \<in> set done'. settled l applied dead r w1" "res = (if done' = [] then None else Some (last done'))"
    by blast
  show ?thesis
  proof (cases "done' = []")
    case True
    with s g assms(2) show ?thesis by (intro conjI exI [of _ "[]"]) (simp_all add: run_partition_def)
  next
    case False
    let ?r = "last done'"
    obtain ce w2 where cm: "d_commit d ?r w1 = (ce, w2)" by fastforce
    have w': "w' = w2" using False s(5) g cm assms(2) by (simp add: run_partition_def)
    have "settled l applied dead r' w2" if r': "r' \<in> set grp" "kr_offset r' < kr_offset ?r \<or> r' = ?r" for r'
    proof -
      have "r' \<in> set done'"
      proof (rule ccontr)
        assume "r' \<notin> set done'"
        then have "r' \<in> set rest" "r' \<noteq> ?r" using r'(1) s(3) False by auto
        moreover have "kr_offset ?r \<le> kr_offset x" if "x \<in> set rest" for x
          using assms(3) that last_in_set [OF False] by (auto simp: s(3) sorted_append)
        ultimately show False using r'(2) by fastforce
      qed
      then show ?thesis using s(4) settled_le commit_le [OF cm] by blast
    qed
    note covered = this
    have r: "?r \<in> set grp" using s(3) False by simp
    have le: "le w w'" unfolding w' by (rule le_trans [OF s(1) commit_le [OF cm]])
    from commit_adds [OF cm] show ?thesis
    proof
      assume "commits w2 = commits w1"
      with le s(2) w' show ?thesis by (intro conjI exI [of _ "[]"]) simp_all
    next
      assume "commits w2 = commits w1 @ [?r]"
      with le s(2) w' r covered show ?thesis by (intro conjI exI [of _ "[?r]"]) simp_all
    qed
  qed
qed

lemma fold_partitions_spec:
  assumes "good w" and "distinct ps"
  shows "le w (fold (\<lambda>p w. run_partition c l t d (group_of p rs) w) ps w) \<and>
    (\<exists>new. commits (fold (\<lambda>p w. run_partition c l t d (group_of p rs) w) ps w) = commits w @ new \<and>
      (\<forall>r \<in> set new. r \<in> set rs \<and> (\<forall>r' \<in> set rs. kr_partition r' = kr_partition r \<and>
         (kr_offset r' < kr_offset r \<or> r' = r) \<longrightarrow>
         settled l applied dead r' (fold (\<lambda>p w. run_partition c l t d (group_of p rs) w) ps w))))"
  using assms
proof (induction ps arbitrary: w)
  case Nil
  then show ?case by (auto intro: le_refl)
next
  case (Cons p ps)
  let ?w1 = "run_partition c l t d (group_of p rs) w"
  let ?w2 = "fold (\<lambda>p w. run_partition c l t d (group_of p rs) w) ps ?w1"
  have "sorted (map kr_offset (group_of p rs))" by (simp add: group_of_def)
  note part = run_partition_spec [OF Cons.prems(1) refl this, of c l t]
  then have one: "le w ?w1" by (rule conjunct1)
  from part [THEN conjunct2] obtain new1 where
    one': "commits ?w1 = commits w @ new1" and
    cov1: "\<forall>r \<in> set new1. r \<in> set (group_of p rs) \<and> (\<forall>r' \<in> set (group_of p rs).
        kr_offset r' < kr_offset r \<or> r' = r \<longrightarrow> settled l applied dead r' ?w1)"
    by (elim exE conjE)
  have "good ?w1" using le_good one Cons.prems(1) by blast
  have "distinct ps" using Cons.prems(2) by simp
  note rest = Cons.IH [OF \<open>good ?w1\<close> this]
  then have two: "le ?w1 ?w2" by (rule conjunct1)
  from rest [THEN conjunct2] obtain new2 where
    two': "commits ?w2 = commits ?w1 @ new2" and
    cov2: "\<forall>r \<in> set new2. r \<in> set rs \<and> (\<forall>r' \<in> set rs. kr_partition r' = kr_partition r \<and>
         (kr_offset r' < kr_offset r \<or> r' = r) \<longrightarrow> settled l applied dead r' ?w2)"
    by (elim exE conjE)
  have grp: "x \<in> set (group_of p rs) \<longleftrightarrow> x \<in> set rs \<and> kr_partition x = p" for x
    by (auto simp: group_of_def)
  have "\<forall>r \<in> set new1. r \<in> set rs \<and> (\<forall>r' \<in> set rs. kr_partition r' = kr_partition r \<and>
         (kr_offset r' < kr_offset r \<or> r' = r) \<longrightarrow> settled l applied dead r' ?w2)"
  proof (intro ballI conjI impI)
    fix r assume "r \<in> set new1"
    with cov1 have r: "r \<in> set (group_of p rs)" by blast
    then show "r \<in> set rs" by (simp add: grp)
    fix r' assume r': "r' \<in> set rs" "kr_partition r' = kr_partition r \<and> (kr_offset r' < kr_offset r \<or> r' = r)"
    then have "r' \<in> set (group_of p rs)" using r by (simp add: grp)
    then have "settled l applied dead r' ?w1" using cov1 \<open>r \<in> set new1\<close> r'(2) by blast
    then show "settled l applied dead r' ?w2" using two by (rule settled_le)
  qed
  with cov2 have "\<forall>r \<in> set (new1 @ new2). r \<in> set rs \<and> (\<forall>r' \<in> set rs. kr_partition r' = kr_partition r \<and>
         (kr_offset r' < kr_offset r \<or> r' = r) \<longrightarrow> settled l applied dead r' ?w2)"
    unfolding set_append ball_Un by (rule conjI [rotated])
  moreover have "commits ?w2 = commits w @ (new1 @ new2)" using one' two' by simp
  ultimately show ?case
    unfolding fold_Cons comp_apply using le_trans [OF one two] by blast
qed

text \<open>
  The guarantee of one batch: whatever it commits is the last of a prefix of the partition's
  records of that batch, all of which are settled.
\<close>

lemma processBatch_spec:
  assumes "good w" and "w' = processBatch c l t d rs w"
  shows "le w w'" and "\<exists>new. commits w' = commits w @ new \<and>
      (\<forall>r \<in> set new. r \<in> set rs \<and> (\<forall>r' \<in> set rs. kr_partition r' = kr_partition r \<and>
         (kr_offset r' < kr_offset r \<or> r' = r) \<longrightarrow> settled l applied dead r' w'))"
  using fold_partitions_spec [OF assms(1), of "partitions_of rs" c l t rs]
  by (simp_all add: assms(2) processBatch_def partitions_of_def)

end

text \<open>
  A second contract on the same interface: a state predicate that every call keeps, where a
  successful \<open>Apply\<close> and what follows it are one step. It then holds after every run.
\<close>

locale consumer_invariant =
  fixes d :: "'w deps"
    and I :: "'w \<Rightarrow> bool"
  assumes cancelled_keeps: "I w \<Longrightarrow> I (snd (d_cancelled d w))"
    and dead_keeps: "I w \<Longrightarrow> I (snd (d_dead d dl w))"
    and wait_keeps: "I w \<Longrightarrow> I (snd (d_wait d t w))"
    and commit_keeps: "I w \<Longrightarrow> I (snd (d_commit d r w))"
    and rebalance_keeps: "I w \<Longrightarrow> I (d_allow_rebalance d w)"
    and count_keeps: "I w \<Longrightarrow> I (d_count d m x w)"
    and apply_fails_keeps: "I w \<Longrightarrow> d_apply d (input_of env pos r) w = (Inl e, w') \<Longrightarrow> I w'"
    and apply_effect_keeps: "I w \<Longrightarrow> d_apply d (input_of env pos r) w = (Inr out, w') \<Longrightarrow>
      I (after_apply d env pos out w')"
begin

lemma refuse_keeps:
  assumes "I w"
  shows "I (snd (refuse t d r eid reason n cause w))"
proof -
  let ?dl = "\<lparr>dl_event_id = eid, dl_key = kr_key r, dl_payload = kr_value r,
      dl_error = show_cause t cause, dl_reason = reason, dl_attempts = n,
      dl_topic = kr_topic r, dl_partition = kr_partition r, dl_offset = kr_offset r, dl_first_seen = 0\<rparr>"
  obtain e w1 where dd: "d_dead d ?dl w = (e, w1)" by fastforce
  with dead_keeps [OF assms, of ?dl] have "I w1" by simp
  with dd show ?thesis by (cases e) (simp_all add: refuse_def count_keeps)
qed

lemma apply_loop_keeps: "I w \<Longrightarrow> I (snd (apply_loop c t d env pos r n w))"
proof (induction "nat (op_max_retries c - n)" arbitrary: n w rule: less_induct)
  case less
  obtain res w1 where a: "d_apply d (input_of env pos r) w = (res, w1)" by fastforce
  show ?case
  proof (cases res)
    case (Inr out)
    with a less.prems show ?thesis
      by (auto simp: apply_loop.simps [of c t d env pos r n w] intro: apply_effect_keeps)
  next
    case (Inl e)
    have I1: "I w1" using apply_fails_keeps a Inl less.prems by blast
    let ?w2 = "d_count d ''consumer_retries_total'' ''transient'' w1"
    obtain b w3 where wt: "d_wait d (backoff c (n + 1)) ?w2 = (b, w3)" by fastforce
    have I3: "I w3" using wait_keeps [OF count_keeps [OF I1]] wt by (metis snd_conv)
    have "n + 1 \<le> op_max_retries c \<Longrightarrow> I (snd (apply_loop c t d env pos r (n + 1) w3))"
      using I3 by (intro less.hyps) auto
    then show ?thesis
      using a Inl wt I1 I3
      by (auto simp: apply_loop.simps [of c t d env pos r n w] Let_def intro: refuse_keeps split: bool.splits)
  qed
qed

lemma processOne_keeps: "I w \<Longrightarrow> I (snd (processOne c l t d r w))"
  by (auto simp: processOne_def split: sum.splits intro: refuse_keeps apply_loop_keeps)

lemma run_group_keeps: "I w \<Longrightarrow> I (snd (run_group c l t d rs ok w))"
proof (induction rs arbitrary: ok w)
  case (Cons r rs)
  have 1: "I (snd (d_cancelled d w))" by (rule cancelled_keeps [OF Cons.prems])
  have 2: "I (snd (processOne c l t d r (snd (d_cancelled d w))))" by (rule processOne_keeps [OF 1])
  show ?case
    using 1 2 Cons.IH [OF 2] by (auto split: prod.splits bool.splits)
qed simp

lemma run_partition_keeps: "I w \<Longrightarrow> I (run_partition c l t d grp w)"
  using run_group_keeps [of w c l t grp None]
  by (auto simp: run_partition_def split: prod.splits option.splits intro: commit_keeps)

lemma processBatch_keeps: "I w \<Longrightarrow> I (processBatch c l t d rs w)"
proof -
  have "I w \<Longrightarrow> I (fold (\<lambda>p w. run_partition c l t d (group_of p rs) w) ps w)" for ps
    by (induction ps arbitrary: w) (auto intro: run_partition_keeps)
  then show "I w \<Longrightarrow> I (processBatch c l t d rs w)" by (simp add: processBatch_def)
qed

lemma Run_keeps: "I w \<Longrightarrow> I (snd (Run c l t d ps w))"
proof (induction ps arbitrary: w)
  case Nil
  then show ?case using cancelled_keeps [OF Nil] by (cases "d_cancelled d w") simp
next
  case (Cons p ps)
  have 1: "I (snd (d_cancelled d w))" by (rule cancelled_keeps [OF Cons.prems])
  let ?w2 = "if length (po_records p) > 0 then processBatch c l t d (po_records p) (snd (d_cancelled d w))
      else snd (d_cancelled d w)"
  have 2: "I (d_allow_rebalance d ?w2)" using 1 by (auto intro: rebalance_keeps processBatch_keeps)
  have 3: "I (snd (d_cancelled d (d_allow_rebalance d ?w2)))" by (rule cancelled_keeps [OF 2])
  show ?case
    using 1 2 3 Cons.IH [OF 3] by (auto simp: Let_def split: prod.splits bool.splits if_splits)
qed

end

end
