(* ===== verification/Consumer_Live.thy ===== *)
theory Consumer_Live
  imports Consumer_Ports
begin

text \<open>
  The consumer on the modelled components. A \<open>world\<close> is the database, the dead-letter topic, the
  frames Redis accepted, the offsets committed and the counters; \<open>environ\<close> fixes what happens
  around each call: faults and clock of each transaction, acknowledgements, Redis replies, commit
  answers, cancellation and timers, each indexed by the number of calls made before it, so that
  every behaviour of the outside is some environment.
\<close>

datatype commit_reply = CommitOk | CommitRefused string | CommitAckLost string

record environ =
  e_tx :: "nat \<Rightarrow> tx_env"
  e_ack :: "nat \<Rightarrow> nat \<Rightarrow> rec_ack"
  e_redis :: "nat \<Rightarrow> unit + nat"
  e_commit :: "nat \<Rightarrow> commit_reply"
  e_cancelled :: "nat \<Rightarrow> bool"
  e_elapsed :: "nat \<Rightarrow> bool"

record world =
  w_db :: sink_db
  w_dlq :: "wire_record list"
  w_bus :: "frame list"
  w_commits :: "krecord list"
  w_released :: nat
  w_counts :: "string \<times> string \<Rightarrow> nat"
  w_calls :: nat

definition start_world :: world where
  "start_world = \<lparr>w_db = empty_db, w_dlq = [], w_bus = [], w_commits = [], w_released = 0,
     w_counts = (\<lambda>x. 0), w_calls = 0\<rparr>"

record site =
  s_lib :: lib
  s_pg :: pg_lib
  s_store :: store
  s_dlq :: dlq_sink
  s_pub :: "redis_end option"

definition live_apply :: "site \<Rightarrow> environ \<Rightarrow> input \<Rightarrow> world \<Rightarrow> (sink_error + outcome) \<times> world" where
  "live_apply s e i w =
     (let (r, db) = Apply (s_pg s) (Some (s_store s)) (e_tx e (w_calls w)) i (w_db w)
      in (r, w\<lparr>w_db := db, w_calls := Suc (w_calls w)\<rparr>))"

definition live_dead :: "site \<Rightarrow> environ \<Rightarrow> dead_letter \<Rightarrow> world \<Rightarrow> dl_error option \<times> world" where
  "live_dead s e dl w =
     (let (r, lg, db) = DeadLetter (s_pg s) (s_dlq s) (e_ack e (w_calls w)) (e_tx e (w_calls w)) dl
                          (w_dlq w, w_db w)
      in (r, w\<lparr>w_dlq := lg, w_db := db, w_calls := Suc (w_calls w)\<rparr>))"

definition live_publish :: "site \<Rightarrow> environ \<Rightarrow> frame \<Rightarrow> world \<Rightarrow> (fan_error + nat) \<times> world" where
  "live_publish s e f w =
     (case Publish (s_lib s) (s_pub s) (\<lambda>ch m. e_redis e (w_calls w)) f of
        Inl err \<Rightarrow> (Inl err, w\<lparr>w_calls := Suc (w_calls w)\<rparr>)
      | Inr n \<Rightarrow> (Inr n, w\<lparr>w_bus := w_bus w @ [f], w_calls := Suc (w_calls w)\<rparr>))"

definition live_commit :: "environ \<Rightarrow> krecord \<Rightarrow> world \<Rightarrow> string option \<times> world" where
  "live_commit e r w =
     (let w1 = w\<lparr>w_calls := Suc (w_calls w)\<rparr> in
      case e_commit e (w_calls w) of
        CommitOk \<Rightarrow> (None, w1\<lparr>w_commits := w_commits w @ [r]\<rparr>)
      | CommitRefused m \<Rightarrow> (Some m, w1)
      | CommitAckLost m \<Rightarrow> (Some m, w1\<lparr>w_commits := w_commits w @ [r]\<rparr>))"

definition live_deps :: "site \<Rightarrow> environ \<Rightarrow> world deps" where
  "live_deps s e =
     \<lparr>d_cancelled = (\<lambda>w. (e_cancelled e (w_calls w), w\<lparr>w_calls := Suc (w_calls w)\<rparr>)),
      d_apply = live_apply s e,
      d_dead = live_dead s e,
      d_publish = (case s_pub s of None \<Rightarrow> None | Some p \<Rightarrow> Some (live_publish s e)),
      d_wait = (\<lambda>t w. (e_elapsed e (w_calls w), w\<lparr>w_calls := Suc (w_calls w)\<rparr>)),
      d_commit = live_commit e,
      d_allow_rebalance = (\<lambda>w. w\<lparr>w_released := Suc (w_released w)\<rparr>),
      d_count = (\<lambda>m x w. w\<lparr>w_counts := (w_counts w)((m, x) := Suc (w_counts w (m, x)))\<rparr>)\<rparr>"

section \<open>The contract holds\<close>

definition world_applied :: "site \<Rightarrow> input \<Rightarrow> world \<Rightarrow> bool" where
  "world_applied s i w \<longleftrightarrow>
     (\<exists>u. key_of_input (s_pg s) i = Some u \<and> u \<in> dom (processed_events (w_db w)))"

definition world_dead :: "site \<Rightarrow> dead_letter \<Rightarrow> world \<Rightarrow> bool" where
  "world_dead s dl w \<longleftrightarrow> recorded (s_pg s) (s_dlq s) dl (w_dlq w, w_db w)"

text \<open>\<open>w'\<close> knows all that \<open>w\<close> knows, and its tables are sound if those of \<open>w\<close> are.\<close>

definition world_le :: "world \<Rightarrow> world \<Rightarrow> bool" where
  "world_le w w' \<longleftrightarrow>
     (sink_inv (w_db w) \<longrightarrow> sink_inv (w_db w')) \<and>
     dom (processed_events (w_db w)) \<subseteq> dom (processed_events (w_db w')) \<and>
     set (w_dlq w) \<subseteq> set (w_dlq w') \<and>
     d_event_id ` set (dead_letters (w_db w)) \<subseteq> d_event_id ` set (dead_letters (w_db w'))"

lemma insert_processed_frame:
  "insert_processed pg cid now i db = Inr (n, db') \<Longrightarrow>
   dom (processed_events db) \<subseteq> dom (processed_events db') \<and> dead_letters db' = dead_letters db"
  by (auto simp: insert_processed_def split: option.splits if_splits)

lemma insert_position_frame:
  "insert_position pg now i db = Inr (n, db') \<Longrightarrow>
   processed_events db' = processed_events db \<and> dead_letters db' = dead_letters db"
  by (auto simp: insert_position_def Let_def split: option.splits if_splits)

lemma upsert_current_frame:
  "upsert_current pg now i db = Inr (n, db') \<Longrightarrow>
   processed_events db' = processed_events db \<and> dead_letters db' = dead_letters db"
  by (auto simp: upsert_current_def Let_def split: option.splits if_splits)

lemma upsert_version_frame:
  "upsert_version now i db = Inr (n, db') \<Longrightarrow>
   processed_events db' = processed_events db \<and> dead_letters db' = dead_letters db"
  by (auto simp: upsert_version_def Let_def split: if_splits)

lemmas statement_frames =
  insert_processed_frame insert_position_frame upsert_current_frame upsert_version_frame

lemma apply_body_frame:
  assumes "apply_body pg env cid i db = Inr (out, db')"
  shows "dom (processed_events db) \<subseteq> dom (processed_events db') \<and> dead_letters db' = dead_letters db"
proof -
  from assms obtain n db1 where p: "insert_processed pg cid (tx_now env) i db = Inr (n, db1)"
    by (auto simp: apply_body_def split: sum.splits)
  show ?thesis
  proof (cases "n = 0")
    case True
    with p assms show ?thesis
      by (auto simp: apply_body_def dest!: insert_processed_frame split: sum.splits)
  next
    case False
    with p assms obtain k db2 m db3 j where
      pos: "insert_position pg (tx_now env) i db1 = Inr (k, db2)" and
      cur: "upsert_current pg (tx_now env) i db2 = Inr (m, db3)" and
      ver: "upsert_version (tx_now env) i db3 = Inr (j, db')"
      by (auto simp: apply_body_def split: sum.splits prod.splits)
    show ?thesis
      using insert_processed_frame [OF p] insert_position_frame [OF pos] upsert_current_frame [OF cur]
        upsert_version_frame [OF ver] by simp
  qed
qed

lemma Apply_frame:
  assumes "Apply pg s env i db = (r, db')"
  shows "dom (processed_events db) \<subseteq> dom (processed_events db') \<and> dead_letters db' = dead_letters db"
  using Apply_live [OF assms]
proof
  assume "\<exists>st. s = Some st \<and> st_pool st \<and> InTx env (apply_body pg env (st_consumer_id st) i) db = (r, db')"
  then obtain st :: store where "InTx env (apply_body pg env (st_consumer_id st) i) db = (r, db')" by blast
  then show ?thesis by (cases rule: InTx_cases) (auto dest: apply_body_frame)
qed simp

lemma live_sel [simp]:
  "d_apply (live_deps s e) = live_apply s e" "d_dead (live_deps s e) = live_dead s e"
  "d_commit (live_deps s e) = live_commit e"
  by (simp_all add: live_deps_def)

interpretation live: consumer_ports "live_deps s e" "\<lambda>w. sink_inv (w_db w)" world_le
  "world_applied s" "world_dead s" w_commits for s e
proof
  fix w w' :: world and i :: input and r :: "sink_error + outcome"
  assume eq: "d_apply (live_deps s e) i w = (r, w')"
  obtain r' db where a: "Apply (s_pg s) (Some (s_store s)) (e_tx e (w_calls w)) i (w_db w) = (r', db)"
    by fastforce
  have w': "w' = w\<lparr>w_db := db, w_calls := Suc (w_calls w)\<rparr>"
    using eq a by (simp add: live_apply_def)
  show "world_le w w' \<and> w_commits w' = w_commits w"
    using Apply_frame [OF a] Apply_inv [of "w_db w" "s_pg s" "Some (s_store s)" "e_tx e (w_calls w)" i] a
    by (simp add: w' world_le_def)
next
  fix w w' :: world and i :: input and out
  assume good: "sink_inv (w_db w)" and eq: "d_apply (live_deps s e) i w = (Inr out, w')"
  then show "world_applied s i w'"
    using sink_once.success_applied [OF good, of "s_pg s" "Some (s_store s)" "e_tx e (w_calls w)" i]
    by (auto simp: live_apply_def world_applied_def split: prod.splits)
next
  fix w w' :: world and dl :: dead_letter and r
  assume eq: "d_dead (live_deps s e) dl w = (r, w')"
  obtain r' lg db where a: "DeadLetter (s_pg s) (s_dlq s) (e_ack e (w_calls w)) (e_tx e (w_calls w)) dl
      (w_dlq w, w_db w) = (r', lg, db)"
    by (metis prod.exhaust)
  have w': "w' = w\<lparr>w_dlq := lg, w_db := db, w_calls := Suc (w_calls w)\<rparr>"
    using eq a by (simp add: live_dead_def)
  show "world_le w w' \<and> w_commits w' = w_commits w"
    using DeadLetter_grows [OF a] a
      DeadLetter_inv [of "w_db w" "s_pg s" "s_dlq s" "e_ack e (w_calls w)" "e_tx e (w_calls w)" dl "w_dlq w"]
    by (auto simp: w' world_le_def)
next
  fix w w' :: world and dl :: dead_letter
  assume eq: "d_dead (live_deps s e) dl w = (None, w')"
  then show "world_dead s dl w'"
    by (auto simp: live_dead_def world_dead_def split: prod.splits intro!: DeadLetter_recorded)
next
  fix w w' :: world and dl
  show "world_le w w' \<Longrightarrow> world_dead s dl w \<Longrightarrow> world_dead s dl w'"
    unfolding world_le_def world_dead_def recorded_def fst_conv snd_conv by (meson subsetD)
next
  fix w w' w'' :: world
  show "world_le w w' \<Longrightarrow> world_le w' w'' \<Longrightarrow> world_le w w''"
    unfolding world_le_def by (meson subset_trans)
next
  fix w w' :: world and i
  show "world_le w w' \<Longrightarrow> world_applied s i w \<Longrightarrow> world_applied s i w'"
    unfolding world_le_def world_applied_def by (meson subsetD)
next
  fix w w' :: world and pub f n
  assume "d_publish (live_deps s e) = Some pub" and "pub f w = (n, w')"
  then show "world_le w w' \<and> w_commits w' = w_commits w"
    by (auto simp: live_deps_def live_publish_def world_le_def split: option.splits sum.splits)
qed (auto simp: world_le_def world_applied_def live_deps_def live_commit_def Let_def
    split: commit_reply.splits)

end
