(* ===== verification/Consumer_Props.thy ===== *)
theory Consumer_Props
  imports Consumer_Live
begin

text \<open>
  The properties of the consumer: what a commit covers, no loss under redelivery, what the poll
  loop loses without it, records that can never be finished with, bounded retries and backoff, and
  the live bus.
\<close>

section \<open>A concrete site\<close>

definition sample_texts :: texts where
  "sample_texts = \<lparr>uuid_sha1 = (\<lambda>s. CHR ''u'' # s), show_cause = (\<lambda>c. ''err'')\<rparr>"

definition sample_dlq :: dlq_sink where
  "sample_dlq = \<lparr>dq_pub = True, dq_store = sample_store, dq_topic = ''dlq''\<rparr>"

definition sample_site :: site where
  "sample_site = \<lparr>s_lib = sample_lib, s_pg = sample_pg, s_store = sample_store,
     s_dlq = sample_dlq, s_pub = None\<rparr>"

definition calm_environ :: environ where
  "calm_environ = \<lparr>e_tx = (\<lambda>n. calm 5000), e_ack = (\<lambda>n i. Acked), e_redis = (\<lambda>n. Inr 1),
     e_commit = (\<lambda>n. CommitOk), e_cancelled = (\<lambda>n. False), e_elapsed = (\<lambda>n. True)\<rparr>"

definition sample_options :: options where
  "sample_options = \<lparr>op_topic = ''raw'', op_batch_size = 200, op_max_retries = 5,
     op_backoff_base = 250 * millisecond, op_backoff_max = 30 * second\<rparr>"

definition sample_krecord :: krecord where
  "sample_krecord = \<lparr>kr_topic = ''raw'', kr_partition = 0, kr_offset = 5, kr_key = ''v1'',
     kr_value = Some sample_wire\<rparr>"

definition tombstone :: krecord where
  "tombstone = \<lparr>kr_topic = ''raw'', kr_partition = 0, kr_offset = 4, kr_key = ''v1'', kr_value = None\<rparr>"

lemma sample_scan_Nil: "json_scan sample_lib [] = Incomplete"
  by (simp add: sample_simps)

lemma sample_input_of: "input_of sample_envelope sample_position sample_krecord = sample_input"
  by (simp add: input_of_def sample_krecord_def sample_input_def)

lemma sample_known: "IsKnownEventType sample_envelope"
  by (simp add: IsKnownEventType_def sample_envelope_def EventTypeVehiclePosition_def)

lemma sample_value: "value_of sample_krecord = sample_wire"
  by (simp add: value_of_def sample_krecord_def)

lemma sample_processOne:
  assumes "w_db w = empty_db"
  shows "\<exists>w'. processOne sample_options sample_lib sample_texts (live_deps sample_site calm_environ)
      sample_krecord w = (True, w') \<and> w_db w' = sample_db \<and> w_commits w' = w_commits w \<and> w_dlq w' = w_dlq w"
proof -
  have "processOne sample_options sample_lib sample_texts (live_deps sample_site calm_environ)
      sample_krecord w =
    apply_loop sample_options sample_texts (live_deps sample_site calm_environ)
      sample_envelope sample_position sample_krecord 0 w"
    using sample_value sample_Decode sample_known sample_AsVehiclePosition
    by (simp add: processOne_def value_of_def)
  moreover have "fst (apply_loop sample_options sample_texts (live_deps sample_site calm_environ)
      sample_envelope sample_position sample_krecord 0 w) = True \<and>
    w_db (snd (apply_loop sample_options sample_texts (live_deps sample_site calm_environ)
      sample_envelope sample_position sample_krecord 0 w)) = sample_db \<and>
    w_commits (snd (apply_loop sample_options sample_texts (live_deps sample_site calm_environ)
      sample_envelope sample_position sample_krecord 0 w)) = w_commits w \<and>
    w_dlq (snd (apply_loop sample_options sample_texts (live_deps sample_site calm_environ)
      sample_envelope sample_position sample_krecord 0 w)) = w_dlq w"
    using sample_Apply assms
    by (simp add: apply_loop.simps live_apply_def sample_input_of calm_environ_def
        sample_site_def after_apply_def publish_def live_deps_def)
  ultimately show ?thesis by (metis prod.collapse)
qed

lemma tombstone_stuck:
  "processOne c sample_lib t (live_deps s e) tombstone w =
     (False, w\<lparr>w_calls := Suc (w_calls w)\<rparr>)"
proof -
  have "\<exists>err. Decode sample_lib [] = Inl err"
    using sample_scan_Nil by (auto simp: Decode_def decode_doc_def)
  then show ?thesis
    by (auto simp: processOne_def tombstone_def refuse_def live_dead_def DeadLetter_def Let_def)
qed

lemma calm_cancelled [simp]:
  "d_cancelled (live_deps s calm_environ) w = (False, w\<lparr>w_calls := Suc (w_calls w)\<rparr>)"
  by (simp add: live_deps_def calm_environ_def)

lemma calm_commit [simp]:
  "live_commit calm_environ r w =
     (None, w\<lparr>w_calls := Suc (w_calls w), w_commits := w_commits w @ [r]\<rparr>)"
  by (simp add: live_commit_def calm_environ_def)

lemma d_allow_live: "d_allow_rebalance (live_deps s e) w = w\<lparr>w_released := Suc (w_released w)\<rparr>"
  by (simp add: live_deps_def)

lemma sample_batch:
  assumes "w_db w = empty_db"
  shows "\<exists>w'. processBatch sample_options sample_lib sample_texts (live_deps sample_site calm_environ)
      [sample_krecord] w = w' \<and> w_db w' = sample_db \<and> w_dlq w' = w_dlq w \<and>
      w_commits w' = w_commits w @ [sample_krecord]"
proof -
  have "w_db (w\<lparr>w_calls := Suc (w_calls w)\<rparr>) = empty_db" using assms by simp
  from sample_processOne [OF this] obtain w' where
    p: "processOne sample_options sample_lib sample_texts (live_deps sample_site calm_environ)
      sample_krecord (w\<lparr>w_calls := Suc (w_calls w)\<rparr>) = (True, w')"
      "w_db w' = sample_db" "w_commits w' = w_commits w" "w_dlq w' = w_dlq w" by auto
  then show ?thesis
    by (simp add: processBatch_def partitions_of_def group_of_def run_partition_def)
qed

lemma tombstone_batch:
  "processBatch c sample_lib t (live_deps s calm_environ) [tombstone] w =
     w\<lparr>w_calls := Suc (Suc (w_calls w))\<rparr>"
  by (simp add: processBatch_def partitions_of_def group_of_def run_partition_def tombstone_stuck)

section \<open>Commits\<close>

text \<open>
  C4. A commit covers only finished records: whatever \<open>processBatch\<close> commits is a record of the
  batch, and every record of the batch in its partition up to that offset is in the sink or
  durably dead-lettered (its bytes on the topic, its identifier in the table), under every fault
  of the database, the broker, Redis and the context.
\<close>

theorem commit_covers_settled:
  assumes "sink_inv (w_db w)" and "processBatch c l t (live_deps s e) rs w = w'"
  shows "sink_inv (w_db w') \<and> (\<exists>new. w_commits w' = w_commits w @ new \<and>
    (\<forall>r \<in> set new. r \<in> set rs \<and>
       (\<forall>r' \<in> set rs. kr_partition r' = kr_partition r \<and> (kr_offset r' < kr_offset r \<or> r' = r) \<longrightarrow>
          settled l (world_applied s) (world_dead s) r' w')))"
  using live.processBatch_spec [OF assms(1) assms(2) [symmetric]] live.le_good assms(1) by blast

theorem commit_covers_settled_witness:
  "\<exists>w'. processBatch sample_options sample_lib sample_texts (live_deps sample_site calm_environ)
        [sample_krecord] start_world = w' \<and> w_commits w' = [sample_krecord] \<and>
     settled sample_lib (world_applied sample_site) (world_dead sample_site) sample_krecord w'"
proof -
  have "w_commits (processBatch sample_options sample_lib sample_texts
      (live_deps sample_site calm_environ) [sample_krecord] start_world) = [sample_krecord]"
    using sample_batch [of start_world] by (auto simp: start_world_def)
  moreover have "sink_inv (w_db start_world)" by (simp add: start_world_def sink_inv_empty)
  ultimately show ?thesis
    using commit_covers_settled [of start_world sample_options sample_lib sample_texts sample_site
        calm_environ "[sample_krecord]"]
    by (auto simp: start_world_def)
qed


section \<open>A client that redelivers\<close>

text \<open>
  One batch of a client that starts each partition at its first unfinished record of the log \<open>L\<close>,
  as a consumer does that seeks back, or restarts from its committed offset, after a failure.
\<close>

definition resumes ::
  "lib \<Rightarrow> site \<Rightarrow> krecord list \<Rightarrow> krecord list \<Rightarrow> world \<Rightarrow> bool" where
  "resumes l s L rs w \<longleftrightarrow>
     (\<forall>r \<in> set rs. r \<in> set L \<and>
        (\<forall>r' \<in> set L. kr_partition r' = kr_partition r \<and> kr_offset r' < kr_offset r \<longrightarrow>
           r' \<in> set rs \<or> settled l (world_applied s) (world_dead s) r' w))"

inductive group_step ::
  "options \<Rightarrow> lib \<Rightarrow> texts \<Rightarrow> site \<Rightarrow> krecord list \<Rightarrow> world \<Rightarrow> world \<Rightarrow> bool"
  for c l t s L where
  batch: "resumes l s L rs w \<Longrightarrow> group_step c l t s L w (processBatch c l t (live_deps s e) rs w)"

definition commits_settled :: "lib \<Rightarrow> site \<Rightarrow> krecord list \<Rightarrow> world \<Rightarrow> bool" where
  "commits_settled l s L w \<longleftrightarrow> sink_inv (w_db w) \<and>
     (\<forall>r \<in> set (w_commits w). \<forall>r' \<in> set L.
        kr_partition r' = kr_partition r \<and> (kr_offset r' < kr_offset r \<or> r' = r) \<longrightarrow>
        settled l (world_applied s) (world_dead s) r' w)"

interpretation group_runs: stepwise_invariant "group_step c l t s L" "commits_settled l s L"
  for c l t s L
proof
  fix w w'
  assume inv: "commits_settled l s L w" and "group_step c l t s L w w'"
  from this(2) obtain rs e where rs: "resumes l s L rs w"
    and w': "w' = processBatch c l t (live_deps s e) rs w"
    by (auto elim: group_step.cases)
  have good: "sink_inv (w_db w)" using inv by (simp add: commits_settled_def)
  note le = live.processBatch_spec(1) [OF good w']
  from live.processBatch_spec(2) [OF good w'] obtain new where
    new: "w_commits w' = w_commits w @ new" and
    cov: "\<forall>r \<in> set new. r \<in> set rs \<and> (\<forall>r' \<in> set rs. kr_partition r' = kr_partition r \<and>
       (kr_offset r' < kr_offset r \<or> r' = r) \<longrightarrow> settled l (world_applied s) (world_dead s) r' w')"
    by (elim exE conjE)
  have "settled l (world_applied s) (world_dead s) r' w'"
    if r: "r \<in> set (w_commits w')" and r': "r' \<in> set L"
      "kr_partition r' = kr_partition r" "kr_offset r' < kr_offset r \<or> r' = r" for r r'
  proof -
    from r new consider "r \<in> set (w_commits w)" | "r \<in> set new" by auto
    then show ?thesis
    proof cases
      case 1
      with inv r' have "settled l (world_applied s) (world_dead s) r' w"
        by (simp add: commits_settled_def)
      then show ?thesis by (rule live.settled_le) (rule le)
    next
      case 2
      with cov have "r \<in> set rs" by blast
      with rs r' have "r' \<in> set rs \<or> settled l (world_applied s) (world_dead s) r' w"
        unfolding resumes_def by blast
      then show ?thesis
      proof
        assume "r' \<in> set rs"
        with cov 2 r' show ?thesis by blast
      next
        assume "settled l (world_applied s) (world_dead s) r' w"
        then show ?thesis by (rule live.settled_le) (rule le)
      qed
    qed
  qed
  moreover have "sink_inv (w_db w')" using live.le_good [OF le] good by blast
  ultimately show "commits_settled l s L w'" unfolding commits_settled_def by blast
qed



section \<open>Records that cannot be finished with\<close>

text \<open>
  A record without a value (a tombstone) is never finished with, whatever the components
  answer: it does not decode, and its refusal is refused because it has no bytes to keep. Nothing
  is written for it.
\<close>

lemma tombstone_never_finished:
  assumes "kr_value r = None" and "json_scan l [] = Incomplete"
  shows "processOne c l t (live_deps s e) r w = (False, w\<lparr>w_calls := Suc (w_calls w)\<rparr>)"
proof -
  have "\<exists>err. Decode l [] = Inl err"
    using assms(2) by (auto simp: Decode_def decode_doc_def)
  then show ?thesis
    using assms(1) by (auto simp: processOne_def refuse_def live_dead_def DeadLetter_def Let_def)
qed

lemma Apply_no_uuid:
  assumes "pg_uuid pg (event_id (i_envelope i)) = None"
  shows "\<exists>e. Apply pg s env i db = (Inl e, db)"
proof (cases "Apply pg s env i db")
  case (Pair r db')
  from Apply_live [OF this] show ?thesis
  proof
    assume "\<exists>st. s = Some st \<and> st_pool st \<and> InTx env (apply_body pg env (st_consumer_id st) i) db = (r, db')"
    then obtain st :: store where "InTx env (apply_body pg env (st_consumer_id st) i) db = (r, db')" by blast
    then show ?thesis
    proof (cases rule: InTx_cases)
      case (committed x)
      with assms show ?thesis
        by (auto simp: apply_body_def insert_processed_def Exec_def split: option.splits)
    qed (simp add: Pair)
  qed (auto simp: Pair)
qed

lemma refuse_no_uuid:
  assumes "pg_uuid (s_pg s) eid = None"
  shows "fst (refuse t (live_deps s e) r eid reason n cause w) = False"
proof -
  let ?dl = "\<lparr>dl_event_id = eid, dl_key = kr_key r, dl_payload = kr_value r,
      dl_error = show_cause t cause, dl_reason = reason, dl_attempts = n,
      dl_topic = kr_topic r, dl_partition = kr_partition r, dl_offset = kr_offset r, dl_first_seen = 0\<rparr>"
  obtain x lg db where d: "DeadLetter (s_pg s) (s_dlq s) (e_ack e (w_calls w)) (e_tx e (w_calls w)) ?dl
      (w_dlq w, w_db w) = (x, lg, db)" by (metis prod.exhaust)
  have "x \<noteq> None"
  proof
    assume "x = None"
    with d have "recorded (s_pg s) (s_dlq s) ?dl (lg, db)" by (intro DeadLetter_recorded) simp
    with assms show False by (simp add: recorded_def)
  qed
  with d show ?thesis by (auto simp: refuse_def live_dead_def)
qed

lemma apply_loop_no_uuid:
  assumes "pg_uuid (s_pg s) (event_id env) = None"
  shows "fst (apply_loop c t (live_deps s e) env pos r n w) = False"
proof (induction "nat (op_max_retries c - n)" arbitrary: n w rule: less_induct)
  case less
  obtain err w1 where a: "live_apply s e (input_of env pos r) w = (Inl err, w1)"
    using Apply_no_uuid [of "s_pg s" "input_of env pos r" "Some (s_store s)" "e_tx e (w_calls w)" "w_db w"] assms
    by (auto simp: live_apply_def input_of_def)
  show ?case
    using a refuse_no_uuid [OF assms] less.hyps [of "n + 1"]
    by (auto simp: apply_loop.simps [of c t "live_deps s e" env pos r n w] Let_def split: prod.splits bool.splits)
qed



section \<open>Retries\<close>

lemma backoff_loop_min:
  "0 < d \<Longrightarrow> mx \<le> 2 ^ 62 \<Longrightarrow> min mx (backoff_loop n mx d) = min mx (d * 2 ^ n)"
proof (induction n arbitrary: d)
  case (Suc n)
  show ?case
  proof (cases "d < mx")
    case True
    with Suc.prems have "wrap64 (d * 2) = d * 2" by (intro wrap64_id) simp_all
    with True Suc.IH [of "d * 2"] Suc.prems show ?thesis by (simp add: mult.assoc)
  next
    case False
    have "(1::int) \<le> 2 ^ Suc n" by (rule one_le_power) simp
    then have "d * 1 \<le> d * 2 ^ Suc n" using Suc.prems(1) by (intro mult_left_mono) simp_all
    with False show ?thesis by simp
  qed
qed simp

text \<open>
  The delay before attempt \<open>n + 1\<close> is the base doubled \<open>n - 1\<close> times, capped at the maximum:
  the loop of \<open>backoff\<close> does not overflow for any cap up to \<open>2 ^ 62\<close> nanoseconds (146 years).
\<close>

lemma backoff_exponential:
  assumes "0 < op_backoff_base c" and "op_backoff_max c \<le> 2 ^ 62"
  shows "backoff c n = min (op_backoff_max c) (op_backoff_base c * 2 ^ nat (n - 1))"
  using backoff_loop_min [OF assms, of "nat (n - 1)"]
  by (auto simp: backoff_def Let_def min_def split: if_splits)

lemma refuse_calls:
  "w_calls (snd (refuse t (live_deps s e) r eid reason n cause w)) = Suc (w_calls w)"
  by (auto simp: refuse_def live_dead_def live_deps_def Let_def split: prod.splits option.splits)

lemma after_apply_calls:
  "w_calls (after_apply (live_deps s e) env pos out w) \<le> Suc (w_calls w)"
  by (auto simp: after_apply_def publish_def live_deps_def live_publish_def
      split: outcome.splits option.splits sum.splits)

lemma apply_loop_calls:
  "w_calls (snd (apply_loop c t (live_deps s e) env pos r n w)) \<le>
     w_calls w + 2 * nat (op_max_retries c - n) + 2"
proof (induction "nat (op_max_retries c - n)" arbitrary: n w rule: less_induct)
  case less
  obtain res w1 where a: "live_apply s e (input_of env pos r) w = (res, w1)" by fastforce
  then have w1: "w_calls w1 = Suc (w_calls w)" by (auto simp: live_apply_def split: prod.splits)
  show ?case
  proof (cases res)
    case (Inr out)
    with a w1 after_apply_calls [of s e env pos out w1] show ?thesis
      by (simp add: apply_loop.simps [of c t "live_deps s e" env pos r n w])
  next
    case (Inl err)
    let ?w2 = "d_count (live_deps s e) ''consumer_retries_total'' ''transient'' w1"
    have w2: "w_calls ?w2 = Suc (w_calls w)" by (simp add: live_deps_def w1)
    obtain b w3 where wt: "d_wait (live_deps s e) (backoff c (n + 1)) ?w2 = (b, w3)" by fastforce
    then have w3: "w_calls w3 = Suc (Suc (w_calls w))" using w2 by (auto simp: live_deps_def)
    have "w_calls (snd (apply_loop c t (live_deps s e) env pos r (n + 1) w3)) \<le>
        w_calls w + 2 * nat (op_max_retries c - n) + 2" if "n + 1 \<le> op_max_retries c"
      using less.hyps [of "n + 1" w3] that w3 by auto
    then show ?thesis
      using a Inl wt w1 w3 refuse_calls [of t s e r _ _ _ _ w1]
      by (cases b) (auto simp: apply_loop.simps [of c t "live_deps s e" env pos r n w] Let_def)
  qed
qed

text \<open>
  C18. A record is finished with, or given up for redelivery, after a bounded number of steps: under
  every behaviour of the outside, \<open>processOne\<close> returns after at most \<open>2 * MaxRetries + 2\<close> calls
  (an \<open>Apply\<close> and a wait per retry, the last \<open>Apply\<close>, and one publish or refusal).
\<close>

theorem processOne_bounded:
  "w_calls (snd (processOne c l t (live_deps s e) r w)) \<le> w_calls w + 2 * nat (op_max_retries c) + 2"
  using apply_loop_calls [of c t s e _ _ r 0 w]
  by (auto simp: processOne_def refuse_calls split: sum.splits)

section \<open>The live bus\<close>

text \<open>
  Every frame on the bus has its row in the history, with the same vehicle, route and place, and
  no event is on the bus twice.
\<close>

definition bus_ok :: "site \<Rightarrow> world \<Rightarrow> bool" where
  "bus_ok s w \<longleftrightarrow> sink_inv (w_db w) \<and>
     distinct (map (\<lambda>f. pg_uuid (s_pg s) (f_event_id f)) (w_bus w)) \<and>
     (\<forall>f \<in> set (w_bus w). \<exists>r \<in> set (vehicle_positions (w_db w)).
        pg_uuid (s_pg s) (f_event_id f) = Some (r_event_id r) \<and> f_vehicle_id f = r_vehicle_id r \<and>
        f_route_id f = r_route_id r \<and> f_lat f = r_lat r \<and> f_lon f = r_lon r \<and>
        usec (f_event_ts f) = r_event_ts r)"

lemma bus_ok_cong:
  "w_bus w' = w_bus w \<Longrightarrow> vehicle_positions (w_db w') = vehicle_positions (w_db w) \<Longrightarrow>
   sink_inv (w_db w') \<Longrightarrow> bus_ok s w \<Longrightarrow> bus_ok s w'"
  by (simp add: bus_ok_def)

lemma bus_ok_fresh:
  assumes ok: "bus_ok s w" and new: "u \<notin> dom (processed_events (w_db w))"
    and key: "key_of_input (s_pg s) (input_of env pos r) = Some u"
    and db': "w_db w' = apply_effect (s_pg s) cid now (input_of env pos r) u (w_db w)"
    and inv: "sink_inv (w_db w')"
    and bus: "w_bus w' = w_bus w \<or> w_bus w' = w_bus w @ [live_frame env pos]"
  shows "bus_ok s w'"
proof -
  let ?row = "position_row_of (s_pg s) u now (input_of env pos r)"
  have "sink_inv (w_db w)" using ok by (simp add: bus_ok_def)
  then have "u \<notin> r_event_id ` set (vehicle_positions (w_db w))"
    using new sink_invD(2) by blast
  then have "Some u \<notin> (\<lambda>f. pg_uuid (s_pg s) (f_event_id f)) ` set (w_bus w)"
    using ok by (fastforce simp: bus_ok_def)
  moreover have "vehicle_positions (w_db w') = vehicle_positions (w_db w) @ [?row]"
    by (simp add: db' apply_effect_def)
  moreover have "pg_uuid (s_pg s) (f_event_id (live_frame env pos)) = Some u"
    using key by (simp add: key_of_input_def input_of_def live_frame_def)
  moreover have "f_vehicle_id (live_frame env pos) = r_vehicle_id ?row"
    "f_route_id (live_frame env pos) = r_route_id ?row" "f_lat (live_frame env pos) = r_lat ?row"
    "f_lon (live_frame env pos) = r_lon ?row" "usec (f_event_ts (live_frame env pos)) = r_event_ts ?row"
    by (simp_all add: live_frame_def input_of_def position_row_of_def Let_def)
  ultimately show ?thesis
    using ok inv bus by (auto simp: bus_ok_def)
qed

lemma live_bus_apply:
  assumes ok: "bus_ok s w" and a: "live_apply s e (input_of env pos r) w = (res, w1)"
  shows "(\<forall>err. res = Inl err \<longrightarrow> bus_ok s w1) \<and>
    (\<forall>out. res = Inr out \<longrightarrow> bus_ok s (after_apply (live_deps s e) env pos out w1))"
proof -
  obtain db where ap: "Apply (s_pg s) (Some (s_store s)) (e_tx e (w_calls w)) (input_of env pos r) (w_db w) = (res, db)"
    and w1: "w1 = w\<lparr>w_db := db, w_calls := Suc (w_calls w)\<rparr>"
    using a by (auto simp: live_apply_def split: prod.splits)
  have inv: "sink_inv (w_db w)" using ok by (simp add: bus_ok_def)
  have invdb: "sink_inv db"
    using Apply_inv [OF inv, of "s_pg s" "Some (s_store s)" "e_tx e (w_calls w)" "input_of env pos r"] ap by simp
  have after: "w_db (after_apply (live_deps s e) env pos out w1) = db"
    "w_bus (after_apply (live_deps s e) env pos out w1) = w_bus w \<or>
     out \<noteq> OutcomeDuplicate \<and> w_bus (after_apply (live_deps s e) env pos out w1) = w_bus w @ [live_frame env pos]"
    for out
    by (auto simp: w1 after_apply_def publish_def live_deps_def live_publish_def
        split: outcome.splits option.splits sum.splits)
  from inv ap show ?thesis
  proof (cases rule: Apply_cases)
    case (unchanged err)
    have "bus_ok s w1" by (rule bus_ok_cong [OF _ _ _ ok]) (simp_all add: w1 unchanged inv)
    with unchanged show ?thesis by simp
  next
    case (duplicate u)
    have "bus_ok s w1" by (rule bus_ok_cong [OF _ _ _ ok]) (simp_all add: w1 duplicate inv)
    moreover have "bus_ok s (after_apply (live_deps s e) env pos OutcomeDuplicate w1)"
      by (rule bus_ok_cong [OF _ _ _ ok])
        (use after [of OutcomeDuplicate] duplicate(3) inv in auto)
    ultimately show ?thesis using duplicate(4) by auto
  next
    case (effect u st)
    note fresh = bus_ok_fresh [OF ok effect(2) effect(1), of _ "st_consumer_id st" "tx_now (e_tx e (w_calls w))"]
    have "bus_ok s w1" by (rule fresh) (simp_all add: w1 effect(6) [symmetric] invdb)
    moreover have "bus_ok s (after_apply (live_deps s e) env pos out w1)" for out
      by (rule fresh) (use after [of out] invdb effect(6) in auto)
    ultimately show ?thesis by blast
  qed
qed

interpretation bus: consumer_invariant "live_deps s e" "bus_ok s" for s e
proof
  fix w :: world and dl
  assume ok: "bus_ok s w"
  obtain x lg db where d: "DeadLetter (s_pg s) (s_dlq s) (e_ack e (w_calls w)) (e_tx e (w_calls w)) dl
      (w_dlq w, w_db w) = (x, lg, db)" by (metis prod.exhaust)
  have "sink_inv db"
    using DeadLetter_inv [of "w_db w" "s_pg s" "s_dlq s" "e_ack e (w_calls w)" "e_tx e (w_calls w)" dl "w_dlq w"]
      d ok by (simp add: bus_ok_def)
  with DeadLetter_grows [OF d] d show "bus_ok s (snd (d_dead (live_deps s e) dl w))"
    by (intro bus_ok_cong [OF _ _ _ ok]) (simp_all add: live_dead_def)
next
  fix w w' :: world and env pos r err
  show "bus_ok s w \<Longrightarrow> d_apply (live_deps s e) (input_of env pos r) w = (Inl err, w') \<Longrightarrow> bus_ok s w'"
    using live_bus_apply by fastforce
next
  fix w w' :: world and env pos r out
  show "bus_ok s w \<Longrightarrow> d_apply (live_deps s e) (input_of env pos r) w = (Inr out, w') \<Longrightarrow>
      bus_ok s (after_apply (live_deps s e) env pos out w')"
    using live_bus_apply by fastforce
qed (auto simp: live_deps_def live_commit_def bus_ok_def Let_def split: commit_reply.splits)

text \<open>
  C11. The live bus: over any polls and any faults, a frame is published only for an event whose
  row is already in the history, with that row's vehicle, route and place, and no event is
  published twice, however often its record is delivered.
\<close>

theorem bus_durable_and_once:
  assumes "Run c l t (live_deps s e) ps start_world = (res, w)"
  shows "distinct (map (\<lambda>f. pg_uuid (s_pg s) (f_event_id f)) (w_bus w)) \<and>
    (\<forall>f \<in> set (w_bus w). \<exists>r \<in> set (vehicle_positions (w_db w)).
        pg_uuid (s_pg s) (f_event_id f) = Some (r_event_id r) \<and> f_vehicle_id f = r_vehicle_id r \<and>
        f_route_id f = r_route_id r \<and> f_lat f = r_lat r \<and> f_lon f = r_lon r \<and>
        usec (f_event_ts f) = r_event_ts r)"
proof -
  have "bus_ok s start_world" by (simp add: bus_ok_def start_world_def sink_inv_empty)
  from bus.Run_keeps [OF this, of c l t e ps] assms show ?thesis by (simp add: bus_ok_def)
qed

definition live_site :: site where
  "live_site = sample_site\<lparr>s_pub := Some \<lparr>re_client = True, re_channel = ''ch''\<rparr>\<rparr>"

lemma sample_publish:
  "live_publish live_site calm_environ (live_frame sample_envelope sample_position) w =
     (Inr 1, w\<lparr>w_bus := w_bus w @ [live_frame sample_envelope sample_position],
               w_calls := Suc (w_calls w)\<rparr>)"
proof -
  have "\<exists>m. marshal_frame sample_lib (live_frame sample_envelope sample_position) = Some m"
    by (simp add: marshal_frame_def frame_members_def live_frame_def sample_eval text_float_def
        text_time_def member_float_ptr_def)
  then show ?thesis
    by (auto simp: live_publish_def Publish_def live_site_def sample_site_def calm_environ_def
        frame_validate_def live_frame_def sample_envelope_def sample_position_def sample_id_def)
qed

lemma live_processOne:
  assumes "w_db w = empty_db"
  shows "\<exists>w'. processOne sample_options sample_lib sample_texts (live_deps live_site calm_environ)
      sample_krecord w = (True, w') \<and> w_db w' = sample_db \<and>
      w_bus w' = w_bus w @ [live_frame sample_envelope sample_position]"
proof -
  have a: "live_apply live_site calm_environ sample_input w =
      (Inr OutcomeApplied, w\<lparr>w_db := sample_db, w_calls := Suc (w_calls w)\<rparr>)"
    using sample_Apply assms
    by (simp add: live_apply_def live_site_def sample_site_def calm_environ_def)
  have p: "d_publish (live_deps live_site calm_environ) = Some (live_publish live_site calm_environ)"
    by (simp add: live_deps_def live_site_def)
  have "processOne sample_options sample_lib sample_texts (live_deps live_site calm_environ)
      sample_krecord w =
    (True, after_apply (live_deps live_site calm_environ) sample_envelope sample_position OutcomeApplied
      (w\<lparr>w_db := sample_db, w_calls := Suc (w_calls w)\<rparr>))"
    using sample_value sample_Decode sample_known sample_AsVehiclePosition a
    by (simp add: processOne_def value_of_def apply_loop.simps sample_input_of)
  then show ?thesis
    by (simp add: after_apply_def publish_def p sample_publish) (simp add: live_deps_def)
qed

theorem bus_durable_and_once_witness:
  "\<exists>w. Run sample_options sample_lib sample_texts (live_deps live_site calm_environ)
      [\<lparr>po_records = [sample_krecord], po_closed = True\<rparr>] start_world = (Returned, w) \<and>
     w_bus w = [live_frame sample_envelope sample_position] \<and>
     (\<exists>r \<in> set (vehicle_positions (w_db w)). r_vehicle_id r = ''v1'')"
proof -
  let ?d = "live_deps live_site calm_environ"
  have "w_db (start_world\<lparr>w_calls := 2\<rparr>) = empty_db" by (simp add: start_world_def)
  from live_processOne [OF this] obtain w1 where
    p: "processOne sample_options sample_lib sample_texts ?d sample_krecord (start_world\<lparr>w_calls := 2\<rparr>) = (True, w1)"
      "w_bus w1 = [live_frame sample_envelope sample_position]"
    by (auto simp: start_world_def)
  have "\<exists>w. Run sample_options sample_lib sample_texts ?d
      [\<lparr>po_records = [sample_krecord], po_closed = True\<rparr>] start_world = (Returned, w) \<and> w_bus w = w_bus w1"
    using p(1)
    by (simp add: processBatch_def partitions_of_def group_of_def run_partition_def start_world_def
        d_allow_live numeral_2_eq_2)
  then obtain w where w: "Run sample_options sample_lib sample_texts ?d
      [\<lparr>po_records = [sample_krecord], po_closed = True\<rparr>] start_world = (Returned, w)" "w_bus w = w_bus w1"
    by blast
  from bus_durable_and_once [OF w(1)] w p(2) show ?thesis
    by (auto simp: live_frame_def sample_position_def)
qed

end
