(* ===== verification/Http.thy ===== *)
theory Http
  imports Wire
begin

text \<open>
  The HTTP surface the handlers share: what they use of \<open>net/http\<close>, the error envelope of
  \<open>internal/platform/httperr/httperr.go\<close> and the request identifier of
  \<open>internal/platform/reqid/reqid.go\<close>.

  A response keeps the headers that reach the client: a header set after the status was written does
  not, and neither does a second status.
\<close>

section \<open>Requests and responses\<close>

text \<open>\<open>rq_id\<close> is what the request's context carries under the key of \<open>reqid\<close>.\<close>

record request =
  rq_header :: "string \<Rightarrow> string"
  rq_body :: bytes
  rq_id :: "string option"

text \<open>The status, 0 before it is written, the headers, the writes that succeeded, and which of the
  coming writes succeed.\<close>

record resp =
  rs_status :: nat
  rs_headers :: "(string \<times> string) list"
  rs_body :: "string list"
  rs_ok :: "nat \<Rightarrow> bool"
  rs_writes :: nat

definition set_header :: "string \<Rightarrow> string \<Rightarrow> resp \<Rightarrow> resp" where
  "set_header k v w =
     (if rs_status w = 0 then w\<lparr>rs_headers := filter (\<lambda>p. fst p \<noteq> k) (rs_headers w) @ [(k, v)]\<rparr> else w)"

definition write_header :: "nat \<Rightarrow> resp \<Rightarrow> resp" where
  "write_header status w = (if rs_status w = 0 then w\<lparr>rs_status := status\<rparr> else w)"

definition write_chunk :: "string \<Rightarrow> resp \<Rightarrow> bool \<times> resp" where
  "write_chunk s w0 =
     (let w = write_header 200 w0 in
      if rs_ok w (rs_writes w) then (True, w\<lparr>rs_body := rs_body w @ [s], rs_writes := Suc (rs_writes w)\<rparr>)
      else (False, w\<lparr>rs_writes := Suc (rs_writes w)\<rparr>))"

definition http_error :: "nat \<Rightarrow> string \<Rightarrow> resp \<Rightarrow> resp" where
  "http_error status body w =
     snd (write_chunk (body @ newline)
       (write_header status
         (set_header ''X-Content-Type-Options'' ''nosniff''
           (set_header ''Content-Type'' ''text/plain; charset=utf-8'' w))))"

text \<open>\<open>json.NewEncoder(w).Encode\<close> of a value whose text is \<open>t\<close>; its error is discarded everywhere.\<close>

definition encode_body :: "bytes \<Rightarrow> resp \<Rightarrow> resp" where
  "encode_body t w = snd (write_chunk (t @ newline) w)"

definition json_bool :: "lib \<Rightarrow> bool \<Rightarrow> bytes" where
  "json_bool l b = json_text l (JBool b)"

definition header_of :: "string \<Rightarrow> resp \<Rightarrow> string option" where
  "header_of k w = map_of (rev (rs_headers w)) k"

definition new_resp :: "(nat \<Rightarrow> bool) \<Rightarrow> resp" where
  "new_resp ok = \<lparr>rs_status = 0, rs_headers = [], rs_body = [], rs_ok = ok, rs_writes = 0\<rparr>"

section \<open>The request identifier\<close>

definition MaxLength :: nat where
  "MaxLength = 64"

definition FromContext :: "request \<Rightarrow> string" where
  "FromContext r = (case rq_id r of None \<Rightarrow> [] | Some v \<Rightarrow> v)"

definition WithID :: "string \<Rightarrow> request \<Rightarrow> request" where
  "WithID i r = r\<lparr>rq_id := Some i\<rparr>"

definition id_char :: "char \<Rightarrow> bool" where
  "id_char c \<longleftrightarrow> (CHR ''a'' \<le> c \<and> c \<le> CHR ''z'') \<or> (CHR ''A'' \<le> c \<and> c \<le> CHR ''Z'') \<or>
     (CHR ''0'' \<le> c \<and> c \<le> CHR ''9'') \<or> c = CHR ''-'' \<or> c = CHR ''_'' \<or> c = CHR ''.''"

text \<open>
  The code walks over runes: one above U+007F is refused, and so is every byte of its encoding here.
\<close>

definition sanitize :: "string \<Rightarrow> string" where
  "sanitize raw0 =
     (let raw = trim_space raw0 in
      if raw = [] \<or> length raw > MaxLength then []
      else if list_all id_char raw then raw else [])"

text \<open>The wrapped handler is \<open>nxt\<close>, and \<open>fresh\<close> the identifier \<open>idgen.New\<close> mints.\<close>

definition Middleware ::
  "(resp \<Rightarrow> request \<Rightarrow> 'a) \<Rightarrow> string \<Rightarrow> resp \<Rightarrow> request \<Rightarrow> 'a" where
  "Middleware nxt fresh w r =
     (let i0 = sanitize (rq_header r ''X-Request-Id'');
          i = (if i0 = [] then fresh else i0)
      in nxt (set_header ''X-Request-Id'' i w) (WithID i r))"

section \<open>The error envelope\<close>

definition CodeValidationFailed :: string where "CodeValidationFailed = ''validation_failed''"
definition CodeUnauthorized :: string where "CodeUnauthorized = ''unauthorized''"
definition CodePayloadTooLarge :: string where "CodePayloadTooLarge = ''payload_too_large''"
definition CodeBrokerUnavailable :: string where "CodeBrokerUnavailable = ''broker_unavailable''"
definition CodeInternal :: string where "CodeInternal = ''internal_error''"

text \<open>
  A member tagged \<open>omitempty\<close> is left out when it is empty. The details are listed by the callers in
  the order of their names, which is the order \<open>encoding/json\<close> writes a map in.
\<close>

definition error_text :: "lib \<Rightarrow> string \<Rightarrow> string \<Rightarrow> (string \<times> bytes) list \<Rightarrow> bytes" where
  "error_text l code msg details =
     json_text l (JObj ([(''code'', text_str l code), (''message'', text_str l msg)] @
       (if details = [] then [] else [(''details'', json_text l (JObj details))])))"

definition envelope_text ::
  "lib \<Rightarrow> request option \<Rightarrow> string \<Rightarrow> string \<Rightarrow> (string \<times> bytes) list \<Rightarrow> bytes" where
  "envelope_text l r code msg details =
     (let rid = (case r of None \<Rightarrow> [] | Some q \<Rightarrow> FromContext q) in
      json_text l (JObj ([(''error'', error_text l code msg details)] @
        (if rid = [] then [] else [(''request_id'', text_str l rid)]))))"

definition Write ::
  "lib \<Rightarrow> request option \<Rightarrow> nat \<Rightarrow> string \<Rightarrow> string \<Rightarrow> (string \<times> bytes) list \<Rightarrow> resp \<Rightarrow> resp" where
  "Write l r status code msg details w =
     encode_body (envelope_text l r code msg details)
       (write_header status
         (set_header ''Cache-Control'' ''no-store''
           (set_header ''Content-Type'' ''application/json; charset=utf-8'' w)))"

definition Invalid :: "lib \<Rightarrow> request \<Rightarrow> string \<Rightarrow> string \<Rightarrow> resp \<Rightarrow> resp" where
  "Invalid l r field msg w =
     Write l (Some r) 400 CodeValidationFailed msg
       (if field \<noteq> [] then [(''field'', text_str l field)] else []) w"

definition Unauthorized :: "lib \<Rightarrow> request \<Rightarrow> resp \<Rightarrow> resp" where
  "Unauthorized l r w =
     Write l (Some r) 401 CodeUnauthorized
       ''a valid API key is required: send it as X-API-Key or as an Authorization: Bearer token'' [] w"

definition TooLarge :: "lib \<Rightarrow> request \<Rightarrow> int \<Rightarrow> resp \<Rightarrow> resp" where
  "TooLarge l r limit w =
     Write l (Some r) 413 CodePayloadTooLarge ''the request body exceeds the configured limit''
       [(''limit_bytes'', text_int l limit)] w"

definition Unavailable :: "lib \<Rightarrow> request \<Rightarrow> string \<Rightarrow> resp \<Rightarrow> resp" where
  "Unavailable l r msg w =
     Write l (Some r) 503 CodeBrokerUnavailable msg [] (set_header ''Retry-After'' ''1'' w)"

definition Internal :: "lib \<Rightarrow> request \<Rightarrow> resp \<Rightarrow> resp" where
  "Internal l r w =
     Write l (Some r) 500 CodeInternal
       ''an unexpected internal error occurred; quote the request_id when reporting it'' [] w"

section \<open>What the helpers do to a fresh response\<close>

named_theorems http_simps \<open>status, headers and body after the helpers\<close>

lemma status_helpers [http_simps]:
  "rs_status (set_header k v w) = rs_status w"
  "rs_status (write_header st w) = (if rs_status w = 0 then st else rs_status w)"
  "rs_status (snd (write_chunk s w)) = (if rs_status w = 0 then 200 else rs_status w)"
  "rs_status (encode_body t w) = (if rs_status w = 0 then 200 else rs_status w)"
  by (simp_all add: set_header_def write_header_def write_chunk_def encode_body_def Let_def)

lemma ok_helpers [http_simps]:
  "rs_ok (set_header k v w) = rs_ok w" "rs_ok (write_header st w) = rs_ok w"
  "rs_ok (snd (write_chunk s w)) = rs_ok w" "rs_ok (encode_body t w) = rs_ok w"
  "rs_writes (set_header k v w) = rs_writes w" "rs_writes (write_header st w) = rs_writes w"
  "rs_writes (snd (write_chunk s w)) = Suc (rs_writes w)" "rs_writes (encode_body t w) = Suc (rs_writes w)"
  by (simp_all add: set_header_def write_header_def write_chunk_def encode_body_def Let_def)

lemma body_helpers [http_simps]:
  "rs_body (set_header k v w) = rs_body w" "rs_body (write_header st w) = rs_body w"
  "rs_body (snd (write_chunk s w)) = rs_body w @ (if rs_ok w (rs_writes w) then [s] else [])"
  "rs_body (encode_body t w) = rs_body w @ (if rs_ok w (rs_writes w) then [t @ newline] else [])"
  by (simp_all add: set_header_def write_header_def write_chunk_def encode_body_def Let_def)

lemma map_of_rev_filter_ne:
  "map_of (rev (filter (\<lambda>p. fst p \<noteq> k) xs)) k' = (if k' = k then None else map_of (rev xs) k')"
  by (induction xs rule: rev_induct) auto

lemma header_helpers [http_simps]:
  "header_of k (set_header k' v w) = (if rs_status w = 0 \<and> k = k' then Some v else header_of k w)"
  "header_of k (write_header st w) = header_of k w"
  "header_of k (snd (write_chunk s w)) = header_of k w"
  "header_of k (encode_body t w) = header_of k w"
  by (simp_all add: header_of_def set_header_def write_header_def write_chunk_def encode_body_def
      map_of_rev_filter_ne Let_def)

lemma Write_response:
  assumes "rs_status w = 0" and "0 < status"
  shows "rs_status (Write l r status code msg details w) = status"
    and "header_of ''Cache-Control'' (Write l r status code msg details w) = Some ''no-store''"
    and "rs_body (Write l r status code msg details w) = rs_body w @
      (if rs_ok w (rs_writes w) then [envelope_text l r code msg details @ newline] else [])"
  using assms by (simp_all add: Write_def http_simps)

section \<open>What a request identifier may be\<close>

lemma sanitize_safe:
  "length (sanitize s) \<le> MaxLength \<and> list_all id_char (sanitize s)"
  by (simp add: sanitize_def Let_def)

lemma id_char_not_space_edge: "id_char c \<Longrightarrow> \<not> space_edge c"
proof -
  assume "id_char c"
  moreover have "list_all (\<lambda>x. \<not> id_char x) (map hd space_runes @ map last space_runes)"
    by code_simp
  ultimately show ?thesis by (auto simp: space_edge_def list_all_iff)
qed

lemma sanitize_keeps:
  assumes "s \<noteq> []" and "length s \<le> MaxLength" and "list_all id_char s"
  shows "sanitize s = s"
proof -
  have "trim_space s = s"
    by (rule trim_space_id) (use assms(3) id_char_not_space_edge in \<open>auto simp: list_all_iff\<close>)
  with assms show ?thesis by (simp add: sanitize_def)
qed

lemma sanitize_idem: "sanitize (sanitize s) = sanitize s"
proof (cases "sanitize s = []")
  case True
  then show ?thesis by (simp add: sanitize_def [of "[]"] Let_def trim_space_id)
next
  case False
  with sanitize_safe [of s] show ?thesis by (intro sanitize_keeps) auto
qed

end
