(* ===== verification/Gateway.thy ===== *)
theory Gateway
  imports History Http
begin

text \<open>
  The gateway, \<open>internal/gateway/gateway.go\<close>: the set of connected clients with their bounded
  buffers, the broadcast that sheds slow clients, registration under the connection cap, the
  resume from history, the stream of one connection, the read of one vehicle, and the viewer page.

  A client's channel is its buffered frames, its capacity and whether it was closed; a client is
  named by its address, so that a handler still holds it after it left the set. Closing a closed
  channel and sending on one panic in Go: such an operation returns \<open>None\<close>, for the whole process.
  A critical section of the mutex is one step; what runs outside it is another.
\<close>

section \<open>State\<close>

record gw_options =
  go_client_buffer :: int
  go_max_clients :: int
  go_replay_window :: duration
  go_replay_limit :: int
  go_heartbeat :: duration
  go_max_stream :: duration

record chan =
  ch_buf :: "frame list"
  ch_cap :: nat
  ch_closed :: bool

record gateway =
  gw_opts :: gw_options
  gw_clients :: "nat list"
  gw_chans :: "nat \<rightharpoonup> chan"
  gw_next :: nat
  gw_sub_stop :: bool
  gw_gauge :: nat
  gw_disconnects :: "string list"

datatype gw_error =
    NilFrameSource | NilHistory | NilGatewayLogger | BadClientBuffer int | BadMaxClients int
  | SubscribeError fan_error | NoCurrentReader

definition NewGateway :: "bool \<Rightarrow> bool \<Rightarrow> bool \<Rightarrow> gw_options \<Rightarrow> gw_error + gateway" where
  "NewGateway src hist logger o0 =
     (if \<not> src then Inl NilFrameSource
      else if \<not> hist then Inl NilHistory
      else if \<not> logger then Inl NilGatewayLogger
      else if go_client_buffer o0 < 1 then Inl (BadClientBuffer (go_client_buffer o0))
      else if go_max_clients o0 < 1 then Inl (BadMaxClients (go_max_clients o0))
      else
        let o1 = (if go_replay_limit o0 < 1 then o0\<lparr>go_replay_limit := 1000\<rparr> else o0);
            o2 = (if go_heartbeat o1 \<le> 0 then o1\<lparr>go_heartbeat := 15 * 10 ^ 9\<rparr> else o1)
        in Inr \<lparr>gw_opts = o2, gw_clients = [], gw_chans = Map.empty, gw_next = 0,
                gw_sub_stop = False, gw_gauge = 0, gw_disconnects = []\<rparr>)"

section \<open>Channels\<close>

datatype send_result = Sent chan | Full | SendPanics

definition try_send :: "frame \<Rightarrow> chan \<Rightarrow> send_result" where
  "try_send pos c =
     (if ch_closed c then SendPanics
      else if length (ch_buf c) < ch_cap c then Sent (c\<lparr>ch_buf := ch_buf c @ [pos]\<rparr>)
      else Full)"

definition close_chan :: "chan \<Rightarrow> chan option" where
  "close_chan c = (if ch_closed c then None else Some (c\<lparr>ch_closed := True\<rparr>))"

section \<open>The set of clients\<close>

text \<open>\<open>close(c.out)\<close> after \<open>delete(g.clients, c)\<close>, with the gauge set to what is left.\<close>

definition remove_client :: "nat \<Rightarrow> gateway \<Rightarrow> gateway option" where
  "remove_client c g =
     (case gw_chans g c of
        None \<Rightarrow> None
      | Some ch \<Rightarrow>
          (case close_chan ch of
             None \<Rightarrow> None
           | Some ch' \<Rightarrow>
               let left = remove1 c (gw_clients g) in
               Some (g\<lparr>gw_clients := left, gw_chans := (gw_chans g)(c \<mapsto> ch'),
                       gw_gauge := length left\<rparr>)))"

definition dropLocked :: "nat \<Rightarrow> string \<Rightarrow> gateway \<Rightarrow> gateway option" where
  "dropLocked c why g =
     (if c \<notin> set (gw_clients g) then Some g
      else (case remove_client c g of
              None \<Rightarrow> None
            | Some g' \<Rightarrow> Some (g'\<lparr>gw_disconnects := gw_disconnects g' @ [why]\<rparr>)))"

text \<open>The loop over the client map, in the order \<open>cs\<close> the runtime chose.\<close>

fun broadcast_to :: "nat list \<Rightarrow> frame \<Rightarrow> gateway \<Rightarrow> gateway option" where
  "broadcast_to [] pos g = Some g"
| "broadcast_to (c # cs) pos g =
     (case gw_chans g c of
        None \<Rightarrow> None
      | Some ch \<Rightarrow>
          (case try_send pos ch of
             SendPanics \<Rightarrow> None
           | Sent ch' \<Rightarrow> broadcast_to cs pos (g\<lparr>gw_chans := (gw_chans g)(c \<mapsto> ch')\<rparr>)
           | Full \<Rightarrow>
               (case dropLocked c ''slow_consumer'' g of
                  None \<Rightarrow> None
                | Some g' \<Rightarrow> broadcast_to cs pos g')))"

definition broadcast :: "frame \<Rightarrow> gateway \<Rightarrow> gateway option" where
  "broadcast pos g = broadcast_to (gw_clients g) pos g"

fun drop_all :: "nat list \<Rightarrow> gateway \<Rightarrow> gateway option" where
  "drop_all [] g = Some g"
| "drop_all (c # cs) g =
     (case dropLocked c ''server_shutdown'' g of None \<Rightarrow> None | Some g' \<Rightarrow> drop_all cs g')"

text \<open>The flag says whether the subscription was stopped.\<close>

definition Shutdown :: "gateway \<Rightarrow> (bool \<times> gateway) option" where
  "Shutdown g =
     (case drop_all (gw_clients g) g of
        None \<Rightarrow> None
      | Some g' \<Rightarrow> Some (gw_sub_stop g', g'\<lparr>gw_sub_stop := False\<rparr>))"

definition SubscriberCount :: "gateway \<Rightarrow> nat" where
  "SubscriberCount g = length (gw_clients g)"

text \<open>
  The critical section of \<open>register\<close>: refused, or admitted with the new client and the count the
  gauge is set to afterwards, outside the lock, by \<open>registered\<close>.
\<close>

definition register :: "gateway \<Rightarrow> (nat \<times> nat) option \<times> gateway" where
  "register g =
     (if int (length (gw_clients g)) \<ge> go_max_clients (gw_opts g) then
        (None, g\<lparr>gw_disconnects := gw_disconnects g @ [''at_capacity'']\<rparr>)
      else
        let c = gw_next g; clients = gw_clients g @ [c] in
        (Some (c, length clients),
         g\<lparr>gw_clients := clients, gw_next := Suc c,
           gw_chans := (gw_chans g)(c \<mapsto>
             \<lparr>ch_buf = [], ch_cap = nat (go_client_buffer (gw_opts g)), ch_closed = False\<rparr>)\<rparr>))"

definition registered :: "nat \<Rightarrow> gateway \<Rightarrow> gateway" where
  "registered n g = g\<lparr>gw_gauge := n\<rparr>"

definition unregister :: "nat \<Rightarrow> gateway \<Rightarrow> gateway option" where
  "unregister c g = (if c \<notin> set (gw_clients g) then Some g else remove_client c g)"

section \<open>Starting\<close>

text \<open>What the loop of \<open>Start\<close> sees next; the flag of \<open>start_loop\<close> says that it returned.\<close>

datatype bus_item = BusFrame frame | BusClosed | BusCancelled

definition Start :: "(fan_error + unit) \<Rightarrow> gateway \<Rightarrow> gw_error + gateway" where
  "Start frames g =
     (case frames of Inl e \<Rightarrow> Inl (SubscribeError e) | Inr _ \<Rightarrow> Inr (g\<lparr>gw_sub_stop := True\<rparr>))"

fun start_loop :: "bus_item list \<Rightarrow> gateway \<Rightarrow> (bool \<times> gateway) option" where
  "start_loop [] g = Some (False, g)"
| "start_loop (BusCancelled # xs) g = Some (True, g)"
| "start_loop (BusClosed # xs) g = Some (True, g)"
| "start_loop (BusFrame pos # xs) g =
     (case broadcast pos g of None \<Rightarrow> None | Some g' \<Rightarrow> start_loop xs g')"

section \<open>Writing\<close>

definition position_chunk :: "frame \<Rightarrow> bytes \<Rightarrow> string" where
  "position_chunk pos pl =
     ''id: '' @ f_event_id pos @ newline @ ''event: position'' @ newline @ ''data: '' @ pl @ newline @ newline"

definition control_chunk :: "string \<Rightarrow> bytes \<Rightarrow> string" where
  "control_chunk name pl = ''event: '' @ name @ newline @ ''data: '' @ pl @ newline @ newline"

definition writePosition :: "lib \<Rightarrow> frame \<Rightarrow> resp \<Rightarrow> bool \<times> resp" where
  "writePosition l pos w =
     (case marshal_frame l pos of
        None \<Rightarrow> (False, w)
      | Some pl \<Rightarrow> write_chunk (position_chunk pos pl) w)"

text \<open>\<open>json.Marshal\<close> of a map writes its keys in order; the bodies below list them so.\<close>

definition writeFrame :: "lib \<Rightarrow> string \<Rightarrow> (string \<times> bytes) list \<Rightarrow> resp \<Rightarrow> resp" where
  "writeFrame l name body w = snd (write_chunk (control_chunk name (json_text l (JObj body))) w)"

section \<open>Resuming\<close>

text \<open>
  The \<open>HistorySource\<close> and the optional \<open>CurrentReader\<close>; \<open>Inl\<close> is an error of the store.
\<close>

record history =
  hs_time :: "string \<Rightarrow> sink_error + time \<times> bool"
  hs_since :: "time \<Rightarrow> string \<Rightarrow> int \<Rightarrow> sink_error + frame list"
  hs_current :: "(string \<Rightarrow> sink_error + frame \<times> bool) option"

fun write_all :: "lib \<Rightarrow> frame list \<Rightarrow> resp \<Rightarrow> nat \<times> bool \<times> resp" where
  "write_all l [] w = (0, True, w)"
| "write_all l (p # ps) w =
     (case writePosition l p w of
        (False, w1) \<Rightarrow> (0, False, w1)
      | (True, w1) \<Rightarrow> (case write_all l ps w1 of (n, ok, w2) \<Rightarrow> (Suc n, ok, w2)))"

text \<open>
  \<open>header\<close> and \<open>query\<close> are the two places the last event id may come from; \<open>show_dur\<close> and
  \<open>rfc3339\<close> are the library's renderings of a duration and of an instant.
\<close>

definition replay ::
  "lib \<Rightarrow> (duration \<Rightarrow> string) \<Rightarrow> (time \<Rightarrow> string) \<Rightarrow> gw_options \<Rightarrow> history \<Rightarrow> time \<Rightarrow> string \<Rightarrow> string \<Rightarrow>
     resp \<Rightarrow> nat \<times> resp" where
  "replay l show_dur rfc3339 opts h now header query w =
     (let lastID = (if header = [] then query else header) in
      if lastID = [] then (0, writeFrame l ''ready'' [(''resumed'', json_bool l False)] w)
      else
        (case hs_time h lastID of
           Inl e \<Rightarrow>
             (0, writeFrame l ''error''
                [(''reason'', text_str l ''the resume point could not be resolved; live frames will continue'')] w)
         | Inr (ts, found) \<Rightarrow>
             if \<not> found then
               (0, writeFrame l ''reset''
                  [(''reason'', text_str l ''that event is no longer in the retained history; starting fresh'')] w)
             else if go_replay_window opts > 0 \<and> now - ts > go_replay_window opts then
               (0, writeFrame l ''reset''
                  [(''reason'', text_str l ''that event is older than the replay window; starting fresh''),
                   (''window'', text_str l (show_dur (go_replay_window opts)))] w)
             else
               (case hs_since h ts lastID (go_replay_limit opts) of
                  Inl e \<Rightarrow>
                    (0, writeFrame l ''error''
                       [(''reason'', text_str l ''the missed frames could not be read; live frames will continue'')] w)
                | Inr frames \<Rightarrow>
                    (case write_all l frames w of
                       (n, False, w1) \<Rightarrow> (n, w1)
                     | (n, True, w1) \<Rightarrow>
                         (n, writeFrame l ''resumed''
                            [(''frames'', text_int l (int n)), (''from'', text_str l (rfc3339 ts)),
                             (''resumed'', json_bool l True)] w1)))))"

section \<open>One stream\<close>

text \<open>
  Where the handler of an admitted connection is: its gauge update is due, the resume is due, it
  selects, or it returned and its deferred \<open>unregister\<close> is due or done.
\<close>

datatype phase = Admitted nat | Resuming | Streaming | Finished | Gone

record conn =
  cn_client :: nat
  cn_phase :: phase
  cn_resp :: resp
  cn_sent :: nat

definition sse_headers :: "resp \<Rightarrow> resp" where
  "sse_headers w =
     set_header ''X-Accel-Buffering'' ''no''
       (set_header ''Connection'' ''keep-alive''
         (set_header ''Cache-Control'' ''no-cache''
           (set_header ''Content-Type'' ''text/event-stream'' w)))"

text \<open>
  \<open>handleStream\<close> up to the registration. \<open>auth\<close> is the verdict of \<open>Authorized\<close> if one is
  configured, \<open>flusher\<close> whether the connection can flush.
\<close>

definition open_stream ::
  "bool option \<Rightarrow> bool \<Rightarrow> resp \<Rightarrow> gateway \<Rightarrow> (resp + conn) \<times> gateway" where
  "open_stream auth flusher w g =
     (if auth = Some False then (Inl (http_error 401 ''a valid API key is required'' w), g)
      else if \<not> flusher then (Inl (http_error 500 ''this server cannot stream'' w), g)
      else (case register g of
              (None, g') \<Rightarrow>
                (Inl (http_error 503 ''the gateway is at its configured client limit''
                        (set_header ''Retry-After'' ''5'' w)), g')
            | (Some (c, n), g') \<Rightarrow>
                (Inr \<lparr>cn_client = c, cn_phase = Admitted n, cn_resp = w, cn_sent = 0\<rparr>, g')))"

text \<open>The headers, the status and the first flush, then the resume.\<close>

definition resume_stream ::
  "lib \<Rightarrow> (duration \<Rightarrow> string) \<Rightarrow> (time \<Rightarrow> string) \<Rightarrow> gw_options \<Rightarrow> history \<Rightarrow> time \<Rightarrow> string \<Rightarrow> string \<Rightarrow>
     conn \<Rightarrow> conn" where
  "resume_stream l show_dur rfc3339 opts h now header query cn =
     (let w = write_header 200 (sse_headers (cn_resp cn));
          (n, w') = replay l show_dur rfc3339 opts h now header query w
      in cn\<lparr>cn_phase := Streaming, cn_resp := w', cn_sent := n\<rparr>)"

datatype select = CtxDone | Receive | Heartbeat | Deadline

text \<open>
  One iteration of the select loop; \<open>None\<close> when the chosen case is not ready. The first component
  is the frame taken from the channel, if any.
\<close>

definition stream_step ::
  "lib \<Rightarrow> select \<Rightarrow> conn \<Rightarrow> gateway \<Rightarrow> (frame option \<times> conn \<times> gateway) option" where
  "stream_step l ev cn g =
     (let count = (\<lambda>why g. g\<lparr>gw_disconnects := gw_disconnects g @ [why]\<rparr>);
          finish = (\<lambda>w. cn\<lparr>cn_phase := Finished, cn_resp := w\<rparr>);
          w = cn_resp cn in
      case ev of
        CtxDone \<Rightarrow> Some (None, finish w, count ''client_closed'' g)
      | Receive \<Rightarrow>
          (case gw_chans g (cn_client cn) of
             None \<Rightarrow> None
           | Some ch \<Rightarrow>
               (case ch_buf ch of
                  [] \<Rightarrow>
                    if \<not> ch_closed ch then None
                    else Some (None, finish (writeFrame l ''shed''
                           [(''reason'', text_str l ''the stream was closed by the server; reconnect to resume'')] w), g)
                | pos # rest \<Rightarrow>
                    let g' = g\<lparr>gw_chans := (gw_chans g)(cn_client cn \<mapsto> ch\<lparr>ch_buf := rest\<rparr>)\<rparr> in
                    (case writePosition l pos w of
                       (False, w') \<Rightarrow> Some (Some pos, finish w', count ''write_error'' g')
                     | (True, w') \<Rightarrow>
                         Some (Some pos, cn\<lparr>cn_resp := w', cn_sent := Suc (cn_sent cn)\<rparr>, g'))))
      | Heartbeat \<Rightarrow>
          (case write_chunk ('': heartbeat'' @ newline @ newline) w of
             (False, w') \<Rightarrow> Some (None, finish w', count ''write_error'' g)
           | (True, w') \<Rightarrow> Some (None, cn\<lparr>cn_resp := w'\<rparr>, g))
      | Deadline \<Rightarrow>
          if go_max_stream (gw_opts g) \<le> 0 then None
          else Some (None, finish (writeFrame l ''reconnect''
                 [(''reason'', text_str l ''the stream reached its maximum duration; reconnect to continue'')] w),
                 count ''max_duration'' g))"

section \<open>Where one vehicle is\<close>

definition currentFor :: "history \<Rightarrow> string \<Rightarrow> (gw_error + sink_error) + frame \<times> bool" where
  "currentFor h v =
     (case hs_current h of
        None \<Rightarrow> Inl (Inl NoCurrentReader)
      | Some read \<Rightarrow> (case read v of Inl e \<Rightarrow> Inl (Inr e) | Inr x \<Rightarrow> Inr x))"

definition error_body :: "string \<Rightarrow> string \<Rightarrow> string" where
  "error_body code msg =
     CHR ''{'' # CHR 0x22 # ''error'' @ CHR 0x22 # CHR '':'' # CHR ''{'' # CHR 0x22 # ''code'' @ CHR 0x22 # CHR '':'' #
     CHR 0x22 # code @ CHR 0x22 # CHR '','' # CHR 0x22 # ''message'' @ CHR 0x22 # CHR '':'' # CHR 0x22 # msg @
     [CHR 0x22, CHR ''}'', CHR ''}'']"

text \<open>An encoding failure writes nothing: the error of \<open>Encode\<close> is discarded.\<close>

definition handleCurrent :: "lib \<Rightarrow> history \<Rightarrow> string \<Rightarrow> resp \<Rightarrow> resp" where
  "handleCurrent l h v w =
     (if v = [] then http_error 400 (error_body ''validation_failed'' ''vehicleID is required'') w
      else (case currentFor h v of
              Inl e \<Rightarrow> http_error 500 (error_body ''internal_error'' ''could not read the vehicle'') w
            | Inr (pos, found) \<Rightarrow>
                if \<not> found then
                  http_error 404 (error_body ''not_found'' ''no position has been recorded for that vehicle'') w
                else
                  (let w1 = set_header ''Content-Type'' ''application/json; charset=utf-8'' w in
                   case marshal_frame l pos of
                     None \<Rightarrow> w1
                   | Some pl \<Rightarrow> encode_body (json_text l (JObj [(''data'', pl)])) w1)))"

section \<open>The viewer page\<close>

text \<open>\<open>MountViewer\<close> of \<open>viewer.go\<close>: \<open>page\<close> is the embedded file, and a failed write is only logged.\<close>

definition serve_viewer :: "string \<Rightarrow> resp \<Rightarrow> resp" where
  "serve_viewer page w =
     snd (write_chunk page
       (set_header ''Cache-Control'' ''no-store''
         (set_header ''Content-Type'' ''text/html; charset=utf-8'' w)))"

section \<open>The process\<close>

text \<open>
  The gateway and its handlers, with three records that exist for the statements only: the frames
  broadcast so far, how many of them came before each client, and what each client took from its
  channel.
\<close>

record gsys =
  sy_gw :: gateway
  sy_conns :: "nat \<rightharpoonup> conn"
  sy_sent :: "frame list"
  sy_from :: "nat \<Rightarrow> nat"
  sy_taken :: "nat \<Rightarrow> frame list"

definition gsys_start :: "gateway \<Rightarrow> gsys" where
  "gsys_start g = \<lparr>sy_gw = g, sy_conns = Map.empty, sy_sent = [], sy_from = (\<lambda>c. 0), sy_taken = (\<lambda>c. [])\<rparr>"

inductive gw_step :: "gsys \<Rightarrow> gsys \<Rightarrow> bool" where
  bus: "set cs = set (gw_clients (sy_gw s)) \<Longrightarrow> distinct cs \<Longrightarrow> broadcast_to cs pos (sy_gw s) = Some g \<Longrightarrow>
    gw_step s (s\<lparr>sy_gw := g, sy_sent := sy_sent s @ [pos]\<rparr>)"
| admit: "open_stream auth flusher w (sy_gw s) = (Inr cn, g) \<Longrightarrow>
    gw_step s (s\<lparr>sy_gw := g, sy_conns := (sy_conns s)(cn_client cn \<mapsto> cn),
                 sy_from := (sy_from s)(cn_client cn := length (sy_sent s))\<rparr>)"
| refuse: "open_stream auth flusher w (sy_gw s) = (Inl w', g) \<Longrightarrow> gw_step s (s\<lparr>sy_gw := g\<rparr>)"
| gauge: "sy_conns s c = Some cn \<Longrightarrow> cn_phase cn = Admitted n \<Longrightarrow>
    gw_step s (s\<lparr>sy_gw := registered n (sy_gw s), sy_conns := (sy_conns s)(c \<mapsto> cn\<lparr>cn_phase := Resuming\<rparr>)\<rparr>)"
| resume: "sy_conns s c = Some cn \<Longrightarrow> cn_phase cn = Resuming \<Longrightarrow>
    gw_step s (s\<lparr>sy_conns := (sy_conns s)(c \<mapsto>
      resume_stream l show_dur rfc3339 (gw_opts (sy_gw s)) h now header query cn)\<rparr>)"
| event: "sy_conns s c = Some cn \<Longrightarrow> cn_phase cn = Streaming \<Longrightarrow>
    stream_step l ev cn (sy_gw s) = Some (taken, cn', g) \<Longrightarrow>
    gw_step s (s\<lparr>sy_gw := g, sy_conns := (sy_conns s)(c \<mapsto> cn'),
      sy_taken := (sy_taken s)(c := sy_taken s c @ (case taken of None \<Rightarrow> [] | Some f \<Rightarrow> [f]))\<rparr>)"
| leave: "sy_conns s c = Some cn \<Longrightarrow> cn_phase cn = Finished \<Longrightarrow> unregister c (sy_gw s) = Some g \<Longrightarrow>
    gw_step s (s\<lparr>sy_gw := g, sy_conns := (sy_conns s)(c \<mapsto> cn\<lparr>cn_phase := Gone\<rparr>)\<rparr>)"
| stop: "Shutdown (sy_gw s) = Some (b, g) \<Longrightarrow> gw_step s (s\<lparr>sy_gw := g\<rparr>)"

end
