(* ===== verification/Gateway_Inv.thy ===== *)
theory Gateway_Inv
  imports Gateway
begin

text \<open>
  The invariant of the gateway process and what follows from it: no operation panics, the
  connection cap and the buffer bounds hold, and a client that is still connected has missed no
  frame since it was admitted.
\<close>

section \<open>The invariant of the client set\<close>

definition gw_ok :: "gateway \<Rightarrow> bool" where
  "gw_ok g \<longleftrightarrow> distinct (gw_clients g) \<and>
     int (length (gw_clients g)) \<le> max 0 (go_max_clients (gw_opts g)) \<and>
     set (gw_clients g) \<subseteq> dom (gw_chans g) \<and>
     (\<forall>c ch. gw_chans g c = Some ch \<longrightarrow>
        c < gw_next g \<and> ch_cap ch = nat (go_client_buffer (gw_opts g)) \<and>
        length (ch_buf ch) \<le> nat (go_client_buffer (gw_opts g)) \<and> (ch_closed ch \<longleftrightarrow> c \<notin> set (gw_clients g)))"

text \<open>What an operation may do to client \<open>c\<close>: \<open>f\<close> on its channel, with or without dropping it.\<close>

lemma remove_client_spec:
  assumes "gw_ok g" and "c \<in> set (gw_clients g)" and "gw_chans g c = Some ch"
  shows "remove_client c g = Some (g\<lparr>gw_clients := remove1 c (gw_clients g),
      gw_chans := (gw_chans g)(c \<mapsto> ch\<lparr>ch_closed := True\<rparr>),
      gw_gauge := length (remove1 c (gw_clients g))\<rparr>)"
  using assms by (auto simp: remove_client_def close_chan_def gw_ok_def Let_def)

lemma gw_ok_drop:
  assumes "gw_ok g" and "c \<in> set (gw_clients g)" and "gw_chans g c = Some ch"
  shows "gw_ok (g\<lparr>gw_clients := remove1 c (gw_clients g),
      gw_chans := (gw_chans g)(c \<mapsto> ch\<lparr>ch_closed := True\<rparr>), gw_gauge := n, gw_disconnects := ds\<rparr>)"
proof -
  have "length (remove1 c (gw_clients g)) \<le> length (gw_clients g)"
    by (simp add: length_remove1)
  with assms show ?thesis
    by (auto simp: gw_ok_def dest: in_set_remove1 [THEN iffD1, rotated] notin_set_remove1 set_remove1_subset [THEN subsetD])
qed

lemma gw_ok_quiet:
  "gw_ok (g\<lparr>gw_gauge := n\<rparr>) \<longleftrightarrow> gw_ok g" "gw_ok (g\<lparr>gw_disconnects := ds\<rparr>) \<longleftrightarrow> gw_ok g"
  "gw_ok (g\<lparr>gw_sub_stop := b\<rparr>) \<longleftrightarrow> gw_ok g"
  by (simp_all add: gw_ok_def)

text \<open>The effect of offering a frame to the clients \<open>cs\<close>.\<close>

lemma dropLocked_spec:
  assumes "gw_ok g" and "c \<in> set (gw_clients g)" and "gw_chans g c = Some ch"
  shows "\<exists>g'. dropLocked c why g = Some g' \<and> gw_ok g' \<and> gw_clients g' = remove1 c (gw_clients g) \<and>
    gw_chans g' = (gw_chans g)(c \<mapsto> ch\<lparr>ch_closed := True\<rparr>) \<and> gw_next g' = gw_next g \<and>
    gw_opts g' = gw_opts g"
  using remove_client_spec [OF assms] gw_ok_drop [OF assms] assms(2)
  by (simp add: dropLocked_def)

definition offered :: "frame \<Rightarrow> nat \<Rightarrow> chan \<Rightarrow> gateway \<Rightarrow> bool" where
  "offered pos c ch g' \<longleftrightarrow>
     (if length (ch_buf ch) < ch_cap ch
      then c \<in> set (gw_clients g') \<and> gw_chans g' c = Some (ch\<lparr>ch_buf := ch_buf ch @ [pos]\<rparr>)
      else c \<notin> set (gw_clients g') \<and> gw_chans g' c = Some (ch\<lparr>ch_closed := True\<rparr>))"

lemma gw_ok_send:
  assumes "gw_ok g" and "gw_chans g c = Some ch" and "c \<in> set (gw_clients g)"
    and "length (ch_buf ch) < ch_cap ch"
  shows "gw_ok (g\<lparr>gw_chans := (gw_chans g)(c \<mapsto> ch\<lparr>ch_buf := ch_buf ch @ [pos]\<rparr>)\<rparr>)"
  using assms by (auto simp: gw_ok_def)

lemma broadcast_to_spec:
  "gw_ok g \<Longrightarrow> distinct cs \<Longrightarrow> set cs \<subseteq> set (gw_clients g) \<Longrightarrow>
   \<exists>g'. broadcast_to cs pos g = Some g' \<and> gw_ok g' \<and> gw_next g' = gw_next g \<and> gw_opts g' = gw_opts g \<and>
     (\<forall>c. c \<notin> set cs \<longrightarrow> gw_chans g' c = gw_chans g c \<and>
        (c \<in> set (gw_clients g') \<longleftrightarrow> c \<in> set (gw_clients g))) \<and>
     (\<forall>c ch. c \<in> set cs \<longrightarrow> gw_chans g c = Some ch \<longrightarrow> offered pos c ch g')"
proof (induction cs arbitrary: g)
  case Nil
  then show ?case by auto
next
  case (Cons c cs)
  have c: "c \<in> set (gw_clients g)" "c \<notin> set cs" using Cons.prems(2,3) by auto
  then obtain ch where ch: "gw_chans g c = Some ch" using Cons.prems(1) by (auto simp: gw_ok_def)
  with Cons.prems(1) c have op: "\<not> ch_closed ch" by (auto simp: gw_ok_def)
  let ?ch1 = "if length (ch_buf ch) < ch_cap ch then ch\<lparr>ch_buf := ch_buf ch @ [pos]\<rparr> else ch\<lparr>ch_closed := True\<rparr>"
  have "\<exists>g1. broadcast_to (c # cs) pos g = broadcast_to cs pos g1 \<and> gw_ok g1 \<and>
      gw_next g1 = gw_next g \<and> gw_opts g1 = gw_opts g \<and> gw_chans g1 = (gw_chans g)(c \<mapsto> ?ch1) \<and>
      set (gw_clients g1) = (if length (ch_buf ch) < ch_cap ch then set (gw_clients g) else set (gw_clients g) - {c})"
  proof (cases "length (ch_buf ch) < ch_cap ch")
    case True
    show ?thesis
      by (rule exI [of _ "g\<lparr>gw_chans := (gw_chans g)(c \<mapsto> ch\<lparr>ch_buf := ch_buf ch @ [pos]\<rparr>)\<rparr>"])
        (use True ch op gw_ok_send [OF Cons.prems(1) ch c(1) True] in \<open>simp add: try_send_def\<close>)
  next
    case False
    from dropLocked_spec [OF Cons.prems(1) c(1) ch, of "''slow_consumer''"] obtain g1 where
      g1: "dropLocked c ''slow_consumer'' g = Some g1" "gw_ok g1" "gw_clients g1 = remove1 c (gw_clients g)"
      "gw_chans g1 = (gw_chans g)(c \<mapsto> ch\<lparr>ch_closed := True\<rparr>)" "gw_next g1 = gw_next g" "gw_opts g1 = gw_opts g"
      by blast
    have "distinct (gw_clients g)" using Cons.prems(1) by (simp add: gw_ok_def)
    with False ch op g1 show ?thesis by (intro exI [of _ g1]) (simp add: try_send_def)
  qed
  then obtain g1 where g1: "broadcast_to (c # cs) pos g = broadcast_to cs pos g1" "gw_ok g1"
      "gw_next g1 = gw_next g" "gw_opts g1 = gw_opts g" "gw_chans g1 = (gw_chans g)(c \<mapsto> ?ch1)"
      "set (gw_clients g1) = (if length (ch_buf ch) < ch_cap ch then set (gw_clients g) else set (gw_clients g) - {c})"
    by blast
  have "set cs \<subseteq> set (gw_clients g1)" using Cons.prems(3) c(2) by (auto simp: g1(6))
  from Cons.IH [OF g1(2) _ this] Cons.prems(2) obtain g' where g': "broadcast_to cs pos g1 = Some g'"
      "gw_ok g'" "gw_next g' = gw_next g1" "gw_opts g' = gw_opts g1" and
      others: "\<forall>x. x \<notin> set cs \<longrightarrow> gw_chans g' x = gw_chans g1 x \<and>
        (x \<in> set (gw_clients g') \<longleftrightarrow> x \<in> set (gw_clients g1))" and
      rest: "\<forall>x xh. x \<in> set cs \<longrightarrow> gw_chans g1 x = Some xh \<longrightarrow> offered pos x xh g'"
    by auto
  have "offered pos c ch g'" using others c g1(5,6) by (simp add: offered_def)
  moreover have "offered pos x xh g'" if "x \<in> set cs" "gw_chans g x = Some xh" for x xh
  proof -
    have "x \<noteq> c" using that(1) c(2) by blast
    with that g1(5) rest show ?thesis by simp
  qed
  ultimately have "\<forall>x xh. x \<in> set (c # cs) \<longrightarrow> gw_chans g x = Some xh \<longrightarrow> offered pos x xh g'"
    using ch by auto
  moreover have "\<forall>x. x \<notin> set (c # cs) \<longrightarrow> gw_chans g' x = gw_chans g x \<and>
      (x \<in> set (gw_clients g') \<longleftrightarrow> x \<in> set (gw_clients g))"
    using others g1(5,6) by auto
  ultimately show ?case using g' g1(1,3,4) by (intro exI [of _ g']) simp
qed

lemma drop_all_spec:
  "gw_ok g \<Longrightarrow> distinct cs \<Longrightarrow> set cs \<subseteq> set (gw_clients g) \<Longrightarrow>
   \<exists>g'. drop_all cs g = Some g' \<and> gw_ok g' \<and> gw_next g' = gw_next g \<and> gw_opts g' = gw_opts g \<and>
     set (gw_clients g') = set (gw_clients g) - set cs \<and>
     (\<forall>c. c \<notin> set cs \<longrightarrow> gw_chans g' c = gw_chans g c) \<and>
     (\<forall>c ch. c \<in> set cs \<longrightarrow> gw_chans g c = Some ch \<longrightarrow> gw_chans g' c = Some (ch\<lparr>ch_closed := True\<rparr>))"
proof (induction cs arbitrary: g)
  case Nil
  then show ?case by auto
next
  case (Cons c cs)
  have c: "c \<in> set (gw_clients g)" "c \<notin> set cs" using Cons.prems(2,3) by auto
  then obtain ch where ch: "gw_chans g c = Some ch" using Cons.prems(1) by (auto simp: gw_ok_def)
  obtain g1 where g1: "dropLocked c ''server_shutdown'' g = Some g1" "gw_ok g1"
    "gw_clients g1 = remove1 c (gw_clients g)" "gw_chans g1 = (gw_chans g)(c \<mapsto> ch\<lparr>ch_closed := True\<rparr>)"
    "gw_next g1 = gw_next g" "gw_opts g1 = gw_opts g"
    using dropLocked_spec [OF Cons.prems(1) c(1) ch] by blast
  have d: "distinct (gw_clients g)" using Cons.prems(1) by (simp add: gw_ok_def)
  have cl: "set (gw_clients g1) = set (gw_clients g) - {c}" by (simp add: g1(3) d)
  with Cons.prems(3) c(2) have "set cs \<subseteq> set (gw_clients g1)" by auto
  from Cons.IH [OF g1(2) _ this] Cons.prems(2) obtain g' where g': "drop_all cs g1 = Some g'" "gw_ok g'"
    "gw_next g' = gw_next g1" "gw_opts g' = gw_opts g1"
    "set (gw_clients g') = set (gw_clients g1) - set cs"
    "\<forall>x. x \<notin> set cs \<longrightarrow> gw_chans g' x = gw_chans g1 x"
    "\<forall>x xh. x \<in> set cs \<longrightarrow> gw_chans g1 x = Some xh \<longrightarrow> gw_chans g' x = Some (xh\<lparr>ch_closed := True\<rparr>)"
    by auto
  have rest: "\<forall>x xh. x \<in> set (c # cs) \<longrightarrow> gw_chans g x = Some xh \<longrightarrow>
      gw_chans g' x = Some (xh\<lparr>ch_closed := True\<rparr>)"
  proof (intro allI impI)
    fix x xh
    assume x: "x \<in> set (c # cs)" "gw_chans g x = Some xh"
    show "gw_chans g' x = Some (xh\<lparr>ch_closed := True\<rparr>)"
    proof (cases "x = c")
      case True
      with g'(6) c(2) g1(4) ch x(2) show ?thesis by simp
    next
      case False
      with x g1(4) have "x \<in> set cs" "gw_chans g1 x = Some xh" by simp_all
      with g'(7) show ?thesis by blast
    qed
  qed
  have "drop_all (c # cs) g = Some g'" using g1(1) g'(1) by simp
  moreover have "\<forall>x. x \<notin> set (c # cs) \<longrightarrow> gw_chans g' x = gw_chans g x"
    using g'(6) g1(4) by simp
  moreover have "set (gw_clients g') = set (gw_clients g) - set (c # cs)"
    using g'(5) cl by auto
  ultimately show ?case using rest g'(2-4) g1(5,6) by (intro exI [of _ g']) simp
qed

lemma register_spec:
  assumes "gw_ok g"
  shows "gw_ok (snd (register g))"
    and "fst (register g) = Some (c, n) \<Longrightarrow> c = gw_next g \<and> c \<notin> dom (gw_chans g) \<and>
      gw_clients (snd (register g)) = gw_clients g @ [c] \<and>
      gw_chans (snd (register g)) = (gw_chans g)(c \<mapsto>
        \<lparr>ch_buf = [], ch_cap = nat (go_client_buffer (gw_opts g)), ch_closed = False\<rparr>)"
    and "fst (register g) = None \<Longrightarrow> gw_clients (snd (register g)) = gw_clients g \<and>
      gw_chans (snd (register g)) = gw_chans g"
proof -
  have fresh: "gw_next g \<notin> dom (gw_chans g)" "gw_next g \<notin> set (gw_clients g)"
    using assms by (auto simp: gw_ok_def)
  show "gw_ok (snd (register g))"
  proof (cases "int (length (gw_clients g)) \<ge> go_max_clients (gw_opts g)")
    case True
    then show ?thesis using assms by (simp add: register_def gw_ok_quiet)
  next
    case False
    have "ch < Suc (gw_next g)" if "gw_chans g ch = Some x" for ch x
      using assms that by (auto simp: gw_ok_def intro: less_SucI)
    with False fresh assms show ?thesis
      by (auto simp: register_def Let_def gw_ok_def)
  qed
  show "fst (register g) = Some (c, n) \<Longrightarrow> c = gw_next g \<and> c \<notin> dom (gw_chans g) \<and>
      gw_clients (snd (register g)) = gw_clients g @ [c] \<and>
      gw_chans (snd (register g)) = (gw_chans g)(c \<mapsto>
        \<lparr>ch_buf = [], ch_cap = nat (go_client_buffer (gw_opts g)), ch_closed = False\<rparr>)"
    using fresh by (auto simp: register_def Let_def split: if_splits)
  show "fst (register g) = None \<Longrightarrow> gw_clients (snd (register g)) = gw_clients g \<and>
      gw_chans (snd (register g)) = gw_chans g"
    by (auto simp: register_def Let_def split: if_splits)
qed

lemma unregister_spec:
  assumes "gw_ok g" and "c \<in> dom (gw_chans g)"
  shows "\<exists>g'. unregister c g = Some g' \<and> gw_ok g' \<and> set (gw_clients g') = set (gw_clients g) - {c} \<and>
    (\<forall>x. x \<noteq> c \<longrightarrow> gw_chans g' x = gw_chans g x) \<and>
    (\<forall>ch. gw_chans g c = Some ch \<longrightarrow> gw_chans g' c = Some (ch\<lparr>ch_closed := True\<rparr>))"
proof -
  from assms(2) obtain ch where ch: "gw_chans g c = Some ch" by blast
  have d: "distinct (gw_clients g)" using assms(1) by (simp add: gw_ok_def)
  show ?thesis
  proof (cases "c \<in> set (gw_clients g)")
    case True
    let ?g = "g\<lparr>gw_clients := remove1 c (gw_clients g), gw_chans := (gw_chans g)(c \<mapsto> ch\<lparr>ch_closed := True\<rparr>),
      gw_gauge := length (remove1 c (gw_clients g))\<rparr>"
    have "gw_ok ?g"
      using gw_ok_drop [OF assms(1) True ch, where n = "length (remove1 c (gw_clients g))" and ds = "gw_disconnects g"] by simp
    with True remove_client_spec [OF assms(1) True ch] ch d show ?thesis
      by (intro exI [of _ ?g]) (simp add: unregister_def)
  next
    case False
    have "ch_closed ch" using assms(1) ch False by (auto simp: gw_ok_def)
    then have "ch\<lparr>ch_closed := True\<rparr> = ch" by (cases ch) simp
    with False assms(1) ch show ?thesis by (intro exI [of _ g]) (auto simp: unregister_def)
  qed
qed

lemma Shutdown_spec:
  assumes "gw_ok g"
  shows "\<exists>b g'. Shutdown g = Some (b, g') \<and> gw_ok g' \<and> gw_clients g' = [] \<and>
    (\<forall>c. c \<notin> set (gw_clients g) \<longrightarrow> gw_chans g' c = gw_chans g c) \<and>
    (\<forall>c ch. c \<in> set (gw_clients g) \<longrightarrow> gw_chans g c = Some ch \<longrightarrow>
       gw_chans g' c = Some (ch\<lparr>ch_closed := True\<rparr>))"
proof -
  have "distinct (gw_clients g)" using assms by (simp add: gw_ok_def)
  from drop_all_spec [OF assms this order_refl] obtain g' where "drop_all (gw_clients g) g = Some g'"
    "gw_ok g'" "set (gw_clients g') = set (gw_clients g) - set (gw_clients g)"
    "\<forall>c. c \<notin> set (gw_clients g) \<longrightarrow> gw_chans g' c = gw_chans g c"
    "\<forall>c ch. c \<in> set (gw_clients g) \<longrightarrow> gw_chans g c = Some ch \<longrightarrow> gw_chans g' c = Some (ch\<lparr>ch_closed := True\<rparr>)"
    by blast
  then show ?thesis
    by (intro exI [of _ "gw_sub_stop g'"] exI [of _ "g'\<lparr>gw_sub_stop := False\<rparr>"])
      (simp add: Shutdown_def gw_ok_quiet)
qed

text \<open>An iteration of a stream takes the head of its own buffer or leaves every channel alone.\<close>

lemma stream_step_spec:
  assumes "stream_step l ev cn g = Some (taken, cn', g')"
  shows "cn_client cn' = cn_client cn \<and> gw_clients g' = gw_clients g \<and> gw_next g' = gw_next g \<and>
    gw_opts g' = gw_opts g \<and>
    (case taken of
       None \<Rightarrow> gw_chans g' = gw_chans g
     | Some f \<Rightarrow> (\<exists>ch rest. gw_chans g (cn_client cn) = Some ch \<and> ch_buf ch = f # rest \<and>
         gw_chans g' = (gw_chans g)(cn_client cn \<mapsto> ch\<lparr>ch_buf := rest\<rparr>)))"
proof (cases "ev = Receive")
  case False
  with assms show ?thesis
    by (cases ev) (auto simp: stream_step_def Let_def split: prod.splits bool.splits if_splits)
next
  case True
  with assms obtain ch where ch: "gw_chans g (cn_client cn) = Some ch"
    by (auto simp: stream_step_def Let_def split: option.splits)
  with True assms show ?thesis
    by (cases "ch_buf ch")
      (auto simp: stream_step_def Let_def split: prod.splits bool.splits if_splits)
qed

lemma gw_ok_pop:
  assumes "gw_ok g" and "gw_chans g c = Some ch" and "ch_buf ch = f # rest"
  shows "gw_ok (g\<lparr>gw_chans := (gw_chans g)(c \<mapsto> ch\<lparr>ch_buf := rest\<rparr>)\<rparr>)"
  using assms by (force simp: gw_ok_def)

section \<open>The invariant of the process\<close>

text \<open>
  What a client took and still has buffered: everything broadcast since it was admitted while it is
  connected, and a prefix of that once it was dropped.
\<close>

definition seen_ok :: "gsys \<Rightarrow> nat \<Rightarrow> chan \<Rightarrow> bool" where
  "seen_ok s c ch \<longleftrightarrow> sy_from s c \<le> length (sy_sent s) \<and>
     (if c \<in> set (gw_clients (sy_gw s)) then sy_taken s c @ ch_buf ch = drop (sy_from s c) (sy_sent s)
      else prefix (sy_taken s c @ ch_buf ch) (drop (sy_from s c) (sy_sent s)))"

definition sys_ok :: "gsys \<Rightarrow> bool" where
  "sys_ok s \<longleftrightarrow> gw_ok (sy_gw s) \<and>
     (\<forall>c. c \<notin> dom (gw_chans (sy_gw s)) \<longrightarrow> sy_taken s c = []) \<and>
     (\<forall>c cn. sy_conns s c = Some cn \<longrightarrow> cn_client cn = c \<and> c \<in> dom (gw_chans (sy_gw s))) \<and>
     (\<forall>c ch. gw_chans (sy_gw s) c = Some ch \<longrightarrow> seen_ok s c ch)"

lemma sys_okI:
  assumes "gw_ok (sy_gw s)"
    and "\<And>c. c \<notin> dom (gw_chans (sy_gw s)) \<Longrightarrow> sy_taken s c = []"
    and "\<And>c cn. sy_conns s c = Some cn \<Longrightarrow> cn_client cn = c \<and> c \<in> dom (gw_chans (sy_gw s))"
    and "\<And>c ch. gw_chans (sy_gw s) c = Some ch \<Longrightarrow> seen_ok s c ch"
  shows "sys_ok s"
  using assms by (simp add: sys_ok_def)

lemma sys_okD:
  assumes "sys_ok s"
  shows "gw_ok (sy_gw s)" "c \<notin> dom (gw_chans (sy_gw s)) \<Longrightarrow> sy_taken s c = []"
    "sy_conns s c = Some cn \<Longrightarrow> cn_client cn = c" "sy_conns s c = Some cn \<Longrightarrow> c \<in> dom (gw_chans (sy_gw s))"
    "gw_chans (sy_gw s) c = Some ch \<Longrightarrow> seen_ok s c ch"
  using assms by (auto simp: sys_ok_def)

lemma sys_ok_start:
  "NewGateway src hist logger o0 = Inr g \<Longrightarrow> sys_ok (gsys_start g)"
  by (auto simp: NewGateway_def sys_ok_def gsys_start_def gw_ok_def Let_def split: if_splits)

text \<open>Dropping clients keeps what was seen: an equality weakens to a prefix.\<close>

lemma seen_ok_drop:
  assumes "seen_ok s c ch" and "sy_from s' c = sy_from s c" "sy_sent s' = sy_sent s" "sy_taken s' c = sy_taken s c"
    and "ch_buf ch' = ch_buf ch"
    and "c \<in> set (gw_clients (sy_gw s')) \<Longrightarrow> c \<in> set (gw_clients (sy_gw s))"
  shows "seen_ok s' c ch'"
  using assms by (auto simp: seen_ok_def split: if_splits)

lemma sys_ok_broadcast:
  assumes ok: "sys_ok s" and cs: "set cs = set (gw_clients (sy_gw s))" "distinct cs"
    and b: "broadcast_to cs pos (sy_gw s) = Some g"
  shows "sys_ok (s\<lparr>sy_gw := g, sy_sent := sy_sent s @ [pos]\<rparr>)"
proof -
  let ?g = "sy_gw s" and ?s = "s\<lparr>sy_gw := g, sy_sent := sy_sent s @ [pos]\<rparr>"
  note D = sys_okD [OF ok]
  from broadcast_to_spec [OF D(1) cs(2), of pos] cs(1) b have
    g: "gw_ok g" and others: "\<And>c. c \<notin> set cs \<Longrightarrow> gw_chans g c = gw_chans ?g c"
      "\<And>c. c \<notin> set cs \<Longrightarrow> c \<in> set (gw_clients g) \<longleftrightarrow> c \<in> set (gw_clients ?g)"
    and off: "\<And>c ch. c \<in> set cs \<Longrightarrow> gw_chans ?g c = Some ch \<Longrightarrow> offered pos c ch g"
    by auto
  have sub: "set cs \<subseteq> dom (gw_chans ?g)" using D(1) cs(1) by (simp add: gw_ok_def)
  have dom: "dom (gw_chans g) = dom (gw_chans ?g)"
  proof -
    have "c \<in> dom (gw_chans g) \<longleftrightarrow> c \<in> dom (gw_chans ?g)" for c
    proof (cases "c \<in> set cs")
      case True
      then obtain ch where "gw_chans ?g c = Some ch" using sub by blast
      with off [OF True this] show ?thesis by (auto simp: offered_def split: if_splits)
    qed (simp add: others domIff)
    then show ?thesis by blast
  qed
  show ?thesis
  proof (rule sys_okI)
    fix c ch' assume ch': "gw_chans (sy_gw ?s) c = Some ch'"
    show "seen_ok ?s c ch'"
    proof (cases "c \<in> set cs")
      case True
      then obtain ch where ch: "gw_chans ?g c = Some ch" using sub by blast
      with D(5) True cs(1) have "sy_from s c \<le> length (sy_sent s)"
        "sy_taken s c @ ch_buf ch = drop (sy_from s c) (sy_sent s)"
        by (auto simp: seen_ok_def)
      with off [OF True ch] ch' show ?thesis
        by (auto simp: offered_def seen_ok_def split: if_splits)
    next
      case False
      then have "c \<notin> set (gw_clients g)" "seen_ok s c ch'"
        using others cs(1) D(5) ch' by auto
      with False cs(1) show ?thesis
        by (auto simp: seen_ok_def intro: prefix_order.trans)
    qed
  qed (use g D(2-4) dom in simp_all)
qed

lemma sys_ok_register:
  assumes ok: "sys_ok s" and r: "register (sy_gw s) = (Some (c, n), g)" and cn: "cn_client cn = c"
  shows "sys_ok (s\<lparr>sy_gw := g, sy_conns := (sy_conns s)(c \<mapsto> cn),
    sy_from := (sy_from s)(c := length (sy_sent s))\<rparr>)"
proof -
  note D = sys_okD [OF ok]
  from register_spec [OF D(1)] r have g: "gw_ok g" and c: "c \<notin> dom (gw_chans (sy_gw s))"
    and cl: "gw_clients g = gw_clients (sy_gw s) @ [c]"
    and ch: "gw_chans g = (gw_chans (sy_gw s))(c \<mapsto>
      \<lparr>ch_buf = [], ch_cap = nat (go_client_buffer (gw_opts (sy_gw s))), ch_closed = False\<rparr>)"
    by auto
  show ?thesis
  proof (rule sys_okI)
    fix x xh assume x: "gw_chans (sy_gw (s\<lparr>sy_gw := g, sy_conns := (sy_conns s)(c \<mapsto> cn),
      sy_from := (sy_from s)(c := length (sy_sent s))\<rparr>)) x = Some xh"
    show "seen_ok (s\<lparr>sy_gw := g, sy_conns := (sy_conns s)(c \<mapsto> cn),
      sy_from := (sy_from s)(c := length (sy_sent s))\<rparr>) x xh"
    proof (cases "x = c")
      case True
      with x ch c D(2) [OF c] show ?thesis by (auto simp: seen_ok_def cl)
    next
      case False
      with x ch have "seen_ok s x xh" using D(5) by simp
      with False show ?thesis by (auto simp: seen_ok_def cl)
    qed
  next
    fix x assume "x \<notin> dom (gw_chans (sy_gw (s\<lparr>sy_gw := g, sy_conns := (sy_conns s)(c \<mapsto> cn),
      sy_from := (sy_from s)(c := length (sy_sent s))\<rparr>)))"
    then have "x \<notin> dom (gw_chans (sy_gw s))" using ch by simp
    then show "sy_taken (s\<lparr>sy_gw := g, sy_conns := (sy_conns s)(c \<mapsto> cn),
      sy_from := (sy_from s)(c := length (sy_sent s))\<rparr>) x = []" using D(2) by simp
  next
    fix x xn assume "sy_conns (s\<lparr>sy_gw := g, sy_conns := (sy_conns s)(c \<mapsto> cn),
      sy_from := (sy_from s)(c := length (sy_sent s))\<rparr>) x = Some xn"
    then show "cn_client xn = x \<and> x \<in> dom (gw_chans (sy_gw (s\<lparr>sy_gw := g, sy_conns := (sy_conns s)(c \<mapsto> cn),
      sy_from := (sy_from s)(c := length (sy_sent s))\<rparr>)))"
      using D(3) [of x xn] D(4) [of x xn] cn ch by (cases "x = c") auto
  qed (simp add: g)
qed

text \<open>A step that only drops clients and touches no buffer keeps the invariant.\<close>

lemma sys_ok_weaken:
  assumes ok: "sys_ok s" and g: "gw_ok g" "dom (gw_chans g) = dom (gw_chans (sy_gw s))"
    "set (gw_clients g) \<subseteq> set (gw_clients (sy_gw s))"
    and buf: "\<And>c ch'. gw_chans g c = Some ch' \<Longrightarrow> \<exists>ch. gw_chans (sy_gw s) c = Some ch \<and> ch_buf ch' = ch_buf ch"
    and conns: "\<And>c cn. cs c = Some cn \<Longrightarrow> cn_client cn = c \<and> c \<in> dom (gw_chans (sy_gw s))"
  shows "sys_ok (s\<lparr>sy_gw := g, sy_conns := cs\<rparr>)"
proof (rule sys_okI)
  note D = sys_okD [OF ok]
  fix c ch' assume "gw_chans (sy_gw (s\<lparr>sy_gw := g, sy_conns := cs\<rparr>)) c = Some ch'"
  then obtain ch where "gw_chans (sy_gw s) c = Some ch" "ch_buf ch' = ch_buf ch" using buf by auto
  note ch = this
  show "seen_ok (s\<lparr>sy_gw := g, sy_conns := cs\<rparr>) c ch'"
    by (rule seen_ok_drop [OF D(5) [OF ch(1)]]) (use g(3) ch(2) in \<open>simp_all add: subsetD\<close>)
next
  fix c assume "c \<notin> dom (gw_chans (sy_gw (s\<lparr>sy_gw := g, sy_conns := cs\<rparr>)))"
  then have "c \<notin> dom (gw_chans (sy_gw s))" using g(2) by simp
  then show "sy_taken (s\<lparr>sy_gw := g, sy_conns := cs\<rparr>) c = []" using sys_okD(2) [OF ok] by simp
next
  fix c cn assume "sy_conns (s\<lparr>sy_gw := g, sy_conns := cs\<rparr>) c = Some cn"
  then show "cn_client cn = c \<and> c \<in> dom (gw_chans (sy_gw (s\<lparr>sy_gw := g, sy_conns := cs\<rparr>)))"
    using conns g(2) by simp
qed (simp add: g)

lemma sys_ok_event:
  assumes ok: "sys_ok s" and cn: "sy_conns s c = Some cn"
    and step: "stream_step l ev cn (sy_gw s) = Some (taken, cn', g)"
  shows "sys_ok (s\<lparr>sy_gw := g, sy_conns := (sy_conns s)(c \<mapsto> cn'),
      sy_taken := (sy_taken s)(c := sy_taken s c @ (case taken of None \<Rightarrow> [] | Some f \<Rightarrow> [f]))\<rparr>)"
    (is "sys_ok ?s")
proof -
  note D = sys_okD [OF ok]
  have c: "cn_client cn = c" "c \<in> dom (gw_chans (sy_gw s))" using D(3,4) cn by auto
  note st = stream_step_spec [OF step, unfolded c(1)]
  have conns: "cn_client xn = x \<and> x \<in> dom (gw_chans (sy_gw s))" if "sy_conns ?s x = Some xn" for x xn
    using that D(3) [of x xn] D(4) [of x xn] c st by (cases "x = c") auto
  show ?thesis
  proof (cases taken)
    case None
    with st have g: "gw_chans g = gw_chans (sy_gw s)" "gw_clients g = gw_clients (sy_gw s)"
      "gw_next g = gw_next (sy_gw s)" "gw_opts g = gw_opts (sy_gw s)" by simp_all
    then have "gw_ok g" using D(1) by (simp add: gw_ok_def)
    have "sys_ok (s\<lparr>sy_gw := g, sy_conns := (sy_conns s)(c \<mapsto> cn')\<rparr>)"
      by (rule sys_ok_weaken [OF ok \<open>gw_ok g\<close>]) (use g conns in auto)
    with None show ?thesis by simp
  next
    case (Some f)
    with st obtain ch rest where ch: "gw_chans (sy_gw s) c = Some ch" "ch_buf ch = f # rest"
      and g: "gw_chans g = (gw_chans (sy_gw s))(c \<mapsto> ch\<lparr>ch_buf := rest\<rparr>)" "gw_clients g = gw_clients (sy_gw s)"
      "gw_next g = gw_next (sy_gw s)" "gw_opts g = gw_opts (sy_gw s)" by auto
    have gok: "gw_ok g"
      using gw_ok_pop [OF D(1) ch] g by (simp add: gw_ok_def)
    have dom: "dom (gw_chans g) = dom (gw_chans (sy_gw s))" using g(1) ch(1) by auto
    have seen: "seen_ok ?s x xh" if x: "gw_chans g x = Some xh" for x xh
    proof (cases "x = c")
      case True
      with x g(1) have "xh = ch\<lparr>ch_buf := rest\<rparr>" by simp
      with True D(5) [OF ch(1)] ch(2) Some g(2) show ?thesis by (auto simp: seen_ok_def split: if_splits)
    next
      case False
      with x g(1) have "seen_ok s x xh" using D(5) by simp
      with False g(2) show ?thesis by (simp add: seen_ok_def)
    qed
    have taken: "sy_taken ?s x = []" if "x \<notin> dom (gw_chans (sy_gw s))" for x
      using that D(2) c(2) by (cases "x = c") simp_all
    show ?thesis
    proof (rule sys_okI)
      show "gw_ok (sy_gw ?s)" using gok by simp
    next
      fix x assume "x \<notin> dom (gw_chans (sy_gw ?s))"
      then have "x \<notin> dom (gw_chans (sy_gw s))" using dom by simp
      then show "sy_taken ?s x = []" by (rule taken)
    next
      fix x xn assume "sy_conns ?s x = Some xn"
      then have "cn_client xn = x \<and> x \<in> dom (gw_chans (sy_gw s))" by (rule conns)
      then show "cn_client xn = x \<and> x \<in> dom (gw_chans (sy_gw ?s))" using dom by simp
    next
      fix x xh assume "gw_chans (sy_gw ?s) x = Some xh"
      then have "gw_chans g x = Some xh" by simp
      then show "seen_ok ?s x xh" by (rule seen)
    qed
  qed
qed

interpretation gateway_runs: stepwise_invariant gw_step sys_ok
proof
  fix s t
  assume ok: "sys_ok s" and "gw_step s t"
  note D = sys_okD [OF ok]
  have conns: "cn_client xn = x \<and> x \<in> dom (gw_chans (sy_gw s))"
    if "((sy_conns s)(c \<mapsto> cn')) x = Some xn" "sy_conns s c = Some cn" "cn_client cn' = cn_client cn"
    for x xn c cn cn'
    using that D(3) [of x xn] D(4) [of x xn] D(3) [of c cn] D(4) [of c cn] by (cases "x = c") auto
  from \<open>gw_step s t\<close> show "sys_ok t"
  proof cases
    case (bus cs pos g)
    then show ?thesis using sys_ok_broadcast [OF ok] by simp
  next
    case (admit auth flusher w cn g)
    then obtain n where "register (sy_gw s) = (Some (cn_client cn, n), g)"
      by (auto simp: open_stream_def split: if_splits option.splits prod.splits)
    from sys_ok_register [OF ok this refl] admit(1) show ?thesis by simp
  next
    case (refuse auth flusher w w' g)
    then have "g = sy_gw s \<or> (fst (register (sy_gw s)) = None \<and> g = snd (register (sy_gw s)))"
      by (auto simp: open_stream_def split: if_splits option.splits prod.splits)
    then have "gw_ok g \<and> gw_chans g = gw_chans (sy_gw s) \<and> gw_clients g = gw_clients (sy_gw s)"
      using D(1) register_spec(1,3) [OF D(1)] by auto
    then have "sys_ok (s\<lparr>sy_gw := g, sy_conns := sy_conns s\<rparr>)"
      by (intro sys_ok_weaken [OF ok] conjI D(3,4)) auto
    with refuse(1) show ?thesis by simp
  next
    case (gauge c cn n)
    have cs: "((sy_conns s)(c \<mapsto> cn\<lparr>cn_phase := Resuming\<rparr>)) x = Some xn \<Longrightarrow>
        cn_client xn = x \<and> x \<in> dom (gw_chans (sy_gw s))" for x xn
      by (rule conns [OF _ gauge(2), where cn' = "cn\<lparr>cn_phase := Resuming\<rparr>"]) simp_all
    have "sys_ok (s\<lparr>sy_gw := registered n (sy_gw s), sy_conns := (sy_conns s)(c \<mapsto> cn\<lparr>cn_phase := Resuming\<rparr>)\<rparr>)"
      by (rule sys_ok_weaken [OF ok _ _ _ _ cs])
        (simp_all add: registered_def gw_ok_quiet D(1))
    with gauge(1) show ?thesis by simp
  next
    case (resume c cn l sd rf h now header query)
    let ?cn = "resume_stream l sd rf (gw_opts (sy_gw s)) h now header query cn"
    have "cn_client ?cn = cn_client cn" by (simp add: resume_stream_def Let_def split: prod.splits)
    then have cs: "((sy_conns s)(c \<mapsto> ?cn)) x = Some xn \<Longrightarrow>
        cn_client xn = x \<and> x \<in> dom (gw_chans (sy_gw s))" for x xn
      using conns [OF _ resume(2)] by blast
    have "sys_ok (s\<lparr>sy_gw := sy_gw s, sy_conns := (sy_conns s)(c \<mapsto> ?cn)\<rparr>)"
      by (rule sys_ok_weaken [OF ok D(1) _ _ _ cs]) simp_all
    with resume(1) show ?thesis by simp
  next
    case (event c cn l ev taken cn' g)
    then show ?thesis using sys_ok_event [OF ok event(2,4)] by simp
  next
    case (leave c cn g)
    from unregister_spec [OF D(1) D(4) [OF leave(2)]] leave(4) have
      g: "gw_ok g" "set (gw_clients g) = set (gw_clients (sy_gw s)) - {c}"
        "\<And>x. x \<noteq> c \<Longrightarrow> gw_chans g x = gw_chans (sy_gw s) x"
        "\<And>ch. gw_chans (sy_gw s) c = Some ch \<Longrightarrow> gw_chans g c = Some (ch\<lparr>ch_closed := True\<rparr>)"
      by auto
    obtain ch where ch: "gw_chans (sy_gw s) c = Some ch" using D(4) [OF leave(2)] by blast
    have chans: "gw_chans g = (gw_chans (sy_gw s))(c \<mapsto> ch\<lparr>ch_closed := True\<rparr>)"
      using g(3) g(4) [OF ch] by auto
    have cs: "((sy_conns s)(c \<mapsto> cn\<lparr>cn_phase := Gone\<rparr>)) x = Some xn \<Longrightarrow>
        cn_client xn = x \<and> x \<in> dom (gw_chans (sy_gw s))" for x xn
      by (rule conns [OF _ leave(2), where cn' = "cn\<lparr>cn_phase := Gone\<rparr>"]) simp_all
    have dom: "dom (gw_chans g) = dom (gw_chans (sy_gw s))" using ch by (auto simp: chans)
    have buf: "\<exists>xh. gw_chans (sy_gw s) x = Some xh \<and> ch_buf ch' = ch_buf xh" if "gw_chans g x = Some ch'" for x ch'
      using that ch by (cases "x = c") (auto simp: chans)
    have sub: "set (gw_clients g) \<subseteq> set (gw_clients (sy_gw s))" using g(2) by blast
    have "sys_ok (s\<lparr>sy_gw := g, sy_conns := (sy_conns s)(c \<mapsto> cn\<lparr>cn_phase := Gone\<rparr>)\<rparr>)"
      by (rule sys_ok_weaken [OF ok g(1) dom sub buf cs])
    with leave(1) show ?thesis by simp
  next
    case (stop b g)
    from Shutdown_spec [OF D(1)] stop(2) have g: "gw_ok g" "gw_clients g = []"
      "\<And>c. c \<notin> set (gw_clients (sy_gw s)) \<Longrightarrow> gw_chans g c = gw_chans (sy_gw s) c"
      "\<And>c ch. c \<in> set (gw_clients (sy_gw s)) \<Longrightarrow> gw_chans (sy_gw s) c = Some ch \<Longrightarrow>
         gw_chans g c = Some (ch\<lparr>ch_closed := True\<rparr>)" by auto
    have old: "\<exists>ch. gw_chans (sy_gw s) c = Some ch \<and> ch_buf ch' = ch_buf ch"
      if "gw_chans g c = Some ch'" for c ch'
    proof (cases "c \<in> set (gw_clients (sy_gw s))")
      case True
      then obtain ch where "gw_chans (sy_gw s) c = Some ch" using D(1) by (auto simp: gw_ok_def)
      with g(4) [OF True this] that show ?thesis by auto
    qed (use g(3) that in auto)
    have "dom (gw_chans (sy_gw s)) \<subseteq> dom (gw_chans g)"
    proof
      fix c assume "c \<in> dom (gw_chans (sy_gw s))"
      then show "c \<in> dom (gw_chans g)"
        using g(3) [of c] g(4) [of c] by (cases "c \<in> set (gw_clients (sy_gw s))") auto
    qed
    moreover have "dom (gw_chans g) \<subseteq> dom (gw_chans (sy_gw s))" using old by blast
    ultimately have dom: "dom (gw_chans g) = dom (gw_chans (sy_gw s))" by blast
    have sub: "set (gw_clients g) \<subseteq> set (gw_clients (sy_gw s))" using g(2) by simp
    have "sys_ok (s\<lparr>sy_gw := g, sy_conns := sy_conns s\<rparr>)"
      by (rule sys_ok_weaken [OF ok g(1) dom sub old]) (use D(3,4) in blast)+
    with stop(1) show ?thesis by simp
  qed
qed

end
