(* ===== verification/Gateway_Props.thy ===== *)
theory Gateway_Props
  imports Gateway_Inv Sample
begin

text \<open>
  What the gateway guarantees: no operation of any run panics, the limits hold, a connected client
  has missed nothing since it was admitted, and a resume writes exactly the page of the history
  after the resume point, or one control frame that says why not. The last section shows that the
  gauge of connected clients can be left wrong.
\<close>

section \<open>Every run\<close>

lemma reachable_ok:
  assumes "NewGateway src hist logger o0 = Inr g" and "gw_step\<^sup>*\<^sup>* (gsys_start g) t"
  shows "sys_ok t"
  using gateway_runs.run_keeps_from_start [OF sys_ok_start [OF assms(1)] assms(2)] .

lemma step_opts: "gw_step s t \<Longrightarrow> sys_ok s \<Longrightarrow> gw_opts (sy_gw t) = gw_opts (sy_gw s)"
proof (induction rule: gw_step.induct)
  case (bus cs s pos g)
  then have "gw_ok (sy_gw s)" by (simp add: sys_ok_def)
  from broadcast_to_spec [OF this bus(2), of pos] bus(1,3) show ?case by auto
next
  case (admit auth flusher w s cn g)
  then show ?case
    by (auto simp: open_stream_def register_def Let_def split: if_splits prod.splits option.splits)
next
  case (refuse auth flusher w s w' g)
  then show ?case
    by (auto simp: open_stream_def register_def Let_def split: if_splits prod.splits option.splits)
next
  case (event s c cn l ev taken cn' g)
  then show ?case using stream_step_spec by simp
next
  case (leave s c cn g)
  then show ?case
    by (auto simp: unregister_def remove_client_def Let_def split: if_splits option.splits)
next
  case (stop s b g)
  then have "gw_ok (sy_gw s)" by (simp add: sys_ok_def)
  then have "distinct (gw_clients (sy_gw s))" by (simp add: gw_ok_def)
  from drop_all_spec [OF \<open>gw_ok (sy_gw s)\<close> this order_refl] stop(1) show ?case
    by (auto simp: Shutdown_def)
qed (simp_all add: registered_def)

lemma run_opts:
  assumes "gw_step\<^sup>*\<^sup>* s t" and "sys_ok s"
  shows "gw_opts (sy_gw t) = gw_opts (sy_gw s)"
  using assms
proof (induction rule: rtranclp_induct)
  case (step t u)
  then show ?case using step_opts [OF step(2)] gateway_runs.run_keeps [OF step(1)] by simp
qed simp

section \<open>A run of two clients\<close>

definition two_opts :: gw_options where
  "two_opts = \<lparr>go_client_buffer = 1, go_max_clients = 2, go_replay_window = 0, go_replay_limit = 10,
     go_heartbeat = 1, go_max_stream = 0\<rparr>"

definition two_gw :: gateway where
  "two_gw = \<lparr>gw_opts = two_opts, gw_clients = [], gw_chans = Map.empty, gw_next = 0,
     gw_sub_stop = False, gw_gauge = 0, gw_disconnects = []\<rparr>"

lemma two_gw_new: "NewGateway True True True two_opts = Inr two_gw"
  by (simp add: NewGateway_def two_opts_def two_gw_def)

definition open_chan :: "frame list \<Rightarrow> chan" where
  "open_chan fs = \<lparr>ch_buf = fs, ch_cap = 1, ch_closed = False\<rparr>"

definition fresh_conn :: "nat \<Rightarrow> phase \<Rightarrow> conn" where
  "fresh_conn c p = \<lparr>cn_client = c, cn_phase = p, cn_resp = new_resp (\<lambda>k. True), cn_sent = 0\<rparr>"

definition two_state :: "nat \<Rightarrow> phase \<Rightarrow> phase \<Rightarrow> gsys" where
  "two_state gauge p0 p1 =
     \<lparr>sy_gw = two_gw\<lparr>gw_clients := [0, 1], gw_chans := [0 \<mapsto> open_chan [], 1 \<mapsto> open_chan []],
        gw_next := 2, gw_gauge := gauge\<rparr>,
      sy_conns = [0 \<mapsto> fresh_conn 0 p0, 1 \<mapsto> fresh_conn 1 p1],
      sy_sent = [], sy_from = (\<lambda>c. 0), sy_taken = (\<lambda>c. [])\<rparr>"

lemma fun_upd_const [simp]: "(\<lambda>c. v)(x := v) = (\<lambda>c. v)"
  by auto

lemma open_stream_two:
  "open_stream None True (new_resp (\<lambda>k. True)) two_gw =
     (Inr (fresh_conn 0 (Admitted 1)),
      two_gw\<lparr>gw_clients := [0], gw_chans := [0 \<mapsto> open_chan []], gw_next := 1\<rparr>)"
  "open_stream None True (new_resp (\<lambda>k. True))
     (two_gw\<lparr>gw_clients := [0], gw_chans := [0 \<mapsto> open_chan []], gw_next := 1\<rparr>) =
     (Inr (fresh_conn 1 (Admitted 2)),
      two_gw\<lparr>gw_clients := [0, 1], gw_chans := [0 \<mapsto> open_chan [], 1 \<mapsto> open_chan []], gw_next := 2\<rparr>)"
  by (simp_all add: open_stream_def register_def two_gw_def two_opts_def open_chan_def fresh_conn_def Let_def)

lemma two_admitted: "gw_step\<^sup>*\<^sup>* (gsys_start two_gw) (two_state 0 (Admitted 1) (Admitted 2))"
proof -
  let ?s = "gsys_start two_gw"
  let ?g = "two_gw\<lparr>gw_clients := [0], gw_chans := [0 \<mapsto> open_chan []], gw_next := 1\<rparr>"
  let ?t = "?s\<lparr>sy_gw := ?g, sy_conns := [0 \<mapsto> fresh_conn 0 (Admitted 1)]\<rparr>"
  have "gw_step ?s ?t"
    using gw_step.admit [of None True "new_resp (\<lambda>k. True)" ?s, unfolded gsys_start_def gsys.simps, OF open_stream_two(1)]
    by (simp add: gsys_start_def fresh_conn_def)
  moreover have "gw_step ?t (two_state 0 (Admitted 1) (Admitted 2))"
    using gw_step.admit [of None True "new_resp (\<lambda>k. True)" ?t, unfolded gsys_start_def gsys.simps, OF open_stream_two(2)]
    by (simp add: gsys_start_def fresh_conn_def two_state_def two_gw_def)
  ultimately show ?thesis by (blast intro: converse_rtranclp_into_rtranclp)
qed

section \<open>No panic, no leak, no gap\<close>

text \<open>
  C19. No operation of the gateway panics, in any interleaving: whatever admissions, refusals,
  broadcasts, stream iterations, departures and shutdowns came before, offering a frame to the
  connected clients in any order sends on no closed channel, a shutdown closes no channel twice, and
  neither does the deferred \<open>unregister\<close> of a handler, whether or not its client was shed before.
\<close>

theorem gateway_never_panics:
  assumes "NewGateway src hist logger o0 = Inr g" and "gw_step\<^sup>*\<^sup>* (gsys_start g) t"
  shows "(\<forall>cs pos. set cs = set (gw_clients (sy_gw t)) \<longrightarrow> distinct cs \<longrightarrow>
       broadcast_to cs pos (sy_gw t) \<noteq> None) \<and>
     Shutdown (sy_gw t) \<noteq> None \<and>
     (\<forall>c cn. sy_conns t c = Some cn \<longrightarrow> unregister (cn_client cn) (sy_gw t) \<noteq> None)"
proof -
  have ok: "sys_ok t" using assms by (rule reachable_ok)
  note D = sys_okD [OF ok]
  have "broadcast_to cs pos (sy_gw t) \<noteq> None"
    if "set cs = set (gw_clients (sy_gw t))" "distinct cs" for cs pos
    using broadcast_to_spec [OF D(1) that(2), of pos] that(1) by auto
  moreover have "Shutdown (sy_gw t) \<noteq> None" using Shutdown_spec [OF D(1)] by auto
  moreover have "unregister (cn_client cn) (sy_gw t) \<noteq> None" if "sy_conns t c = Some cn" for c cn
    using unregister_spec [OF D(1) D(4) [OF that]] D(3) [OF that] by auto
  ultimately show ?thesis by blast
qed

theorem gateway_never_panics_witness:
  "Shutdown (sy_gw (two_state 0 (Admitted 1) (Admitted 2))) \<noteq> None \<and>
   broadcast_to [1, 0] zero_frame (sy_gw (two_state 0 (Admitted 1) (Admitted 2))) \<noteq> None \<and>
   unregister 0 (sy_gw (two_state 0 (Admitted 1) (Admitted 2))) \<noteq> None"
proof -
  let ?t = "two_state 0 (Admitted 1) (Admitted 2)"
  have "set [1, 0] = set (gw_clients (sy_gw ?t))" "distinct [1, 0 :: nat]"
    "sy_conns ?t 0 = Some (fresh_conn 0 (Admitted 1))" "cn_client (fresh_conn 0 (Admitted 1)) = 0"
    by (auto simp: two_state_def fresh_conn_def)
  with gateway_never_panics [OF two_gw_new two_admitted] show ?thesis by metis
qed

text \<open>
  C20. A connected client has missed nothing: in every reachable state, what a client took from its
  buffer followed by what the buffer still holds is exactly the frames broadcast since it was
  admitted, in order. Of a client that was shed or left it is a prefix of them: frames are lost only
  after a disconnection, never from the middle.
\<close>

theorem connected_misses_nothing:
  assumes "NewGateway src hist logger o0 = Inr g" and "gw_step\<^sup>*\<^sup>* (gsys_start g) t"
    and "gw_chans (sy_gw t) c = Some ch"
  shows "(c \<in> set (gw_clients (sy_gw t)) \<longrightarrow>
        sy_taken t c @ ch_buf ch = drop (sy_from t c) (sy_sent t)) \<and>
     prefix (sy_taken t c @ ch_buf ch) (drop (sy_from t c) (sy_sent t))"
  using sys_okD(5) [OF reachable_ok [OF assms(1,2)] assms(3)]
  by (auto simp: seen_ok_def split: if_splits)

definition two_sent :: gsys where
  "two_sent = (two_state 0 (Admitted 1) (Admitted 2))
     \<lparr>sy_gw := two_gw\<lparr>gw_clients := [0, 1],
        gw_chans := [0 \<mapsto> open_chan [zero_frame], 1 \<mapsto> open_chan [zero_frame]], gw_next := 2\<rparr>,
      sy_sent := [zero_frame]\<rparr>"

lemma two_sent_reachable: "gw_step\<^sup>*\<^sup>* (gsys_start two_gw) two_sent"
proof -
  let ?t = "two_state 0 (Admitted 1) (Admitted 2)"
  have "gw_step ?t (?t\<lparr>sy_gw := two_gw\<lparr>gw_clients := [0, 1],
        gw_chans := [0 \<mapsto> open_chan [zero_frame], 1 \<mapsto> open_chan [zero_frame]], gw_next := 2\<rparr>,
      sy_sent := sy_sent ?t @ [zero_frame]\<rparr>)"
    by (rule gw_step.bus [of "[0, 1]"])
      (simp_all add: two_state_def two_gw_def open_chan_def try_send_def)
  with two_admitted show ?thesis
    by (simp add: two_sent_def two_state_def)
qed

theorem connected_misses_nothing_witness:
  "sy_taken two_sent 1 @ [zero_frame] = drop (sy_from two_sent 1) (sy_sent two_sent)"
  using connected_misses_nothing [OF two_gw_new two_sent_reachable, of 1 "open_chan [zero_frame]"]
  by (simp add: two_sent_def open_chan_def)

text \<open>
  C21. The limits hold in every reachable state: never more than \<open>MaxClients\<close> clients are connected,
  no buffer, of a connected client or of one that left, holds more than \<open>ClientBuffer\<close> frames, and a
  channel is closed exactly when its client is no longer connected. So the memory the gateway holds
  for its clients is bounded by the product of the two settings.
\<close>

theorem gateway_bounded:
  assumes "NewGateway src hist logger o0 = Inr g" and "gw_step\<^sup>*\<^sup>* (gsys_start g) t"
  shows "int (SubscriberCount (sy_gw t)) \<le> go_max_clients o0 \<and> distinct (gw_clients (sy_gw t)) \<and>
     (\<forall>c ch. gw_chans (sy_gw t) c = Some ch \<longrightarrow>
        int (length (ch_buf ch)) \<le> go_client_buffer o0 \<and>
        (ch_closed ch \<longleftrightarrow> c \<notin> set (gw_clients (sy_gw t))))"
proof -
  have new: "go_max_clients (gw_opts g) = go_max_clients o0" "go_client_buffer (gw_opts g) = go_client_buffer o0"
    "1 \<le> go_max_clients o0" "1 \<le> go_client_buffer o0"
    using assms(1) by (auto simp: NewGateway_def Let_def split: if_splits)
  have "gw_opts (sy_gw t) = gw_opts g"
    using run_opts [OF assms(2) sys_ok_start [OF assms(1)]] by (simp add: gsys_start_def)
  with new have lim: "max 0 (go_max_clients (gw_opts (sy_gw t))) = go_max_clients o0"
    "int (nat (go_client_buffer (gw_opts (sy_gw t)))) = go_client_buffer o0" by simp_all
  have "gw_ok (sy_gw t)" using reachable_ok [OF assms] by (simp add: sys_ok_def)
  with lim show ?thesis unfolding gw_ok_def SubscriberCount_def by (metis of_nat_le_iff)
qed

theorem gateway_bounded_witness:
  "int (SubscriberCount (sy_gw two_sent)) \<le> 2 \<and> distinct (gw_clients (sy_gw two_sent))"
  using gateway_bounded [OF two_gw_new two_sent_reachable] by (simp add: two_opts_def)

section \<open>The gauge of connected clients\<close>

text \<open>
  \<open>register\<close> sets the gauge after it released the mutex. When the two updates of two admissions
  happen in the other order, no operation is left to run and the gauge says one client while two are
  connected; it stays wrong until the next departure or admission.
\<close>

lemma two_gauge:
  "gw_step\<^sup>*\<^sup>* (gsys_start two_gw) (two_state 1 Resuming Resuming)"
proof -
  let ?a = "two_state 0 (Admitted 1) (Admitted 2)" and ?b = "two_state 2 (Admitted 1) Resuming"
  have "gw_step ?a (?a\<lparr>sy_gw := registered 2 (sy_gw ?a),
      sy_conns := (sy_conns ?a)(1 \<mapsto> (fresh_conn 1 (Admitted 2))\<lparr>cn_phase := Resuming\<rparr>)\<rparr>)"
    by (rule gw_step.gauge) (simp_all add: two_state_def fresh_conn_def)
  then have "gw_step ?a ?b"
    by (simp add: two_state_def fresh_conn_def registered_def two_gw_def)
  moreover have "gw_step ?b (?b\<lparr>sy_gw := registered 1 (sy_gw ?b),
      sy_conns := (sy_conns ?b)(0 \<mapsto> (fresh_conn 0 (Admitted 1))\<lparr>cn_phase := Resuming\<rparr>)\<rparr>)"
    by (rule gw_step.gauge) (simp_all add: two_state_def fresh_conn_def)
  then have "gw_step ?b (two_state 1 Resuming Resuming)"
    by (simp add: two_state_def fresh_conn_def registered_def two_gw_def fun_upd_twist)
  ultimately show ?thesis using two_admitted by (meson rtranclp.rtrancl_into_rtrancl)
qed

lemma gauge_left_wrong:
  "\<exists>t. gw_step\<^sup>*\<^sup>* (gsys_start two_gw) t \<and> gw_gauge (sy_gw t) \<noteq> SubscriberCount (sy_gw t) \<and>
     (\<forall>c cn. sy_conns t c = Some cn \<longrightarrow> (\<forall>n. cn_phase cn \<noteq> Admitted n))"
proof (intro exI [of _ "two_state 1 Resuming Resuming"] conjI allI impI)
  show "gw_gauge (sy_gw (two_state 1 Resuming Resuming)) \<noteq> SubscriberCount (sy_gw (two_state 1 Resuming Resuming))"
    by (simp add: two_state_def SubscriberCount_def)
  fix c cn n
  assume "sy_conns (two_state 1 Resuming Resuming) c = Some cn"
  then show "cn_phase cn \<noteq> Admitted n" by (auto simp: two_state_def fresh_conn_def split: if_splits)
qed (rule two_gauge)

end
