(* ===== verification/Gateway_Resume.thy ===== *)
theory Gateway_Resume
  imports Gateway_Props
begin

text \<open>
  The resume of a reconnecting client, against the contract \<open>HistorySource\<close> states and its provider,
  the sink: what is written is the page after the resume point, or one control frame that says why
  there is none.
\<close>

section \<open>What the handler writes\<close>

definition frame_chunk :: "lib \<Rightarrow> frame \<Rightarrow> string" where
  "frame_chunk l p = position_chunk p (the (marshal_frame l p))"

definition resumed_chunk :: "lib \<Rightarrow> (time \<Rightarrow> string) \<Rightarrow> time \<Rightarrow> nat \<Rightarrow> string" where
  "resumed_chunk l rfc3339 ts n =
     control_chunk ''resumed'' (json_text l (JObj [(''frames'', text_int l (int n)),
       (''from'', text_str l (rfc3339 ts)), (''resumed'', json_bool l True)]))"

lemma writePosition_result:
  "writePosition l p w = (b, w') \<Longrightarrow>
   rs_body w' = rs_body w @ (if b then [frame_chunk l p] else []) \<and> rs_ok w' = rs_ok w"
  by (auto simp: writePosition_def frame_chunk_def write_chunk_def write_header_def Let_def
      split: option.splits if_splits)

lemma writePosition_ok:
  "marshal_frame l p \<noteq> None \<Longrightarrow> \<forall>k. rs_ok w k \<Longrightarrow> fst (writePosition l p w)"
  by (auto simp: writePosition_def write_chunk_def write_header_def Let_def)

lemma write_all_result:
  "write_all l ps w = (n, b, w') \<Longrightarrow>
   n \<le> length ps \<and> (b \<longrightarrow> n = length ps) \<and> rs_ok w' = rs_ok w \<and>
   rs_body w' = rs_body w @ map (frame_chunk l) (take n ps)"
proof (induction l ps w arbitrary: n b w' rule: write_all.induct)
  case (2 l p ps w)
  obtain b1 w1 where 1: "writePosition l p w = (b1, w1)" by (cases "writePosition l p w")
  note r1 = writePosition_result [OF 1]
  show ?case
  proof (cases b1)
    case True
    obtain m b2 w2 where 2: "write_all l ps w1 = (m, b2, w2)" by (cases "write_all l ps w1")
    from "2.IH" [OF 1 [symmetric] _ 2] "2.prems" 1 2 r1 True show ?thesis by auto
  qed (use "2.prems" 1 r1 in auto)
qed simp

lemma write_all_ok:
  "\<forall>p \<in> set ps. marshal_frame l p \<noteq> None \<Longrightarrow> \<forall>k. rs_ok w k \<Longrightarrow> fst (snd (write_all l ps w))"
proof (induction l ps w rule: write_all.induct)
  case (2 l p ps w)
  obtain b1 w1 where 1: "writePosition l p w = (b1, w1)" by (cases "writePosition l p w")
  have b1 using writePosition_ok [of l p w] 2(2,3) 1 by simp
  moreover have "rs_ok w1 = rs_ok w" using writePosition_result [OF 1] by simp
  ultimately have "fst (snd (write_all l ps w1))"
    using 2(1) [OF 1 [symmetric]] 2(2,3) by simp
  with 1 \<open>b1\<close> show ?case by (auto split: prod.splits)
qed simp

lemma writeFrame_body:
  "rs_body (writeFrame l name body w) =
     rs_body w @ (if rs_ok w (rs_writes w) then [control_chunk name (json_text l (JObj body))] else [])"
  by (simp add: writeFrame_def http_simps)

section \<open>The contract of the history\<close>

text \<open>
  \<open>newer i\<close> is what the client that presents \<open>i\<close> has missed, in the order frames are sent in. The
  law is what the interface's comments ask of an implementation: a page is the start of that.
\<close>

locale history_source =
  fixes time_of :: "string \<Rightarrow> sink_error + time \<times> bool"
    and since :: "time \<Rightarrow> string \<Rightarrow> int \<Rightarrow> sink_error + frame list"
    and newer :: "string \<Rightarrow> frame list"
  assumes page: "time_of i = Inr (ts, True) \<Longrightarrow> since ts i n = Inr fs \<Longrightarrow> fs = take (nat n) (newer i)"
begin

lemma replay_writes_page:
  assumes h: "hs_time h = time_of" "hs_since h = since"
    and id: "(if header = [] then query else header) = i" "i \<noteq> []"
    and ts: "time_of i = Inr (ts, True)"
    and win: "go_replay_window opts > 0 \<Longrightarrow> now - ts \<le> go_replay_window opts"
    and fs: "since ts i (go_replay_limit opts) = Inr fs"
    and r: "replay l show_dur rfc3339 opts h now header query w = (n, w')"
  shows "\<exists>rest. rs_body w' = rs_body w @ map (frame_chunk l) (take n fs) @ rest \<and>
      fs = take (nat (go_replay_limit opts)) (newer i) \<and> n \<le> length fs \<and>
      (rest \<noteq> [] \<longrightarrow> n = length fs \<and> rest = [resumed_chunk l rfc3339 ts n]) \<and>
      ((\<forall>k. rs_ok w k) \<and> (\<forall>p \<in> set fs. marshal_frame l p \<noteq> None) \<longrightarrow>
         rest = [resumed_chunk l rfc3339 ts n])"
proof -
  obtain m b w1 where m: "write_all l fs w = (m, b, w1)" by (cases "write_all l fs w")
  note res = write_all_result [OF m]
  have fs': "fs = take (nat (go_replay_limit opts)) (newer i)" by (rule page [OF ts fs])
  have r': "(n, w') = (if b then (m, writeFrame l ''resumed''
      [(''frames'', text_int l (int m)), (''from'', text_str l (rfc3339 ts)), (''resumed'', json_bool l True)] w1)
      else (m, w1))"
    using r h id ts win fs m by (auto simp: replay_def Let_def split: bool.splits if_splits)
  show ?thesis
  proof (cases b)
    case True
    then have "rs_body w' = rs_body w @ map (frame_chunk l) (take n fs) @
        (if rs_ok w (rs_writes w1) then [resumed_chunk l rfc3339 ts n] else [])"
      using r' res by (simp add: writeFrame_body resumed_chunk_def)
    moreover have "n = length fs" "rs_ok w1 = rs_ok w" using True r' res by simp_all
    ultimately show ?thesis using fs'
      by (intro exI [of _ "if rs_ok w (rs_writes w1) then [resumed_chunk l rfc3339 ts n] else []"])
        (auto split: if_splits)
  next
    case False
    then have "\<not> ((\<forall>k. rs_ok w k) \<and> (\<forall>p \<in> set fs. marshal_frame l p \<noteq> None))"
      using write_all_ok [of fs l w] m by (metis fst_conv snd_conv)
    moreover have "rs_body w' = rs_body w @ map (frame_chunk l) (take n fs)" "n \<le> length fs"
      using False r' res by simp_all
    ultimately show ?thesis using fs' by (intro exI [of _ "[]"] conjI) (simp, simp, simp, simp, blast)
  qed
qed

end

section \<open>The sink as the history\<close>

text \<open>The store the gateway is given, in one state of the database and with the faults it meets.\<close>

definition history_of ::
  "pg_lib \<Rightarrow> store \<Rightarrow> pg_error option \<Rightarrow> query_fault option \<Rightarrow> sink_db \<Rightarrow> history" where
  "history_of pg st tf sf db =
     \<lparr>hs_time = (\<lambda>i. PositionTime pg (Some st) tf i db),
      hs_since = (\<lambda>ts i n. PositionsSince pg (Some st) sf ts i n db),
      hs_current = Some (\<lambda>v. CurrentPosition (Some st) tf v db)\<rparr>"

definition missed :: "pg_lib \<Rightarrow> sink_db \<Rightarrow> string \<Rightarrow> frame list" where
  "missed pg db i =
     (case pg_uuid pg i of
        None \<Rightarrow> []
      | Some u \<Rightarrow>
          (case row_of r_event_id u (vehicle_positions db) of
             None \<Rightarrow> []
           | Some r \<Rightarrow> map frame_of_row (rows_after (point_of r) (vehicle_positions db))))"

interpretation sink_history: history_source
  "\<lambda>i. PositionTime pg (Some st) tf i db" "\<lambda>ts i n. PositionsSince pg (Some st) sf ts i n db" "missed pg db"
  for pg st tf sf db
proof
  fix i ts n fs
  assume "PositionTime pg (Some st) tf i db = Inr (ts, True)"
  then obtain u r where u: "pg_uuid pg i = Some u" "row_of r_event_id u (vehicle_positions db) = Some r"
    "ts = of_usec (r_event_ts r)"
    by (auto simp: PositionTime_def split: if_splits option.splits)
  then have "point_of r = RP (usec ts) u" using row_of_SomeD [OF u(2)] by (simp add: point_of_def)
  moreover assume "PositionsSince pg (Some st) sf ts i n db = Inr fs"
  ultimately show "fs = take (nat n) (missed pg db i)"
    using u by (auto simp: PositionsSince_def missed_def take_map split: if_splits option.splits query_fault.splits)
qed

text \<open>
  C23. What a resume sends: for an id the history knows, within the window, the handler writes the
  frames the client has missed, in \<open>(event_ts, event_id)\<close> order and no others, up to \<open>ReplayLimit\<close>, and
  reports \<open>resumed\<close> with their number only after the last of them was written. If no write fails,
  all of that page is written. A page that the limit cut is reported as \<open>resumed\<close> all the same.
\<close>

theorem resume_exact:
  assumes "st_pool st" and "lastID \<noteq> []" and "pg_uuid pg lastID = Some u"
    and "row_of r_event_id u (vehicle_positions db) = Some r" and "0 < go_replay_limit opts"
    and "go_replay_window opts > 0 \<Longrightarrow> now - of_usec (r_event_ts r) \<le> go_replay_window opts"
    and "replay l show_dur rfc3339 opts (history_of pg st None None db) now header query w = (n, w')"
    and "(if header = [] then query else header) = lastID"
  shows "\<exists>page rest. rs_body w' = rs_body w @ map (frame_chunk l) (take n page) @ rest \<and>
      page = take (nat (go_replay_limit opts))
        (map frame_of_row (rows_after (point_of r) (vehicle_positions db))) \<and> n \<le> length page \<and>
      (rest \<noteq> [] \<longrightarrow> n = length page \<and> rest = [resumed_chunk l rfc3339 (of_usec (r_event_ts r)) n]) \<and>
      ((\<forall>k. rs_ok w k) \<and> (\<forall>p \<in> set page. marshal_frame l p \<noteq> None) \<longrightarrow>
         rest = [resumed_chunk l rfc3339 (of_usec (r_event_ts r)) n])"
proof -
  let ?ts = "of_usec (r_event_ts r)"
  have time: "PositionTime pg (Some st) None lastID db = Inr (?ts, True)"
    using assms(1-4) by (simp add: PositionTime_def)
  obtain fs where fs: "PositionsSince pg (Some st) None ?ts lastID (go_replay_limit opts) db = Inr fs"
    using assms(1-3,5) by (simp add: PositionsSince_def)
  have m: "missed pg db lastID = map frame_of_row (rows_after (point_of r) (vehicle_positions db))"
    using assms(3,4) by (simp add: missed_def)
  have h: "hs_time (history_of pg st None None db) = (\<lambda>i. PositionTime pg (Some st) None i db)"
    "hs_since (history_of pg st None None db) = (\<lambda>ts i n. PositionsSince pg (Some st) None ts i n db)"
    by (simp_all add: history_of_def)
  from sink_history.replay_writes_page [OF h assms(8,2) time assms(6) fs assms(7)] m
  show ?thesis by metis
qed

text \<open>A resume of the two-row history after its first row.\<close>

definition limit_opts :: "int \<Rightarrow> gw_options" where
  "limit_opts n = \<lparr>go_client_buffer = 1, go_max_clients = 2, go_replay_window = 0, go_replay_limit = n,
     go_heartbeat = 1, go_max_stream = 0\<rparr>"

theorem resume_exact_witness:
  "\<exists>n w' rest. replay sample_lib (\<lambda>d. []) (\<lambda>t. []) (limit_opts 10) (history_of sample_pg sample_store None None two_rows_db)
      9000 ''u1'' [] (new_resp (\<lambda>k. True)) = (n, w') \<and>
    rs_body w' = map (frame_chunk sample_lib) (take n [frame_of_row second_row]) @ rest"
proof -
  let ?w = "new_resp (\<lambda>k. True)"
  obtain n w' where r: "replay sample_lib (\<lambda>d. []) (\<lambda>t. []) (limit_opts 10)
      (history_of sample_pg sample_store None None two_rows_db) 9000 ''u1'' [] ?w = (n, w')"
    by (metis surj_pair)
  have row: "row_of r_event_id ''u1'' (vehicle_positions two_rows_db) = Some first_row"
    "pg_uuid sample_pg ''u1'' = Some ''u1''"
    by (simp_all add: two_rows row_of_def first_row_def second_row_def sample_input_def newer_input_def
        sample_position_def sample_pg_def)
  have after: "rows_after (point_of first_row) (vehicle_positions two_rows_db) = [second_row]"
    using two_rows_after two_points by (simp add: two_rows)
  from resume_exact [OF _ _ row(2,1) _ _ r] after have
    "\<exists>rest. rs_body w' = rs_body ?w @ map (frame_chunk sample_lib) (take n [frame_of_row second_row]) @ rest"
    by (auto simp: sample_store_def limit_opts_def)
  with r show ?thesis by (simp add: new_resp_def)
qed

text \<open>
  When there is nothing to resume from, the handler writes one control frame, with no \<open>id:\<close> line,
  and no position: \<open>ready\<close> without an id, \<open>reset\<close> for an id the history does not hold or holds from
  before the window, \<open>error\<close> for an id that is no UUID to Postgres, although the database is up.
\<close>

lemma resume_refused:
  assumes "st_pool st" and "i = (if header = [] then query else header)"
    and "replay l show_dur rfc3339 opts (history_of pg st None None db) now header query w = (n, w')"
    and "name = (if i = [] then ''ready'' else if pg_uuid pg i = None then ''error'' else ''reset'')"
    and "\<And>u r. i \<noteq> [] \<Longrightarrow> pg_uuid pg i = Some u \<Longrightarrow> row_of r_event_id u (vehicle_positions db) = Some r \<Longrightarrow>
      go_replay_window opts > 0 \<and> now - of_usec (r_event_ts r) > go_replay_window opts"
  shows "n = 0 \<and> (\<exists>pl. rs_body w' =
      rs_body w @ (if rs_ok w (rs_writes w) then [''event: '' @ name @ newline @ ''data: '' @ pl @ newline @ newline] else []))"
proof (cases "i = []")
  case True
  then show ?thesis
    using assms(2-4) by (auto simp: replay_def Let_def writeFrame_body control_chunk_def split: if_splits)
next
  case i: False
  note R = assms(3) [unfolded replay_def Let_def, folded assms(2)]
  show ?thesis
  proof (cases "pg_uuid pg i")
    case None
    then show ?thesis
      using R i assms(1,4) by (auto simp: history_of_def PositionTime_def writeFrame_body control_chunk_def)
  next
    case (Some u)
    show ?thesis
    proof (cases "row_of r_event_id u (vehicle_positions db)")
      case None
      with Some show ?thesis
        using R i assms(1,4) by (auto simp: history_of_def PositionTime_def writeFrame_body control_chunk_def)
    next
      case row: (Some r)
      from assms(5) [OF i Some row] Some row show ?thesis
        using R i assms(1,4) by (auto simp: history_of_def PositionTime_def writeFrame_body control_chunk_def)
    qed
  qed
qed

end
