(* ===== verification/Delivery.thy ===== *)
theory Delivery
  imports Event_Props Consumer_Props Gateway_Resume
begin

text \<open>
  From the bytes on the log to the tables, the live bus and the streams of the gateway: the consumer
  over a database and a bus that answer, and what the frame it publishes becomes in a gateway. The
  theorems that rest on these lemmas are in the root theory.
\<close>

section \<open>The consumer on a calm day\<close>

lemma processOne_decoded:
  assumes "Decode l (value_of r) = Inr env" and "IsKnownEventType env" and "AsVehiclePosition l env = Inr pos"
  shows "processOne c l t d r w = apply_loop c t d env pos r 0 w"
  using assms by (simp add: processOne_def value_of_def)

text \<open>What ingest published is decoded to the envelope and the position it accepted.\<close>

lemma submission_decoded:
  assumes "Accept l raw src now fresh = Inr (env, pos)" and "now \<noteq> 0"
    and "position_codec l pos" and "envelope_codec l env" and "json_scan l [] = Incomplete"
    and "Marshal l env = Inr wire" and "kr_value r = Some wire"
  shows "processOne c l t d r w = apply_loop c t d env pos r 0 w"
proof -
  note H = Accept_header [OF assms(1)]
  from position_roundtrip [OF assms(3)] H(7)
  have d: "decode_doc l position_names (store_position l) (payload env) zero_position = Some pos" by simp
  then have "payload env \<noteq> []" using assms(5) by (auto simp: decode_doc_def)
  then have "validateHeader l env = None"
    using H assms(2) by (simp add: validateHeader_def Version_def EventTypeVehiclePosition_def)
  from envelope_roundtrip [OF assms(4) this] assms(6) have "Decode l wire = Inr env" by simp
  moreover have "IsKnownEventType env" "AsVehiclePosition l env = Inr pos"
    using H d by (simp_all add: IsKnownEventType_def AsVehiclePosition_def)
  moreover have "value_of r = wire" using assms(7) by (simp add: value_of_def)
  ultimately show ?thesis by (intro processOne_decoded) simp_all
qed

lemma storable_input_of:
  "storable pg cid (input_of env pos r) \<longleftrightarrow> storable pg cid (input_of env pos r')"
  by (simp add: storable_def input_of_def key_of_input_def)

lemma after_apply_db [simp]: "w_db (after_apply (live_deps s e) env pos out w) = w_db w"
  by (auto simp: after_apply_def publish_def live_deps_def live_publish_def
      split: outcome.splits option.splits sum.splits)

text \<open>The loop ends in its first iteration, with the outcome of an Apply no fault interrupts.\<close>

lemma apply_loop_outcome:
  assumes inv: "sink_inv (w_db w)" and pool: "st_pool (s_store s)"
    and tx: "e_tx e (w_calls w) = calm now"
    and ok: "storable (s_pg s) (st_consumer_id (s_store s)) (input_of env pos r)"
    and u: "key_of_input (s_pg s) (input_of env pos r) = Some u"
  shows "\<exists>out w1. apply_loop c t (live_deps s e) env pos r n w = (True, after_apply (live_deps s e) env pos out w1) \<and>
    w_bus w1 = w_bus w \<and> w_calls w1 = Suc (w_calls w) \<and>
    (if u \<in> dom (processed_events (w_db w)) then out = OutcomeDuplicate \<and> w_db w1 = w_db w
     else out \<noteq> OutcomeDuplicate \<and>
       w_db w1 = apply_effect (s_pg s) (st_consumer_id (s_store s)) now (input_of env pos r) u (w_db w))"
proof -
  obtain res db1 where a: "Apply (s_pg s) (Some (s_store s)) (calm now) (input_of env pos r) (w_db w) = (res, db1)"
    by (metis surj_pair)
  from Apply_calm [OF inv ok pool u, of now] a obtain out where out: "res = Inr out"
    "if u \<in> dom (processed_events (w_db w)) then out = OutcomeDuplicate \<and> db1 = w_db w
     else out \<noteq> OutcomeDuplicate \<and>
       db1 = apply_effect (s_pg s) (st_consumer_id (s_store s)) now (input_of env pos r) u (w_db w)"
    by (auto split: if_splits)
  have "apply_loop c t (live_deps s e) env pos r n w =
      (True, after_apply (live_deps s e) env pos out (w\<lparr>w_db := db1, w_calls := Suc (w_calls w)\<rparr>))"
    using a tx out(1) by (simp add: apply_loop.simps [of c t "live_deps s e" env pos r n w] live_apply_def Let_def)
  with out(2) show ?thesis
    by (intro exI [of _ out] exI [of _ "w\<lparr>w_db := db1, w_calls := Suc (w_calls w)\<rparr>"]) simp
qed

lemma apply_loop_calm:
  assumes "sink_inv (w_db w)" and "st_pool (s_store s)" and "e_tx e (w_calls w) = calm now"
    and "storable (s_pg s) (st_consumer_id (s_store s)) (input_of env pos r)"
    and "key_of_input (s_pg s) (input_of env pos r) = Some u"
  shows "\<exists>w'. apply_loop c t (live_deps s e) env pos r n w = (True, w') \<and>
    w_db w' = (if u \<in> dom (processed_events (w_db w)) then w_db w
      else apply_effect (s_pg s) (st_consumer_id (s_store s)) now (input_of env pos r) u (w_db w))"
  using apply_loop_outcome [OF assms, of c t n] by (auto split: if_splits)

section \<open>The live bus\<close>

lemma live_frame_valid:
  assumes "event_id env \<noteq> []" and "Validate pos = None"
  shows "frame_validate (live_frame env pos) = None"
  using assms Validate_NoneD [OF assms(2)] by (simp add: frame_validate_def live_frame_def)

text \<open>A report that took effect is offered to the bus once, and is on it when Redis answers.\<close>

lemma after_apply_publishes:
  assumes "out \<noteq> OutcomeDuplicate" and "s_pub s = Some p" and "re_client p"
    and "frame_validate (live_frame env pos) = None" and "marshal_frame (s_lib s) (live_frame env pos) = Some m"
    and "e_redis e (w_calls w) = Inr n"
  shows "w_bus (after_apply (live_deps s e) env pos out w) = w_bus w @ [live_frame env pos]"
  using assms
  by (cases out) (auto simp: after_apply_def publish_def live_deps_def live_publish_def Publish_def)

text \<open>A gateway reads back the frame from the bytes of the message, and keeps it if its channel has room.\<close>

lemma frame_received:
  assumes "frame_codec l f" and "frame_validate f = None"
  shows "\<exists>m. marshal_frame l f = Some m \<and>
    (\<forall>out. length out < frames_capacity \<longrightarrow> frames_loop l [Msg m] out = (out @ [f], False))"
  using frame_roundtrip [OF assms(1)] assms(2) by (auto simp: on_message_def)

section \<open>The streams\<close>

text \<open>A handler that takes the frame writes it with its id and the very bytes of the message.\<close>

lemma frame_written:
  assumes "gw_chans g (cn_client cn) = Some ch" and "ch_buf ch = f # rest"
    and "marshal_frame l f = Some m" and "\<forall>k. rs_ok (cn_resp cn) k"
  shows "\<exists>cn' g'. stream_step l Receive cn g = Some (Some f, cn', g') \<and>
    rs_body (cn_resp cn') = rs_body (cn_resp cn) @ [position_chunk f m]"
  using assms
  by (auto simp: stream_step_def Let_def writePosition_def write_chunk_def write_header_def)

end
