(* ===== verification/Ledger.thy ===== *)
theory Ledger
  imports Sink_Props
begin

text \<open>
  The abstract specification of the sink: one append-only list of reports. The five tables and the
  transactions of \<open>Store\<close> implement it, under every fault: a delivery takes one step of the ledger or
  none, what it answers is what the ledger answers or an error, and what the gateway reads is a
  function of the ledger.
\<close>

section \<open>The ledger\<close>

type_synonym ledger = "position_row list"

text \<open>A report that is in the ledger changes nothing; one that is not newer is kept and called late.\<close>

definition ledger_put :: "position_row \<Rightarrow> ledger \<Rightarrow> outcome \<times> ledger" where
  "ledger_put r L =
     (if r_event_id r \<in> r_event_id ` set L then (OutcomeDuplicate, L)
      else (if \<exists>x \<in> set L. r_vehicle_id x = r_vehicle_id r \<and> r_event_ts r \<le> r_event_ts x
            then OutcomeLate else OutcomeApplied, L @ [r]))"

text \<open>
  One delivery of the report \<open>r\<close>: lost, answered, or taken without the answer. A delivery that has no
  report, because its identifier is none, can only be lost.
\<close>

inductive ledger_step :: "position_row option \<Rightarrow> ledger \<Rightarrow> sink_error + outcome \<Rightarrow> ledger \<Rightarrow> bool" where
  lost: "ledger_step r L (Inl e) L"
| answered: "ledger_put r L = (out, L') \<Longrightarrow> ledger_step (Some r) L (Inr out) L'"
| unanswered: "ledger_put r L = (out, L') \<Longrightarrow> ledger_step (Some r) L (Inl e) L'"

inductive ledger_run :: "(position_row option \<times> (sink_error + outcome)) list \<Rightarrow> ledger \<Rightarrow> ledger \<Rightarrow> bool" where
  stop: "ledger_run [] L L"
| next_delivery: "ledger_step r L a L1 \<Longrightarrow> ledger_run xs L1 L2 \<Longrightarrow> ledger_run ((r, a) # xs) L L2"

inductive_cases ledger_stepE: "ledger_step r L a L'"
inductive_simps ledger_run_Cons: "ledger_run (x # xs) L L'"

text \<open>The report a delivery carries: what the transaction would write for it.\<close>

definition report_of :: "pg_lib \<Rightarrow> tx_env \<Rightarrow> input \<Rightarrow> position_row option" where
  "report_of pg env i = map_option (\<lambda>u. position_row_of pg u (tx_now env) i) (key_of_input pg i)"

section \<open>The simulation\<close>

lemma is_late_iff:
  "is_late i db \<longleftrightarrow> (\<exists>x \<in> set (vehicle_positions db). r_vehicle_id x = vehicle_id (i_position i) \<and>
     usec (event_ts (i_position i)) \<le> r_event_ts x)"
proof (cases "latest_row (vehicle_positions db) (vehicle_id (i_position i))")
  case None
  moreover have "vehicle_id (i_position i) \<notin> r_vehicle_id ` set (vehicle_positions db)"
    using None by (simp add: latest_row_None_iff)
  ultimately show ?thesis by (simp add: is_late_def image_iff) metis
next
  case (Some a)
  from latest_row_SomeD [OF this] Some show ?thesis by (fastforce simp: is_late_def)
qed

lemma ledger_put_row:
  assumes "sink_inv db"
  shows "ledger_put (position_row_of pg u now i) (vehicle_positions db) =
    (if u \<in> dom (processed_events db) then (OutcomeDuplicate, vehicle_positions db)
     else (if is_late i db then OutcomeLate else OutcomeApplied,
           vehicle_positions (apply_effect pg cid now i u db)))"
  using sink_invD(2) [OF assms] by (simp add: ledger_put_def is_late_iff apply_effect_def)

lemma Apply_simulated:
  assumes "sink_inv db" and "Apply pg s env i db = (r, db')"
  shows "ledger_step (report_of pg env i) (vehicle_positions db) r (vehicle_positions db')"
  using assms
proof (cases rule: Apply_cases)
  case (unchanged e)
  then show ?thesis by (auto intro: ledger_step.lost)
next
  case (duplicate u)
  then show ?thesis
    using ledger_put_row [OF assms(1), of pg u "tx_now env" i]
    by (auto simp: report_of_def intro: ledger_step.intros)
next
  case (effect u st)
  then show ?thesis
    using ledger_put_row [OF assms(1), of pg u "tx_now env" i "st_consumer_id st"]
    by (auto simp: report_of_def intro: ledger_step.intros)
qed

lemma deliveries_simulated:
  "sink_inv db \<Longrightarrow> deliveries (Apply pg s) ds db = (rs, db') \<Longrightarrow>
   ledger_run (zip (map (\<lambda>(env, i). report_of pg env i) ds) (map snd rs))
     (vehicle_positions db) (vehicle_positions db') \<and> map fst rs = map snd ds"
proof (induction ds arbitrary: db rs)
  case Nil
  then show ?case by (simp add: ledger_run.stop)
next
  case (Cons d ds)
  obtain env i where d: "d = (env, i)" by (metis surj_pair)
  obtain r db1 where 1: "Apply pg s env i db = (r, db1)" by (metis surj_pair)
  obtain rs1 where 2: "deliveries (Apply pg s) ds db1 = (rs1, db')"
    using Cons.prems(2) 1 d by (auto simp: Let_def split: prod.splits)
  have "sink_inv db1" using Apply_inv [OF Cons.prems(1), of pg s env i] 1 by simp
  with Cons.IH [OF this 2] Apply_simulated [OF Cons.prems(1) 1] Cons.prems(2) 1 2 show ?case
    by (auto simp: d intro: ledger_run.next_delivery)
qed

section \<open>The refinement\<close>



end
