(* ===== verification/Config.thy ===== *)
theory Config
  imports Prelude "HOL-Library.State_Monad"
begin

text \<open>
  The configuration of every process, \<open>internal/platform/config/config.go\<close>. The environment is a
  function from names to texts, and the slice of errors that each helper appends to is the state of
  the library's state monad. \<open>pd\<close> is \<open>time.ParseDuration\<close>, whose syntax is not modelled.
\<close>

section \<open>The configuration\<close>

type_synonym environment = "string \<Rightarrow> string option"

datatype level = LevelDebug | LevelInfo | LevelWarn | LevelError

record postgres_cfg =
  cp_url :: string
  cp_max_conns :: int
  cp_min_conns :: int
  cp_lifetime :: duration
  cp_connect :: duration

record redis_cfg =
  cr_url :: string
  cr_dial :: duration
  cr_read :: duration
  cr_write :: duration
  cr_channel :: string

record broker_cfg =
  cb_seeds :: "string list"
  cb_raw_topic :: string
  cb_dlq_topic :: string
  cb_raw_parts :: int
  cb_dlq_parts :: int
  cb_retention :: duration
  cb_dlq_retention :: duration

record ingest_cfg =
  ci_addr :: string
  ci_shutdown :: duration
  ci_read :: duration
  ci_write :: duration
  ci_idle :: duration
  ci_max_body :: int
  ci_max_batch :: int
  ci_api_key :: string

record consumer_cfg =
  cc_group :: string
  cc_metrics_addr :: string
  cc_batch_size :: int
  cc_commit :: duration
  cc_shutdown :: duration
  cc_max_retries :: int
  cc_backoff_base :: duration
  cc_backoff_max :: duration

record simulator_cfg =
  cs_url :: string
  cs_vehicles :: int
  cs_seed :: int
  cs_rate :: int
  cs_batch :: int
  cs_workers :: int
  cs_step_ms :: int
  cs_duration :: duration
  cs_api_key :: string

record gateway_cfg =
  cg_addr :: string
  cg_buffer :: int
  cg_window :: duration
  cg_max_clients :: int
  cg_shutdown :: duration
  cg_read :: duration
  cg_write :: duration

record config =
  cf_env :: string
  cf_level :: level
  cf_postgres :: postgres_cfg
  cf_redis :: redis_cfg
  cf_broker :: broker_cfg
  cf_ingest :: ingest_cfg
  cf_consumer :: consumer_cfg
  cf_simulator :: simulator_cfg
  cf_gateway :: gateway_cfg

text \<open>A problem, with the values the code formats into its sentence.\<close>

datatype cfg_error =
    RequiredUnset string
  | NotAnInteger string string
  | NotADuration string string
  | UnknownLevel string
  | MinOverMax int int
  | SeedsEmpty
  | BelowOne string int
  | RetriesNegative int
  | BackoffBaseNotPositive
  | BackoffMaxBelowBase duration duration
  | IngestURLEmpty
  | KeyRequiredInProd
  | KeyTooShort
  | UnknownEnv string

section \<open>The helpers\<close>

type_synonym 'a loading = "(cfg_error list, 'a) state"

definition problem :: "cfg_error \<Rightarrow> unit loading" where
  "problem e = State (\<lambda>errs. ((), errs @ [e]))"

definition envString :: "environment \<Rightarrow> string \<Rightarrow> string \<Rightarrow> string" where
  "envString env key d = (case env key of Some v \<Rightarrow> trim_space v | None \<Rightarrow> d)"

definition envRequired :: "environment \<Rightarrow> string \<Rightarrow> string loading" where
  "envRequired env key =
     (case env key of
        None \<Rightarrow> do { problem (RequiredUnset key); State_Monad.return [] }
      | Some v \<Rightarrow>
          if trim_space v = [] then do { problem (RequiredUnset key); State_Monad.return [] }
          else State_Monad.return (trim_space v))"

text \<open>\<open>strconv.Atoi\<close>: an optional sign and decimal digits, in the range of \<open>int\<close>.\<close>

definition atoi :: "string \<Rightarrow> int option" where
  "atoi s =
     (let (neg, ds) = (case s of [] \<Rightarrow> (False, [])
                       | c # cs \<Rightarrow> if c = CHR ''-'' then (True, cs)
                                 else if c = CHR ''+'' then (False, cs) else (False, s))
      in case parse_nat ds of
           None \<Rightarrow> None
         | Some n \<Rightarrow>
             let i = (if neg then - int n else int n) in
             if - (2 ^ 63) \<le> i \<and> i < 2 ^ 63 then Some i else None)"

definition envInt :: "environment \<Rightarrow> string \<Rightarrow> int \<Rightarrow> int loading" where
  "envInt env key d =
     (case env key of
        None \<Rightarrow> State_Monad.return d
      | Some raw \<Rightarrow>
          if trim_space raw = [] then State_Monad.return d
          else (case atoi (trim_space raw) of
                  None \<Rightarrow> do { problem (NotAnInteger key raw); State_Monad.return d }
                | Some n \<Rightarrow> State_Monad.return n))"

definition envDuration ::
  "(string \<Rightarrow> duration option) \<Rightarrow> environment \<Rightarrow> string \<Rightarrow> duration \<Rightarrow> duration loading" where
  "envDuration pd env key d =
     (case env key of
        None \<Rightarrow> State_Monad.return d
      | Some raw \<Rightarrow>
          if trim_space raw = [] then State_Monad.return d
          else (case pd (trim_space raw) of
                  None \<Rightarrow> do { problem (NotADuration key raw); State_Monad.return d }
                | Some n \<Rightarrow> State_Monad.return n))"

definition parseLevel :: "string \<Rightarrow> level loading" where
  "parseLevel raw =
     (let s = to_lower (trim_space raw) in
      if s = ''debug'' then State_Monad.return LevelDebug
      else if s = ''info'' \<or> s = [] then State_Monad.return LevelInfo
      else if s = ''warn'' \<or> s = ''warning'' then State_Monad.return LevelWarn
      else if s = ''error'' then State_Monad.return LevelError
      else do { problem (UnknownLevel raw); State_Monad.return LevelInfo })"

text \<open>\<open>strings.Split\<close> on a comma.\<close>

fun split_commas :: "string \<Rightarrow> string list" where
  "split_commas [] = [[]]"
| "split_commas (c # cs) =
     (if c = CHR '','' then [] # split_commas cs
      else (case split_commas cs of [] \<Rightarrow> [[c]] | p # ps \<Rightarrow> (c # p) # ps))"

definition splitNonEmpty :: "string \<Rightarrow> string list" where
  "splitNonEmpty v = filter (\<lambda>p. p \<noteq> []) (map trim_space (split_commas v))"

text \<open>The conversion of an \<open>int\<close> to an \<open>int32\<close>.\<close>

definition wrap32 :: "int \<Rightarrow> int" where
  "wrap32 x = (x + 2 ^ 31) mod 2 ^ 32 - 2 ^ 31"

section \<open>The sections\<close>

definition seconds :: "int \<Rightarrow> duration" where "seconds n = n * 10 ^ 9"
definition minutes :: "int \<Rightarrow> duration" where "minutes n = seconds (60 * n)"
definition hours :: "int \<Rightarrow> duration" where "hours n = minutes (60 * n)"

definition RoleProducer :: string where "RoleProducer = ''producer''"
definition RoleService :: string where "RoleService = ''service''"

definition load_postgres :: "(string \<Rightarrow> duration option) \<Rightarrow> environment \<Rightarrow> string \<Rightarrow> postgres_cfg loading" where
  "load_postgres pd env role =
     do {
       url \<leftarrow> (if role = RoleProducer then State_Monad.return (envString env ''DATABASE_URL'' [])
               else envRequired env ''DATABASE_URL'');
       mx \<leftarrow> envInt env ''DB_MAX_CONNS'' 10;
       mn \<leftarrow> envInt env ''DB_MIN_CONNS'' 1;
       life \<leftarrow> envDuration pd env ''DB_MAX_CONN_LIFETIME'' (hours 1);
       conn \<leftarrow> envDuration pd env ''DB_CONNECT_TIMEOUT'' (seconds 5);
       State_Monad.return \<lparr>cp_url = url, cp_max_conns = wrap32 mx, cp_min_conns = wrap32 mn,
         cp_lifetime = life, cp_connect = conn\<rparr>
     }"

definition load_redis :: "(string \<Rightarrow> duration option) \<Rightarrow> environment \<Rightarrow> redis_cfg loading" where
  "load_redis pd env =
     do {
       d \<leftarrow> envDuration pd env ''REDIS_DIAL_TIMEOUT'' (seconds 2);
       r \<leftarrow> envDuration pd env ''REDIS_READ_TIMEOUT'' (seconds 3);
       w \<leftarrow> envDuration pd env ''REDIS_WRITE_TIMEOUT'' (seconds 3);
       State_Monad.return \<lparr>cr_url = envString env ''REDIS_URL'' ''redis://localhost:6380/0'', cr_dial = d,
         cr_read = r, cr_write = w, cr_channel = envString env ''REDIS_CHANNEL'' ''telemetry:live''\<rparr>
     }"

definition load_broker :: "(string \<Rightarrow> duration option) \<Rightarrow> environment \<Rightarrow> broker_cfg loading" where
  "load_broker pd env =
     do {
       raw \<leftarrow> envInt env ''BROKER_RAW_PARTITIONS'' 6;
       dlq \<leftarrow> envInt env ''BROKER_DLQ_PARTITIONS'' 3;
       ret \<leftarrow> envDuration pd env ''BROKER_RETENTION'' (hours 24);
       dret \<leftarrow> envDuration pd env ''BROKER_DLQ_RETENTION'' (hours (7 * 24));
       State_Monad.return \<lparr>cb_seeds = splitNonEmpty (envString env ''BROKER_SEEDS'' ''localhost:19092''),
         cb_raw_topic = envString env ''BROKER_RAW_TOPIC'' ''telemetry.raw.v1'',
         cb_dlq_topic = envString env ''BROKER_DLQ_TOPIC'' ''telemetry.dlq.v1'',
         cb_raw_parts = raw, cb_dlq_parts = dlq, cb_retention = ret, cb_dlq_retention = dret\<rparr>
     }"

definition load_ingest :: "(string \<Rightarrow> duration option) \<Rightarrow> environment \<Rightarrow> ingest_cfg loading" where
  "load_ingest pd env =
     do {
       s \<leftarrow> envDuration pd env ''INGEST_SHUTDOWN_TIMEOUT'' (seconds 15);
       r \<leftarrow> envDuration pd env ''INGEST_READ_TIMEOUT'' (seconds 15);
       w \<leftarrow> envDuration pd env ''INGEST_WRITE_TIMEOUT'' (seconds 30);
       i \<leftarrow> envDuration pd env ''INGEST_IDLE_TIMEOUT'' (seconds 60);
       body \<leftarrow> envInt env ''INGEST_MAX_BODY_BYTES'' (2 * 2 ^ 20);
       batch \<leftarrow> envInt env ''INGEST_MAX_BATCH'' 500;
       State_Monad.return \<lparr>ci_addr = envString env ''INGEST_ADDR'' '':8081'', ci_shutdown = s, ci_read = r,
         ci_write = w, ci_idle = i, ci_max_body = body, ci_max_batch = batch,
         ci_api_key = envString env ''INGEST_API_KEY'' []\<rparr>
     }"

definition load_consumer :: "(string \<Rightarrow> duration option) \<Rightarrow> environment \<Rightarrow> consumer_cfg loading" where
  "load_consumer pd env =
     do {
       batch \<leftarrow> envInt env ''CONSUMER_BATCH_SIZE'' 200;
       cm \<leftarrow> envDuration pd env ''CONSUMER_COMMIT_INTERVAL'' (seconds 1);
       s \<leftarrow> envDuration pd env ''CONSUMER_SHUTDOWN_TIMEOUT'' (seconds 30);
       n \<leftarrow> envInt env ''CONSUMER_MAX_RETRIES'' 5;
       b \<leftarrow> envDuration pd env ''CONSUMER_RETRY_BACKOFF_BASE'' (250 * 10 ^ 6);
       m \<leftarrow> envDuration pd env ''CONSUMER_RETRY_BACKOFF_MAX'' (seconds 30);
       State_Monad.return \<lparr>cc_group = envString env ''CONSUMER_GROUP'' ''sink-v1'',
         cc_metrics_addr = envString env ''CONSUMER_METRICS_ADDR'' '':9091'', cc_batch_size = batch,
         cc_commit = cm, cc_shutdown = s, cc_max_retries = n, cc_backoff_base = b, cc_backoff_max = m\<rparr>
     }"

definition loadSimulator :: "(string \<Rightarrow> duration option) \<Rightarrow> environment \<Rightarrow> simulator_cfg loading" where
  "loadSimulator pd env =
     do {
       v \<leftarrow> envInt env ''SIM_VEHICLES'' 40;
       seed \<leftarrow> envInt env ''SIM_SEED'' 42;
       rate \<leftarrow> envInt env ''SIM_RATE'' 200;
       batch \<leftarrow> envInt env ''SIM_BATCH'' 20;
       wk \<leftarrow> envInt env ''SIM_WORKERS'' 8;
       step \<leftarrow> envInt env ''SIM_STEP_MS'' 1000;
       d \<leftarrow> envDuration pd env ''SIM_DURATION'' 0;
       State_Monad.return \<lparr>cs_url = envString env ''SIM_INGEST_URL'' ''http://localhost:8081/v1/events'',
         cs_vehicles = v, cs_seed = seed, cs_rate = rate, cs_batch = batch, cs_workers = wk,
         cs_step_ms = step, cs_duration = d, cs_api_key = envString env ''INGEST_API_KEY'' []\<rparr>
     }"

definition load_gateway :: "(string \<Rightarrow> duration option) \<Rightarrow> environment \<Rightarrow> gateway_cfg loading" where
  "load_gateway pd env =
     do {
       buf \<leftarrow> envInt env ''GATEWAY_CLIENT_BUFFER'' 256;
       win \<leftarrow> envDuration pd env ''GATEWAY_REPLAY_WINDOW'' (minutes 15);
       mx \<leftarrow> envInt env ''GATEWAY_MAX_CLIENTS'' 1000;
       s \<leftarrow> envDuration pd env ''GATEWAY_SHUTDOWN_TIMEOUT'' (seconds 15);
       r \<leftarrow> envDuration pd env ''GATEWAY_READ_TIMEOUT'' (seconds 15);
       w \<leftarrow> envDuration pd env ''GATEWAY_WRITE_TIMEOUT'' 0;
       State_Monad.return \<lparr>cg_addr = envString env ''GATEWAY_ADDR'' '':8082'', cg_buffer = buf, cg_window = win,
         cg_max_clients = mx, cg_shutdown = s, cg_read = r, cg_write = w\<rparr>
     }"

definition load_values :: "(string \<Rightarrow> duration option) \<Rightarrow> environment \<Rightarrow> string \<Rightarrow> config loading" where
  "load_values pd env role =
     do {
       lvl \<leftarrow> parseLevel (envString env ''LOG_LEVEL'' ''info'');
       pgc \<leftarrow> load_postgres pd env role;
       rd \<leftarrow> load_redis pd env;
       br \<leftarrow> load_broker pd env;
       ing \<leftarrow> load_ingest pd env;
       con \<leftarrow> load_consumer pd env;
       sim \<leftarrow> loadSimulator pd env;
       gw \<leftarrow> load_gateway pd env;
       State_Monad.return \<lparr>cf_env = envString env ''APP_ENV'' ''dev'', cf_level = lvl, cf_postgres = pgc,
         cf_redis = rd, cf_broker = br, cf_ingest = ing, cf_consumer = con, cf_simulator = sim, cf_gateway = gw\<rparr>
     }"

section \<open>Validation\<close>

definition unless :: "bool \<Rightarrow> cfg_error \<Rightarrow> cfg_error list" where
  "unless ok e = (if ok then [] else [e])"

definition check_config :: "config \<Rightarrow> cfg_error list" where
  "check_config c =
     (let p = cf_postgres c; b = cf_broker c; i = cf_ingest c; n = cf_consumer c; g = cf_gateway c;
          s = cf_simulator c in
      unless (cp_min_conns p \<le> cp_max_conns p) (MinOverMax (cp_min_conns p) (cp_max_conns p)) @
      unless (cb_seeds b \<noteq> []) SeedsEmpty @
      unless (cb_raw_parts b \<ge> 1) (BelowOne ''BROKER_RAW_PARTITIONS'' (cb_raw_parts b)) @
      unless (cb_dlq_parts b \<ge> 1) (BelowOne ''BROKER_DLQ_PARTITIONS'' (cb_dlq_parts b)) @
      unless (ci_max_batch i \<ge> 1) (BelowOne ''INGEST_MAX_BATCH'' (ci_max_batch i)) @
      unless (cc_batch_size n \<ge> 1) (BelowOne ''CONSUMER_BATCH_SIZE'' (cc_batch_size n)) @
      unless (cc_max_retries n \<ge> 0) (RetriesNegative (cc_max_retries n)) @
      unless (cc_backoff_base n > 0) BackoffBaseNotPositive @
      unless (cc_backoff_base n \<le> cc_backoff_max n)
        (BackoffMaxBelowBase (cc_backoff_max n) (cc_backoff_base n)) @
      unless (cg_buffer g \<ge> 1) (BelowOne ''GATEWAY_CLIENT_BUFFER'' (cg_buffer g)) @
      unless (cg_max_clients g \<ge> 1) (BelowOne ''GATEWAY_MAX_CLIENTS'' (cg_max_clients g)) @
      unless (cs_vehicles s \<ge> 1) (BelowOne ''SIM_VEHICLES'' (cs_vehicles s)) @
      unless (cs_rate s \<ge> 1) (BelowOne ''SIM_RATE'' (cs_rate s)) @
      unless (cs_batch s \<ge> 1) (BelowOne ''SIM_BATCH'' (cs_batch s)) @
      unless (cs_workers s \<ge> 1) (BelowOne ''SIM_WORKERS'' (cs_workers s)) @
      unless (cs_step_ms s \<ge> 1) (BelowOne ''SIM_STEP_MS'' (cs_step_ms s)) @
      unless (cs_url s \<noteq> []) IngestURLEmpty @
      unless (\<not> (ci_api_key i = [] \<and> cf_env c = ''prod'')) KeyRequiredInProd @
      unless (\<not> (ci_api_key i \<noteq> [] \<and> length (ci_api_key i) < 16)) KeyTooShort @
      unless (cf_env c = ''dev'' \<or> cf_env c = ''prod'') (UnknownEnv (cf_env c)))"

definition LoadFor :: "(string \<Rightarrow> duration option) \<Rightarrow> environment \<Rightarrow> string \<Rightarrow> cfg_error list + config" where
  "LoadFor pd env role =
     (case run_state (load_values pd env role) [] of
        (cfg, errs) \<Rightarrow>
          let errs' = errs @ check_config cfg in
          if length errs' > 0 then Inl errs' else Inr cfg)"

definition Load :: "(string \<Rightarrow> duration option) \<Rightarrow> environment \<Rightarrow> cfg_error list + config" where
  "Load pd env = LoadFor pd env RoleService"

definition IsDev :: "config \<Rightarrow> bool" where
  "IsDev c = (cf_env c = ''dev'')"

end
