(* ===== verification/Ingest.thy ===== *)
theory Ingest
  imports Broker Event Http
begin

text \<open>
  The submission endpoint, \<open>internal/ingest/handler.go\<close>: authentication, the bounded read of a batch,
  the judgement of each event on its own, one publish of those that passed, and the reply.

  The broker is the argument \<open>pub\<close>, which \<open>log_publisher\<close> states the contract of; \<open>fresh i\<close> is the
  identifier \<open>idgen.New\<close> mints for the event at index \<open>i\<close> if it needs one, \<open>err_text\<close> the text of a
  validation error. The label counted by \<open>IngestRequestsTotal\<close> is part of the result; log lines and
  the other metrics are left out.
\<close>

section \<open>Options\<close>

record ing_options =
  in_topic :: string
  in_source :: string
  in_api_key :: string
  in_max_body :: int
  in_max_batch :: int

datatype ing_error = NilPublisher | TopicRequired | LoggerRequired | BadMaxBatchSize | BadMaxBodyBytes

definition NewHandler :: "bool \<Rightarrow> bool \<Rightarrow> ing_options \<Rightarrow> ing_error + ing_options" where
  "NewHandler pub logger o0 =
     (if \<not> pub then Inl NilPublisher
      else if in_topic o0 = [] then Inl TopicRequired
      else if \<not> logger then Inl LoggerRequired
      else if in_max_batch o0 < 1 then Inl BadMaxBatchSize
      else if in_max_body o0 < 1 then Inl BadMaxBodyBytes
      else Inr (if in_source o0 = [] then o0\<lparr>in_source := ''ingest''\<rparr> else o0))"

definition authorized :: "ing_options \<Rightarrow> request \<Rightarrow> bool" where
  "authorized o' r =
     (in_api_key o' = [] \<or>
      (let got0 = rq_header r ''X-API-Key'';
           auth = rq_header r ''Authorization'';
           got = (if got0 = [] \<and> take 7 auth = ''Bearer '' then drop 7 auth else got0)
       in got = in_api_key o'))"

section \<open>Reading a batch\<close>

definition batch_names :: "string list" where
  "batch_names = [''events'']"

definition store_batch :: "lib \<Rightarrow> string \<Rightarrow> bytes \<Rightarrow> bytes list \<Rightarrow> bytes list option" where
  "store_batch l f raw v =
     (case json_scan l raw of
        Value (JArr xs) \<Rightarrow> Some xs
      | Value JNull \<Rightarrow> Some []
      | _ \<Rightarrow> None)"

datatype batch_read = BodyTooLarge | BodyMalformed | BodyBatch "bytes list"

text \<open>
  The decoder on \<open>MaxBytesReader\<close>: it sees the first \<open>limit\<close> bytes, and the error of the reader once
  it needs more. An object or an array ends with its last byte; another value ends where a longer
  prefix would not change it, so at the limit it is still open unless a byte follows it.
\<close>

definition read_batch :: "lib \<Rightarrow> int \<Rightarrow> bytes \<Rightarrow> batch_read" where
  "read_batch l limit body =
     (let seen = take (nat limit) body;
          more = (int (length body) > limit);
          closed = (case json_scan l seen of
                      Value (JObj ms) \<Rightarrow> True
                    | Value (JArr xs) \<Rightarrow> True
                    | s \<Rightarrow> json_scan l (butlast seen) = s)
      in case json_scan l seen of
           SyntaxError \<Rightarrow> BodyMalformed
         | Incomplete \<Rightarrow> if more then BodyTooLarge else BodyMalformed
         | Value n \<Rightarrow>
             if more \<and> \<not> closed then BodyTooLarge
             else (case decode_struct batch_names (store_batch l) n [] of
                     None \<Rightarrow> BodyMalformed
                   | Some events \<Rightarrow> BodyBatch events))"

section \<open>Judging the events\<close>

record rejection =
  rj_index :: nat
  rj_field :: string
  rj_error :: event_error

text \<open>
  The loop of \<open>handleSubmit\<close>; \<open>Inl\<close> is the early return for an event that cannot be serialized.
\<close>

fun judge ::
  "lib \<Rightarrow> string \<Rightarrow> time \<Rightarrow> (nat \<Rightarrow> string) \<Rightarrow> nat \<Rightarrow> bytes list \<Rightarrow> event_error + brecord list \<times> rejection list" where
  "judge l src now fresh i [] = Inr ([], [])"
| "judge l src now fresh i (raw # raws) =
     (case Accept l raw src now (fresh i) of
        Inl err \<Rightarrow>
          (case judge l src now fresh (Suc i) raws of
             Inl e \<Rightarrow> Inl e
           | Inr (recs, rejs) \<Rightarrow>
               Inr (recs, \<lparr>rj_index = i, rj_field = FieldOf err, rj_error = err\<rparr> # rejs))
      | Inr (env, vp) \<Rightarrow>
          (case Marshal l env of
             Inl e \<Rightarrow> Inl e
           | Inr pl \<Rightarrow>
               (case judge l src now fresh (Suc i) raws of
                  Inl e \<Rightarrow> Inl e
                | Inr (recs, rejs) \<Rightarrow>
                    Inr (\<lparr>b_key = vehicle_id vp, b_value = pl, b_headers = []\<rparr> # recs, rejs))))"

section \<open>The handler\<close>

definition rejection_text :: "lib \<Rightarrow> (event_error \<Rightarrow> string) \<Rightarrow> rejection \<Rightarrow> bytes" where
  "rejection_text l err_text rj =
     json_text l (JObj ([(''index'', text_int l (int (rj_index rj)))] @
       (if rj_field rj = [] then [] else [(''field'', text_str l (rj_field rj))]) @
       [(''reason'', text_str l (err_text (rj_error rj)))]))"

definition submit_text :: "lib \<Rightarrow> (event_error \<Rightarrow> string) \<Rightarrow> nat \<Rightarrow> rejection list \<Rightarrow> bytes" where
  "submit_text l err_text n rejs =
     json_text l (JObj ([(''accepted'', text_int l (int n))] @
       (if rejs = [] then []
        else [(''rejected'', json_text l (JArr (map (rejection_text l err_text) rejs)))])))"

definition handleSubmit ::
  "(string \<Rightarrow> brecord list \<Rightarrow> 's \<Rightarrow> broker_error option \<times> 's) \<Rightarrow> lib \<Rightarrow> (event_error \<Rightarrow> string) \<Rightarrow> string \<Rightarrow>
     ing_options \<Rightarrow> time \<Rightarrow> (nat \<Rightarrow> string) \<Rightarrow> request \<Rightarrow> resp \<Rightarrow> 's \<Rightarrow> (string \<times> resp) \<times> 's" where
  "handleSubmit pub l err_text json_err o' now fresh r w s =
     (if \<not> authorized o' r then ((''unauthorised'', Unauthorized l r w), s)
      else
        (case read_batch l (in_max_body o') (rq_body r) of
           BodyTooLarge \<Rightarrow>
             ((''rejected'', TooLarge l r (in_max_body o') (set_header ''Connection'' ''close'' w)), s)
         | BodyMalformed \<Rightarrow>
             ((''malformed'', Invalid l r [] (''the request body is not a valid batch: '' @ json_err) w), s)
         | BodyBatch events \<Rightarrow>
             if length events = 0 then
               ((''rejected'', Invalid l r ''events'' ''the batch contains no events'' w), s)
             else if int (length events) > in_max_batch o' then
               ((''rejected'', Write l (Some r) 400 CodeValidationFailed
                   ''the batch is larger than this service accepts''
                   [(''field'', text_str l ''events''), (''limit'', text_int l (in_max_batch o')),
                    (''received'', text_int l (int (length events)))] w), s)
             else
               (case judge l (in_source o') now fresh 0 events of
                  Inl e \<Rightarrow> ((''error'', Internal l r w), s)
                | Inr (recs, rejs) \<Rightarrow>
                    (case (if length recs > 0 then pub (in_topic o') recs s else (None, s)) of
                       (Some e, s') \<Rightarrow>
                         ((''error'', Unavailable l r
                             ''the event log is unavailable; the batch was not accepted and is safe to retry'' w), s')
                     | (None, s') \<Rightarrow>
                         ((''accepted'',
                           encode_body (submit_text l err_text (length recs) rejs)
                             (write_header 202
                               (set_header ''Content-Type'' ''application/json; charset=utf-8'' w))), s')))))"

section \<open>The judgement of a batch\<close>

text \<open>The record of the event at index \<open>i\<close>, if it is accepted and serialized.\<close>

definition record_of :: "lib \<Rightarrow> string \<Rightarrow> time \<Rightarrow> string \<Rightarrow> bytes \<Rightarrow> brecord option" where
  "record_of l src now fresh raw =
     (case Accept l raw src now fresh of
        Inl e \<Rightarrow> None
      | Inr (env, vp) \<Rightarrow>
          (case Marshal l env of
             Inl e \<Rightarrow> None
           | Inr pl \<Rightarrow> Some \<lparr>b_key = vehicle_id vp, b_value = pl, b_headers = []\<rparr>))"

definition rejection_of :: "lib \<Rightarrow> string \<Rightarrow> time \<Rightarrow> string \<Rightarrow> nat \<Rightarrow> bytes \<Rightarrow> rejection option" where
  "rejection_of l src now fresh i raw =
     (case Accept l raw src now fresh of
        Inl err \<Rightarrow> Some \<lparr>rj_index = i, rj_field = FieldOf err, rj_error = err\<rparr>
      | Inr x \<Rightarrow> None)"

lemma judge_Inr:
  "judge l src now fresh i raws = Inr (recs, rejs) \<Longrightarrow>
   recs = List.map_filter (\<lambda>(k, raw). record_of l src now (fresh k) raw) (enumerate i raws) \<and>
   rejs = List.map_filter (\<lambda>(k, raw). rejection_of l src now (fresh k) k raw) (enumerate i raws) \<and>
   length recs + length rejs = length raws"
proof (induction raws arbitrary: i recs rejs)
  case (Cons raw raws)
  show ?case
  proof (cases "Accept l raw src now (fresh i)")
    case (Inl err)
    with Cons.prems obtain rejs1 where 1: "judge l src now fresh (Suc i) raws = Inr (recs, rejs1)"
      "rejs = \<lparr>rj_index = i, rj_field = FieldOf err, rj_error = err\<rparr> # rejs1"
      by (auto split: sum.splits)
    from Cons.IH [OF 1(1)] have ih: "recs = List.map_filter (\<lambda>(k, raw). record_of l src now (fresh k) raw) (enumerate (Suc i) raws)"
      "rejs1 = List.map_filter (\<lambda>(k, raw). rejection_of l src now (fresh k) k raw) (enumerate (Suc i) raws)"
      "length recs + length rejs1 = length raws" by blast+
    have pt: "record_of l src now (fresh i) raw = None"
      "rejection_of l src now (fresh i) i raw = Some \<lparr>rj_index = i, rj_field = FieldOf err, rj_error = err\<rparr>"
      using Inl by (simp_all add: record_of_def rejection_of_def)
    show ?thesis
      unfolding 1(2) enumerate_simps List.map_filter_simps prod.case
      using pt ih by simp
  next
    case (Inr x)
    then obtain env vp where x: "Accept l raw src now (fresh i) = Inr (env, vp)" by (cases x) auto
    with Cons.prems obtain pl recs1 where 1: "Marshal l env = Inr pl"
      "judge l src now fresh (Suc i) raws = Inr (recs1, rejs)"
      "recs = \<lparr>b_key = vehicle_id vp, b_value = pl, b_headers = []\<rparr> # recs1"
      by (auto split: sum.splits)
    from Cons.IH [OF 1(2)] have ih: "recs1 = List.map_filter (\<lambda>(k, raw). record_of l src now (fresh k) raw) (enumerate (Suc i) raws)"
      "rejs = List.map_filter (\<lambda>(k, raw). rejection_of l src now (fresh k) k raw) (enumerate (Suc i) raws)"
      "length recs1 + length rejs = length raws" by blast+
    have pt: "record_of l src now (fresh i) raw = Some \<lparr>b_key = vehicle_id vp, b_value = pl, b_headers = []\<rparr>"
      "rejection_of l src now (fresh i) i raw = None"
      using x 1(1) by (simp_all add: record_of_def rejection_of_def)
    show ?thesis
      unfolding 1(3) enumerate_simps List.map_filter_simps prod.case
      using pt ih by simp
  qed
qed (simp add: List.map_filter_simps)

section \<open>The contract of the publisher\<close>

text \<open>
  What the handler relies on: a publish without an error put every record on the log, in order; one
  with an error put some of them there, in order.
\<close>

locale log_publisher =
  fixes produce :: "'e \<Rightarrow> string \<Rightarrow> brecord list \<Rightarrow> wire_record list \<Rightarrow> broker_error option \<times> wire_record list"
  assumes acked: "produce e t recs lg = (None, lg') \<Longrightarrow> lg' = lg @ map (wire_of t) recs"
    and partial: "\<exists>landed. snd (produce e t recs lg) = lg @ landed \<and> subseq landed (map (wire_of t) recs)"
begin

text \<open>Every way through the handler, by its status.\<close>

lemma handleSubmit_cases:
  assumes "handleSubmit (produce e) l err_text json_err o' now fresh r w lg = ((lbl, w'), lg')"
    and "rs_status w = 0"
  obtains (refused) "rs_status w' \<in> {400, 401, 413, 500}" "lg' = lg" "lbl \<noteq> ''accepted''"
  | (unavailable) events recs rejs landed where "rs_status w' = 503" "authorized o' r"
      "read_batch l (in_max_body o') (rq_body r) = BodyBatch events" "lbl \<noteq> ''accepted''"
      "judge l (in_source o') now fresh 0 events = Inr (recs, rejs)"
      "lg' = lg @ landed" "subseq landed (map (wire_of (in_topic o')) recs)"
  | (success) events recs rejs where "rs_status w' = 202" "lbl = ''accepted''" "authorized o' r"
      "read_batch l (in_max_body o') (rq_body r) = BodyBatch events"
      "events \<noteq> []" "int (length events) \<le> in_max_batch o'"
      "judge l (in_source o') now fresh 0 events = Inr (recs, rejs)"
      "lg' = lg @ map (wire_of (in_topic o')) recs"
      "rs_body w' = rs_body w @
        (if rs_ok w (rs_writes w) then [submit_text l err_text (length recs) rejs @ newline] else [])"
proof -
  note H = assms(1) [unfolded handleSubmit_def]
  have w0: "rs_status (set_header k v w) = 0" for k v using assms(2) by (simp add: http_simps)
  show ?thesis
  proof (cases "authorized o' r")
    case False
    with H assms(2) show ?thesis by (intro refused) (auto simp: Unauthorized_def Write_response)
  next
    case auth: True
    show ?thesis
    proof (cases "read_batch l (in_max_body o') (rq_body r)")
      case BodyTooLarge
      with H assms(2) auth show ?thesis by (intro refused) (auto simp: TooLarge_def Write_response http_simps)
    next
      case BodyMalformed
      with H assms(2) auth show ?thesis by (intro refused) (auto simp: Invalid_def Write_response)
    next
      case batch: (BodyBatch events)
      show ?thesis
      proof (cases "events = [] \<or> int (length events) > in_max_batch o'")
        case True
        with H assms(2) auth batch show ?thesis
          by (intro refused) (auto simp: Invalid_def Write_response split: if_splits)
      next
        case size: False
        show ?thesis
        proof (cases "judge l (in_source o') now fresh 0 events")
          case (Inl err)
          with H assms(2) auth batch size show ?thesis by (intro refused) (auto simp: Internal_def Write_response)
        next
          case (Inr x)
          then obtain recs rejs where j: "judge l (in_source o') now fresh 0 events = Inr (recs, rejs)"
            by (cases x) auto
          obtain pe s' where p: "(if length recs > 0 then produce e (in_topic o') recs lg else (None, lg)) = (pe, s')"
            by fastforce
          have fin: "((lbl, w'), lg') = (case pe of
              Some e \<Rightarrow> ((''error'', Unavailable l r
                  ''the event log is unavailable; the batch was not accepted and is safe to retry'' w), s')
            | None \<Rightarrow> ((''accepted'', encode_body (submit_text l err_text (length recs) rejs)
                  (write_header 202 (set_header ''Content-Type'' ''application/json; charset=utf-8'' w))), s'))"
            using H auth batch size j p by (simp split: option.splits)
          show ?thesis
          proof (cases pe)
            case None
            then have "s' = lg @ map (wire_of (in_topic o')) recs"
              using p acked by (cases "recs = []") auto
            with None fin assms(2) auth batch size j show ?thesis
              by (intro success [of events recs rejs]) (simp_all add: http_simps)
          next
            case (Some be)
            then have "s' = snd (produce e (in_topic o') recs lg)" using p by (auto split: if_splits)
            then obtain landed where "s' = lg @ landed" "subseq landed (map (wire_of (in_topic o')) recs)"
              using partial by blast
            with Some fin assms(2) auth batch j show ?thesis
              by (intro unavailable [of events recs rejs landed]) (simp_all add: Unavailable_def Write_response w0)
          qed
        qed
      qed
    qed
  qed
qed

end

interpretation broker_log: log_publisher "Produce p" for p
  by unfold_locales (auto intro: Produce_None Produce_log)

end
