(* ===== verification/Wiring.thy ===== *)
theory Wiring
  imports Config Gateway Consumer Ingest
begin

text \<open>
  How the commands hand the configuration to the components, \<open>run\<close> of \<open>cmd/gateway/main.go\<close>,
  \<open>cmd/consumer/main.go\<close> and \<open>cmd/ingest/main.go\<close>, and what a configuration that loads guarantees
  for them. The rest of the commands is in \<open>Commands\<close>.
\<close>

section \<open>The options of each component\<close>

definition gateway_options :: "config \<Rightarrow> gw_options" where
  "gateway_options c =
     \<lparr>go_client_buffer = cg_buffer (cf_gateway c), go_max_clients = cg_max_clients (cf_gateway c),
      go_replay_window = cg_window (cf_gateway c), go_replay_limit = 0, go_heartbeat = 0, go_max_stream = 0\<rparr>"

definition consumer_options :: "config \<Rightarrow> options" where
  "consumer_options c =
     \<lparr>op_topic = cb_raw_topic (cf_broker c), op_batch_size = cc_batch_size (cf_consumer c),
      op_max_retries = cc_max_retries (cf_consumer c), op_backoff_base = cc_backoff_base (cf_consumer c),
      op_backoff_max = cc_backoff_max (cf_consumer c)\<rparr>"

definition ingest_options :: "config \<Rightarrow> ing_options" where
  "ingest_options c =
     \<lparr>in_topic = cb_raw_topic (cf_broker c), in_source = ''ingest'', in_api_key = ci_api_key (cf_ingest c),
      in_max_body = ci_max_body (cf_ingest c), in_max_batch = ci_max_batch (cf_ingest c)\<rparr>"

section \<open>What each helper reads and reports\<close>

definition unset :: "environment \<Rightarrow> string \<Rightarrow> bool" where
  "unset env k \<longleftrightarrow> (case env k of None \<Rightarrow> True | Some v \<Rightarrow> trim_space v = [])"

definition int_problem :: "environment \<Rightarrow> string \<Rightarrow> cfg_error list" where
  "int_problem env k =
     (if unset env k \<or> atoi (trim_space (the (env k))) \<noteq> None then [] else [NotAnInteger k (the (env k))])"

definition duration_problem ::
  "(string \<Rightarrow> duration option) \<Rightarrow> environment \<Rightarrow> string \<Rightarrow> cfg_error list" where
  "duration_problem pd env k =
     (if unset env k \<or> pd (trim_space (the (env k))) \<noteq> None then [] else [NotADuration k (the (env k))])"

definition required_problem :: "environment \<Rightarrow> string \<Rightarrow> cfg_error list" where
  "required_problem env k = (if unset env k then [RequiredUnset k] else [])"

definition known_levels :: "string list" where
  "known_levels = [''debug'', ''info'', [], ''warn'', ''warning'', ''error'']"

definition level_problem :: "string \<Rightarrow> cfg_error list" where
  "level_problem raw = (if to_lower (trim_space raw) \<in> set known_levels then [] else [UnknownLevel raw])"

text \<open>The value a loading step returns does not depend on what was reported before it.\<close>

definition value_read :: "'a loading \<Rightarrow> 'a" where
  "value_read m = fst (run_state m [])"

lemma run_envInt [simp]: "run_state (envInt env k d) e = (value_read (envInt env k d), e @ int_problem env k)"
  by (auto simp: envInt_def int_problem_def unset_def value_read_def problem_def split: option.splits)

lemma run_envDuration [simp]:
  "run_state (envDuration pd env k d) e = (value_read (envDuration pd env k d), e @ duration_problem pd env k)"
  by (auto simp: envDuration_def duration_problem_def unset_def value_read_def problem_def split: option.splits)

lemma run_envRequired [simp]:
  "run_state (envRequired env k) e = (value_read (envRequired env k), e @ required_problem env k)"
  by (auto simp: envRequired_def required_problem_def unset_def value_read_def problem_def split: option.splits)

lemma run_parseLevel [simp]: "run_state (parseLevel r) e = (value_read (parseLevel r), e @ level_problem r)"
  by (auto simp: parseLevel_def level_problem_def known_levels_def value_read_def problem_def Let_def)

lemma envRequired_set: "required_problem env k = [] \<Longrightarrow> value_read (envRequired env k) \<noteq> []"
  by (auto simp: required_problem_def envRequired_def value_read_def unset_def split: option.splits if_splits)

section \<open>What each section reports\<close>

definition postgres_problems where
  "postgres_problems pd env role =
     (if role = RoleProducer then [] else required_problem env ''DATABASE_URL'') @
     int_problem env ''DB_MAX_CONNS'' @ int_problem env ''DB_MIN_CONNS'' @
     duration_problem pd env ''DB_MAX_CONN_LIFETIME'' @ duration_problem pd env ''DB_CONNECT_TIMEOUT''"

definition redis_problems where
  "redis_problems pd env =
     concat (map (duration_problem pd env) [''REDIS_DIAL_TIMEOUT'', ''REDIS_READ_TIMEOUT'', ''REDIS_WRITE_TIMEOUT''])"

definition broker_problems where
  "broker_problems pd env =
     concat (map (int_problem env) [''BROKER_RAW_PARTITIONS'', ''BROKER_DLQ_PARTITIONS'']) @
     concat (map (duration_problem pd env) [''BROKER_RETENTION'', ''BROKER_DLQ_RETENTION''])"

definition ingest_problems where
  "ingest_problems pd env =
     concat (map (duration_problem pd env) [''INGEST_SHUTDOWN_TIMEOUT'', ''INGEST_READ_TIMEOUT'',
       ''INGEST_WRITE_TIMEOUT'', ''INGEST_IDLE_TIMEOUT'']) @
     concat (map (int_problem env) [''INGEST_MAX_BODY_BYTES'', ''INGEST_MAX_BATCH''])"

definition consumer_problems where
  "consumer_problems pd env =
     int_problem env ''CONSUMER_BATCH_SIZE'' @
     concat (map (duration_problem pd env) [''CONSUMER_COMMIT_INTERVAL'', ''CONSUMER_SHUTDOWN_TIMEOUT'']) @
     int_problem env ''CONSUMER_MAX_RETRIES'' @
     concat (map (duration_problem pd env) [''CONSUMER_RETRY_BACKOFF_BASE'', ''CONSUMER_RETRY_BACKOFF_MAX''])"

definition simulator_problems where
  "simulator_problems pd env =
     concat (map (int_problem env) [''SIM_VEHICLES'', ''SIM_SEED'', ''SIM_RATE'', ''SIM_BATCH'',
       ''SIM_WORKERS'', ''SIM_STEP_MS'']) @ duration_problem pd env ''SIM_DURATION''"

definition gateway_problems where
  "gateway_problems pd env =
     int_problem env ''GATEWAY_CLIENT_BUFFER'' @ duration_problem pd env ''GATEWAY_REPLAY_WINDOW'' @
     int_problem env ''GATEWAY_MAX_CLIENTS'' @
     concat (map (duration_problem pd env) [''GATEWAY_SHUTDOWN_TIMEOUT'', ''GATEWAY_READ_TIMEOUT'',
       ''GATEWAY_WRITE_TIMEOUT''])"

lemma run_sections [simp]:
  "run_state (load_postgres pd env role) e =
     (value_read (load_postgres pd env role), e @ postgres_problems pd env role)"
  "run_state (load_redis pd env) e = (value_read (load_redis pd env), e @ redis_problems pd env)"
  "run_state (load_broker pd env) e = (value_read (load_broker pd env), e @ broker_problems pd env)"
  "run_state (load_ingest pd env) e = (value_read (load_ingest pd env), e @ ingest_problems pd env)"
  "run_state (load_consumer pd env) e = (value_read (load_consumer pd env), e @ consumer_problems pd env)"
  "run_state (loadSimulator pd env) e = (value_read (loadSimulator pd env), e @ simulator_problems pd env)"
  "run_state (load_gateway pd env) e = (value_read (load_gateway pd env), e @ gateway_problems pd env)"
  unfolding load_postgres_def load_redis_def load_broker_def load_ingest_def load_consumer_def
    loadSimulator_def load_gateway_def value_read_def [of "State_Monad.bind x f" for x f]
  by (simp_all add: postgres_problems_def redis_problems_def broker_problems_def ingest_problems_def
      consumer_problems_def simulator_problems_def gateway_problems_def)

definition load_problems where
  "load_problems pd env role =
     level_problem (envString env ''LOG_LEVEL'' ''info'') @ postgres_problems pd env role @
     redis_problems pd env @ broker_problems pd env @ ingest_problems pd env @ consumer_problems pd env @
     simulator_problems pd env @ gateway_problems pd env"

lemma run_load_values [simp]:
  "run_state (load_values pd env role) e =
     (value_read (load_values pd env role), e @ load_problems pd env role)"
  by (simp add: load_values_def load_problems_def value_read_def [of "State_Monad.bind x f" for x f])

lemma LoadFor_alt:
  "LoadFor pd env role =
     (let c = value_read (load_values pd env role); es = load_problems pd env role @ check_config c
      in if es = [] then Inr c else Inl es)"
  by (simp add: LoadFor_def Let_def)

section \<open>The variables\<close>

definition int_keys :: "string list" where
  "int_keys = [''DB_MAX_CONNS'', ''DB_MIN_CONNS'', ''BROKER_RAW_PARTITIONS'', ''BROKER_DLQ_PARTITIONS'',
     ''INGEST_MAX_BODY_BYTES'', ''INGEST_MAX_BATCH'', ''CONSUMER_BATCH_SIZE'', ''CONSUMER_MAX_RETRIES'',
     ''SIM_VEHICLES'', ''SIM_SEED'', ''SIM_RATE'', ''SIM_BATCH'', ''SIM_WORKERS'', ''SIM_STEP_MS'',
     ''GATEWAY_CLIENT_BUFFER'', ''GATEWAY_MAX_CLIENTS'']"

definition duration_keys :: "string list" where
  "duration_keys = [''DB_MAX_CONN_LIFETIME'', ''DB_CONNECT_TIMEOUT'', ''REDIS_DIAL_TIMEOUT'',
     ''REDIS_READ_TIMEOUT'', ''REDIS_WRITE_TIMEOUT'', ''BROKER_RETENTION'', ''BROKER_DLQ_RETENTION'',
     ''INGEST_SHUTDOWN_TIMEOUT'', ''INGEST_READ_TIMEOUT'', ''INGEST_WRITE_TIMEOUT'', ''INGEST_IDLE_TIMEOUT'',
     ''CONSUMER_COMMIT_INTERVAL'', ''CONSUMER_SHUTDOWN_TIMEOUT'', ''CONSUMER_RETRY_BACKOFF_BASE'',
     ''CONSUMER_RETRY_BACKOFF_MAX'', ''SIM_DURATION'', ''GATEWAY_REPLAY_WINDOW'', ''GATEWAY_SHUTDOWN_TIMEOUT'',
     ''GATEWAY_READ_TIMEOUT'', ''GATEWAY_WRITE_TIMEOUT'']"

lemmas section_problems = postgres_problems_def redis_problems_def broker_problems_def ingest_problems_def
  consumer_problems_def simulator_problems_def gateway_problems_def

lemma set_load_problems:
  "set (load_problems pd env role) =
     set (level_problem (envString env ''LOG_LEVEL'' ''info'')) \<union>
     (if role = RoleProducer then {} else set (required_problem env ''DATABASE_URL'')) \<union>
     (\<Union>k\<in>set int_keys. set (int_problem env k)) \<union> (\<Union>k\<in>set duration_keys. set (duration_problem pd env k))"
  unfolding load_problems_def section_problems int_keys_def duration_keys_def
  by (simp del: list.simps(15) add: list.simps(15) Un_ac)

end
