(* ===== verification/Config_Props.thy ===== *)
theory Config_Props
  imports Wiring
begin

text \<open>
  What a configuration that loads guarantees to the components built from it, and what a load that
  fails reports. \<open>misread\<close> says of each error that a variable cannot be read; the others are those
  of \<open>check_config\<close>.
\<close>

section \<open>The problems of single variables\<close>

fun misread :: "(string \<Rightarrow> duration option) \<Rightarrow> environment \<Rightarrow> string \<Rightarrow> cfg_error \<Rightarrow> bool" where
  "misread pd env role (NotAnInteger k raw) \<longleftrightarrow>
     k \<in> set int_keys \<and> env k = Some raw \<and> trim_space raw \<noteq> [] \<and> atoi (trim_space raw) = None"
| "misread pd env role (NotADuration k raw) \<longleftrightarrow>
     k \<in> set duration_keys \<and> env k = Some raw \<and> trim_space raw \<noteq> [] \<and> pd (trim_space raw) = None"
| "misread pd env role (RequiredUnset k) \<longleftrightarrow>
     k = ''DATABASE_URL'' \<and> role \<noteq> RoleProducer \<and> (\<forall>v. env k = Some v \<longrightarrow> trim_space v = [])"
| "misread pd env role (UnknownLevel raw) \<longleftrightarrow>
     raw = envString env ''LOG_LEVEL'' ''info'' \<and> to_lower (trim_space raw) \<notin> set known_levels"
| "misread pd env role e \<longleftrightarrow> False"

lemma int_problem_iff:
  "e \<in> set (int_problem env k) \<longleftrightarrow>
     (\<exists>raw. e = NotAnInteger k raw \<and> env k = Some raw \<and> trim_space raw \<noteq> [] \<and> atoi (trim_space raw) = None)"
  by (auto simp: int_problem_def unset_def split: option.splits)

lemma duration_problem_iff:
  "e \<in> set (duration_problem pd env k) \<longleftrightarrow>
     (\<exists>raw. e = NotADuration k raw \<and> env k = Some raw \<and> trim_space raw \<noteq> [] \<and> pd (trim_space raw) = None)"
  by (auto simp: duration_problem_def unset_def split: option.splits)

lemma required_problem_iff:
  "e \<in> set (required_problem env k) \<longleftrightarrow>
     e = RequiredUnset k \<and> (\<forall>v. env k = Some v \<longrightarrow> trim_space v = [])"
  by (auto simp: required_problem_def unset_def split: option.splits)

lemma level_problem_iff:
  "e \<in> set (level_problem raw) \<longleftrightarrow> e = UnknownLevel raw \<and> to_lower (trim_space raw) \<notin> set known_levels"
  by (simp add: level_problem_def)

lemmas problem_iffs = int_problem_iff duration_problem_iff required_problem_iff level_problem_iff

lemma load_problems_iff: "set (load_problems pd env role) = {e. misread pd env role e}"
proof (rule set_eqI)
  fix e
  show "e \<in> set (load_problems pd env role) \<longleftrightarrow> e \<in> {e. misread pd env role e}"
    unfolding set_load_problems by (cases e) (simp_all add: problem_iffs, blast+)
qed

section \<open>Loading\<close>


lemma unless_Nil [simp]: "unless b e = [] \<longleftrightarrow> b"
  by (simp add: unless_def)

lemma LoadFor_Inr:
  assumes "LoadFor pd env role = Inr c"
  shows "c = value_read (load_values pd env role)" and "load_problems pd env role = []" and "check_config c = []"
  using assms by (auto simp: LoadFor_alt Let_def split: if_splits)

lemma loaded_url:
  assumes "LoadFor pd env role = Inr c" and "role \<noteq> RoleProducer"
  shows "cp_url (cf_postgres c) \<noteq> []"
proof -
  have "required_problem env ''DATABASE_URL'' = []"
    using LoadFor_Inr(2) [OF assms(1)] assms(2) by (simp add: load_problems_def postgres_problems_def)
  then have "value_read (envRequired env ''DATABASE_URL'') \<noteq> []" by (rule envRequired_set)
  moreover have "cp_url (value_read (load_postgres pd env role)) = value_read (envRequired env ''DATABASE_URL'')"
    using assms(2) by (simp add: load_postgres_def value_read_def [of "State_Monad.bind x f" for x f])
  ultimately show ?thesis
    using LoadFor_Inr(1) [OF assms(1)]
    by (simp add: load_values_def value_read_def [of "State_Monad.bind x f" for x f])
qed

text \<open>What the constructors make of the options of a configuration that loads.\<close>

lemma loaded_gateway:
  assumes "LoadFor pd env role = Inr c"
  shows "\<exists>g. NewGateway True True True (gateway_options c) = Inr g"
  using LoadFor_Inr(3) [OF assms, unfolded check_config_def Let_def, simplified]
  by (simp add: NewGateway_def gateway_options_def Let_def)

lemma loaded_consumer:
  assumes "LoadFor pd env role = Inr c"
  shows "New True True True True (consumer_options c) =
      (if cb_raw_topic (cf_broker c) = [] then Inl NoConsumerTopic
       else Inr ((consumer_options c)\<lparr>op_max_retries :=
              if cc_max_retries (cf_consumer c) = 0 then 5 else cc_max_retries (cf_consumer c)\<rparr>))"
  using LoadFor_Inr(3) [OF assms, unfolded check_config_def Let_def, simplified]
  by (auto simp: New_def consumer_options_def Let_def)

lemma loaded_ingest:
  assumes "LoadFor pd env role = Inr c"
  shows "NewHandler True True (ingest_options c) =
      (if cb_raw_topic (cf_broker c) = [] then Inl TopicRequired
       else if ci_max_body (cf_ingest c) < 1 then Inl BadMaxBodyBytes else Inr (ingest_options c))"
  using LoadFor_Inr(3) [OF assms, unfolded check_config_def Let_def, simplified]
  by (auto simp: NewHandler_def ingest_options_def)

lemma loaded_seeds:
  assumes "LoadFor pd env role = Inr c"
  shows "cb_seeds (cf_broker c) \<noteq> []"
  using LoadFor_Inr(3) [OF assms, unfolded check_config_def Let_def, simplified] by simp

text \<open>
  C31. Every configuration that loads is one its components accept: the gateway is built; the consumer
  and the ingest handler are built unless the one text that is not validated (the topic) or the one
  number (the body limit) is refused by name; the consumer keeps every option it is given except a
  \<open>MaxRetries\<close> of zero; a service has a database address; and production has an API key of at least
  sixteen characters, so that a request without it is refused.
\<close>

theorem loaded_config_sound:
  assumes "LoadFor pd env role = Inr c"
  shows "(\<exists>g. NewGateway True True True (gateway_options c) = Inr g) \<and>
    New True True True True (consumer_options c) =
      (if cb_raw_topic (cf_broker c) = [] then Inl NoConsumerTopic
       else Inr ((consumer_options c)\<lparr>op_max_retries :=
              if cc_max_retries (cf_consumer c) = 0 then 5 else cc_max_retries (cf_consumer c)\<rparr>)) \<and>
    NewHandler True True (ingest_options c) =
      (if cb_raw_topic (cf_broker c) = [] then Inl TopicRequired
       else if ci_max_body (cf_ingest c) < 1 then Inl BadMaxBodyBytes else Inr (ingest_options c)) \<and>
    cb_seeds (cf_broker c) \<noteq> [] \<and> cp_min_conns (cf_postgres c) \<le> cp_max_conns (cf_postgres c) \<and>
    (role \<noteq> RoleProducer \<longrightarrow> cp_url (cf_postgres c) \<noteq> []) \<and>
    (cf_env c = ''prod'' \<longrightarrow> length (ci_api_key (cf_ingest c)) \<ge> 16 \<and>
       \<not> authorized (ingest_options c) \<lparr>rq_header = (\<lambda>h. []), rq_body = b, rq_id = i\<rparr>) \<and>
    (IsDev c \<or> cf_env c = ''prod'')"
proof -
  note ok = LoadFor_Inr(3) [OF assms, unfolded check_config_def Let_def, simplified]
  have "\<not> authorized (ingest_options c) \<lparr>rq_header = (\<lambda>h. []), rq_body = b, rq_id = i\<rparr>"
    if "cf_env c = ''prod''"
    using ok that by (auto simp: authorized_def ingest_options_def)
  with loaded_gateway [OF assms] loaded_consumer [OF assms] loaded_ingest [OF assms] loaded_seeds [OF assms]
  show ?thesis using ok loaded_url [OF assms] by (auto simp: IsDev_def)
qed

section \<open>A concrete environment\<close>

text \<open>
  An environment with a database address and a pool size, and a reader of durations that is never
  called. The pool size is converted to 32 bits before it is compared: 2^32 + 1 loads as one connection.
\<close>

definition plain_env :: "string \<Rightarrow> environment" where
  "plain_env n = [''DATABASE_URL'' \<mapsto> ''postgres://db'', ''DB_MAX_CONNS'' \<mapsto> n]"

lemma plain_env_other:
  "k \<noteq> ''DATABASE_URL'' \<Longrightarrow> k \<noteq> ''DB_MAX_CONNS'' \<Longrightarrow> plain_env n k = None"
  by (simp add: plain_env_def)

lemma plain_env_set:
  "plain_env n ''DATABASE_URL'' = Some ''postgres://db''" "plain_env n ''DB_MAX_CONNS'' = Some n"
  by (simp_all add: plain_env_def)

lemma unset_values:
  "env k = None \<Longrightarrow> value_read (envInt env k d) = d"
  "env k = None \<Longrightarrow> value_read (envDuration pd env k t) = t"
  "env k = None \<Longrightarrow> envString env k s = s"
  "env k = None \<Longrightarrow> int_problem env k = []"
  "env k = None \<Longrightarrow> duration_problem pd env k = []"
  by (simp_all add: envInt_def envDuration_def envString_def int_problem_def duration_problem_def unset_def
      value_read_def)

lemma read_max: "trim_space ''4294967297'' = ''4294967297''"
  by code_simp

lemma read_url: "trim_space ''postgres://db'' = ''postgres://db''"
  by code_simp

lemma read_level: "trim_space ''info'' = ''info''"
  by code_simp

lemma read_seeds: "splitNonEmpty ''localhost:19092'' = [''localhost:19092'']"
  by code_simp

lemma lower_level: "to_lower ''info'' = ''info''"
  by code_simp

lemmas read_texts = read_max read_url read_level read_seeds lower_level

lemma read_numbers: "atoi ''4294967297'' = Some 4294967297" "wrap32 4294967297 = 1" "wrap32 1 = 1"
  by (simp_all add: atoi_def parse_nat_def is_digit_def code_of_def wrap32_def)

definition plain_config :: config where
  "plain_config = value_read (load_values (\<lambda>s. None) (plain_env ''4294967297'') RoleService)"

lemma plain_problems: "load_problems (\<lambda>s. None) (plain_env ''4294967297'') RoleService = []"
  by (simp add: load_problems_def section_problems unset_values plain_env_other plain_env_set level_problem_def
      read_texts read_numbers known_levels_def required_problem_def unset_def int_problem_def RoleService_def
      RoleProducer_def)

lemma plain_values:
  "value_read (envInt (plain_env ''4294967297'') ''DB_MAX_CONNS'' d) = 4294967297"
  by (simp add: envInt_def value_read_def plain_env_set read_texts read_numbers)

lemma pool_size_wraps: "cp_max_conns (cf_postgres plain_config) = 1"
  by (simp add: plain_config_def load_values_def load_postgres_def plain_values read_numbers
      value_read_def [of "State_Monad.bind x f" for x f])

lemmas run_bind = value_read_def [of "State_Monad.bind x f" for x f]

lemmas plain_env_simps = unset_values plain_env_other plain_values read_texts read_numbers run_bind

lemma plain_sections:
  "cp_min_conns (cf_postgres plain_config) = 1"
  "cb_seeds (cf_broker plain_config) = [''localhost:19092'']"
  "cb_raw_parts (cf_broker plain_config) = 6" "cb_dlq_parts (cf_broker plain_config) = 3"
  "ci_max_batch (cf_ingest plain_config) = 500" "ci_api_key (cf_ingest plain_config) = []"
  "cc_batch_size (cf_consumer plain_config) = 200" "cc_max_retries (cf_consumer plain_config) = 5"
  "cc_backoff_base (cf_consumer plain_config) = 250 * 10 ^ 6" "cc_backoff_max (cf_consumer plain_config) = seconds 30"
  "cg_buffer (cf_gateway plain_config) = 256" "cg_max_clients (cf_gateway plain_config) = 1000"
  "cs_vehicles (cf_simulator plain_config) = 40" "cs_rate (cf_simulator plain_config) = 200"
  "cs_batch (cf_simulator plain_config) = 20" "cs_workers (cf_simulator plain_config) = 8"
  "cs_step_ms (cf_simulator plain_config) = 1000" "cs_url (cf_simulator plain_config) \<noteq> []"
  "cf_env plain_config = ''dev''"
  unfolding plain_config_def load_values_def
  by (simp_all add: load_postgres_def load_broker_def load_ingest_def load_consumer_def loadSimulator_def
      load_gateway_def plain_env_simps)

lemma plain_checks: "check_config plain_config = []"
  by (simp add: check_config_def plain_sections pool_size_wraps seconds_def)

lemma plain_loads: "LoadFor (\<lambda>s. None) (plain_env ''4294967297'') RoleService = Inr plain_config"
  using plain_problems plain_checks by (simp add: LoadFor_alt plain_config_def)

theorem loaded_config_sound_witness:
  "(\<exists>g. NewGateway True True True (gateway_options plain_config) = Inr g)"
  using loaded_config_sound [OF plain_loads] by blast

end
