(* ===== verification/Httpserver.thy ===== *)
theory Httpserver
  imports Http
begin

text \<open>
  The server every long-running process shares, \<open>internal/platform/httpserver/httpserver.go\<close>:
  liveness, readiness with its concurrent checks and gauges, the background prober and the shutdown.

  The outcome of check \<open>i\<close> is \<open>outcome i\<close>, an error text or none; \<open>order\<close> is the order in which the
  goroutines delivered their results. The metrics endpoint, the mux of \<open>net/http\<close> and the listener
  are not modelled beyond the path a route is mounted under and whether listening succeeded.
\<close>

section \<open>Checks\<close>

record check =
  ck_name :: string
  ck_gauge :: "string option"

type_synonym gauges = "string \<rightharpoonup> nat"

definition set_gauge :: "string option \<Rightarrow> bool \<Rightarrow> gauges \<Rightarrow> gauges" where
  "set_gauge g up gs = (case g of None \<Rightarrow> gs | Some n \<Rightarrow> gs(n \<mapsto> if up then 1 else 0))"

fun collect :: "check list \<Rightarrow> (nat \<Rightarrow> string option) \<Rightarrow> nat list \<Rightarrow> (string \<rightharpoonup> string) \<Rightarrow> bool \<Rightarrow> gauges \<Rightarrow>
    (string \<rightharpoonup> string) \<times> bool \<times> gauges" where
  "collect cs outcome [] out ok gs = (out, ok, gs)"
| "collect cs outcome (i # is) out ok gs =
     (let c = cs ! i; gs1 = set_gauge (ck_gauge c) (outcome i = None) gs in
      case outcome i of
        Some e \<Rightarrow> collect cs outcome is (out(ck_name c \<mapsto> e)) False gs1
      | None \<Rightarrow> collect cs outcome is (out(ck_name c \<mapsto> ''ok'')) ok gs1)"

definition runChecks :: "check list \<Rightarrow> (nat \<Rightarrow> string option) \<Rightarrow> nat list \<Rightarrow> gauges \<Rightarrow>
    (string \<rightharpoonup> string) \<times> bool \<times> gauges" where
  "runChecks cs outcome order gs =
     (if length cs = 0 then (Map.empty, True, gs) else collect cs outcome order Map.empty True gs)"

section \<open>The two probes\<close>

definition writeJSON :: "nat \<Rightarrow> bytes \<Rightarrow> resp \<Rightarrow> resp" where
  "writeJSON code body w =
     encode_body body (write_header code (set_header ''Content-Type'' ''application/json; charset=utf-8'' w))"

definition handle_healthz :: "lib \<Rightarrow> resp \<Rightarrow> resp" where
  "handle_healthz l w = writeJSON 200 (json_text l (JObj [(''status'', text_str l ''alive'')])) w"

text \<open>The keys of a map are written in order; \<open>names\<close> lists those of the results.\<close>

definition results_text :: "lib \<Rightarrow> check list \<Rightarrow> (string \<rightharpoonup> string) \<Rightarrow> bytes" where
  "results_text l cs out =
     json_text l (JObj (map (\<lambda>n. (n, text_str l (the (out n))))
       (filter (\<lambda>n. n \<in> dom out) (sort (remdups (map ck_name cs))))))"

definition handle_readyz :: "lib \<Rightarrow> check list \<Rightarrow> (nat \<Rightarrow> string option) \<Rightarrow> nat list \<Rightarrow> resp \<Rightarrow> gauges \<Rightarrow>
    resp \<times> gauges" where
  "handle_readyz l cs outcome order w gs =
     (case runChecks cs outcome order gs of
        (out, ok, gs1) \<Rightarrow>
          (writeJSON (if ok then 200 else 503)
             (json_text l (JObj [(''checks'', results_text l cs out),
                (''status'', text_str l (if ok then ''ready'' else ''not_ready''))])) w, gs1))"

section \<open>The server\<close>

record server_cfg =
  sc_log :: bool
  sc_checks :: "check list"
  sc_probe_interval :: duration
  sc_probe_timeout :: duration
  sc_metrics :: bool
  sc_mounted :: "string list"

datatype server_error = NilServerLogger | ListenFailed

text \<open>
  \<open>sv_probers\<close> counts the prober goroutines that have not returned (the wait group), \<open>sv_done\<close> says
  that the channel was closed; closing it again panics in Go.
\<close>

record server =
  sv_cfg :: server_cfg
  sv_routes :: "string list"
  sv_probers :: nat
  sv_done :: bool
  sv_done_once :: bool
  sv_gauges :: gauges

definition NewServer :: "server_cfg \<Rightarrow> bool \<Rightarrow> server_error + server" where
  "NewServer c0 listened =
     (if \<not> sc_log c0 then Inl NilServerLogger
      else
        let c = (if sc_probe_timeout c0 \<le> 0 then c0\<lparr>sc_probe_timeout := 3 * 10 ^ 9\<rparr> else c0);
            routes = [''/healthz'', ''/readyz''] @ (if sc_metrics c then [''/metrics''] else []) @ sc_mounted c in
        if \<not> listened then Inl ListenFailed
        else Inr \<lparr>sv_cfg = c, sv_routes = routes, sv_probers = 0, sv_done = False, sv_done_once = False,
                  sv_gauges = Map.empty\<rparr>)"

definition StartServer :: "server \<Rightarrow> server" where
  "StartServer s =
     (if sc_probe_interval (sv_cfg s) > 0 \<and> length (sc_checks (sv_cfg s)) > 0
      then s\<lparr>sv_probers := Suc (sv_probers s)\<rparr> else s)"

text \<open>The error channel of \<open>Start\<close>: a closed server is a clean stop.\<close>

datatype serve_result = ServerClosed | ServeFailed string

definition serve_error :: "serve_result \<Rightarrow> string option" where
  "serve_error r = (case r of ServerClosed \<Rightarrow> None | ServeFailed e \<Rightarrow> Some e)"

text \<open>One iteration of one prober: the tick, or the end once the channel is closed.\<close>

datatype probe_event = Tick "nat \<Rightarrow> string option" "nat list" | Done

definition probe_step :: "probe_event \<Rightarrow> server \<Rightarrow> server option" where
  "probe_step ev s =
     (if sv_probers s = 0 then None
      else (case ev of
              Done \<Rightarrow> if sv_done s then Some (s\<lparr>sv_probers := sv_probers s - 1\<rparr>) else None
            | Tick outcome order \<Rightarrow>
                (case runChecks (sc_checks (sv_cfg s)) outcome order (sv_gauges s) of
                   (_, _, gs) \<Rightarrow> Some (s\<lparr>sv_gauges := gs\<rparr>))))"

text \<open>
  \<open>Shutdown\<close> after the HTTP server was shut down with the error \<open>err\<close>: the channel is closed under
  \<open>sync.Once\<close>, and \<open>proberWG.Wait\<close> is over when no prober is left.
\<close>

definition close_done :: "server \<Rightarrow> server option" where
  "close_done s =
     (if sv_done_once s then Some s
      else if sv_done s then None
      else Some (s\<lparr>sv_done := True, sv_done_once := True\<rparr>))"

definition shutdown_returns :: "server \<Rightarrow> bool" where
  "shutdown_returns s \<longleftrightarrow> sv_done s \<and> sv_probers s = 0"

inductive server_step :: "server \<Rightarrow> server \<Rightarrow> bool" where
  probe: "probe_step ev s = Some t \<Longrightarrow> server_step s t"
| shutdown: "close_done s = Some t \<Longrightarrow> server_step s t"

section \<open>Readiness\<close>

lemma collect_ok:
  "collect cs outcome js out ok gs = (out', ok', gs') \<Longrightarrow>
   (ok' \<longleftrightarrow> ok \<and> (\<forall>i \<in> set js. outcome i = None)) \<and> dom out' = dom out \<union> ck_name ` (\<lambda>i. cs ! i) ` set js"
proof (induction js arbitrary: out ok gs)
  case (Cons i js)
  then obtain v b g1 where
    run: "collect cs outcome js (out(ck_name (cs ! i) \<mapsto> v)) b g1 = (out', ok', gs')"
    and b: "b \<longleftrightarrow> ok \<and> outcome i = None"
    by (auto simp: Let_def split: option.splits)
  from Cons.IH [OF run] b show ?case by (simp del: fun_upd_apply)
qed simp

text \<open>With distinct names, the answer holds the result of every check.\<close>

lemma collect_keeps:
  "collect cs outcome js out ok gs = (out', ok', gs') \<Longrightarrow> k \<notin> ck_name ` (\<lambda>i. cs ! i) ` set js \<Longrightarrow> out' k = out k"
proof (induction js arbitrary: out ok gs)
  case (Cons j js)
  then show ?case by (auto simp: Let_def split: option.splits)
qed simp

lemma collect_value:
  assumes "distinct (map ck_name cs)"
  shows "collect cs outcome js out ok gs = (out', ok', gs') \<Longrightarrow> set js \<subseteq> {..<length cs} \<Longrightarrow> distinct js \<Longrightarrow>
    i \<in> set js \<Longrightarrow> out' (ck_name (cs ! i)) = Some (case outcome i of None \<Rightarrow> ''ok'' | Some e \<Rightarrow> e)"
proof (induction js arbitrary: out ok gs)
  case (Cons j js)
  from Cons.prems(1) obtain b g1 where
    run: "collect cs outcome js (out(ck_name (cs ! j) \<mapsto> case outcome j of None \<Rightarrow> ''ok'' | Some e \<Rightarrow> e)) b g1 = (out', ok', gs')"
    by (auto simp: Let_def split: option.splits)
  show ?case
  proof (cases "i \<in> set js")
    case True
    with Cons.IH [OF run] Cons.prems(2,3) show ?thesis by simp
  next
    case False
    then have "i = j" using Cons.prems(4) by simp
    have "ck_name (cs ! i) \<notin> ck_name ` (\<lambda>i. cs ! i) ` set js"
    proof
      assume "ck_name (cs ! i) \<in> ck_name ` (\<lambda>i. cs ! i) ` set js"
      then obtain k where k: "k \<in> set js" "ck_name (cs ! i) = ck_name (cs ! k)" by blast
      then have "k < length cs" "i < length cs" using Cons.prems(2,4) by auto
      with k(2) assms have "i = k" by (simp add: distinct_conv_nth) metis
      with k(1) False show False by simp
    qed
    with collect_keeps [OF run] \<open>i = j\<close> show ?thesis by simp
  qed
qed simp

text \<open>The gauge of a check is its own: nothing collected later writes it.\<close>

definition own_gauges :: "check list \<Rightarrow> bool" where
  "own_gauges cs \<longleftrightarrow> distinct (map (the \<circ> ck_gauge) (filter (\<lambda>c. ck_gauge c \<noteq> None) cs))"

lemma own_gauges_eq:
  "own_gauges cs \<Longrightarrow> i < length cs \<Longrightarrow> j < length cs \<Longrightarrow> ck_gauge (cs ! i) = Some g \<Longrightarrow>
   ck_gauge (cs ! j) = Some g \<Longrightarrow> i = j"
proof (induction cs arbitrary: i j)
  case (Cons c cs)
  have own: "own_gauges cs" using Cons.prems(1) by (auto simp: own_gauges_def split: if_splits)
  have head: "g \<notin> (the \<circ> ck_gauge) ` {d \<in> set cs. ck_gauge d \<noteq> None}" if "ck_gauge c = Some g"
    using Cons.prems(1) that by (auto simp: own_gauges_def)
  have other: "ck_gauge (cs ! k) \<noteq> Some g" if "ck_gauge c = Some g" "k < length cs" for k
  proof
    assume "ck_gauge (cs ! k) = Some g"
    then have "g \<in> (the \<circ> ck_gauge) ` {d \<in> set cs. ck_gauge d \<noteq> None}"
      using that(2) by (intro image_eqI [of _ _ "cs ! k"]) simp_all
    with head [OF that(1)] show False ..
  qed
  from Cons.IH [OF own] other Cons.prems(2-5) show ?case by (auto simp: nth_Cons split: nat.splits)
qed simp

lemma collect_gauge_keeps:
  "collect cs outcome js out ok gs = (out', ok', gs') \<Longrightarrow> \<forall>j \<in> set js. ck_gauge (cs ! j) \<noteq> Some g \<Longrightarrow> gs' g = gs g"
proof (induction js arbitrary: out ok gs)
  case (Cons j js)
  then show ?case by (auto simp: Let_def set_gauge_def split: option.splits)
qed simp

lemma collect_gauge:
  assumes "own_gauges cs" and "ck_gauge (cs ! i) = Some g"
  shows "collect cs outcome js out ok gs = (out', ok', gs') \<Longrightarrow> set js \<subseteq> {..<length cs} \<Longrightarrow> distinct js \<Longrightarrow>
    i \<in> set js \<Longrightarrow> gs' g = Some (if outcome i = None then 1 else 0)"
proof (induction js arbitrary: out ok gs)
  case (Cons j js)
  from Cons.prems(1) obtain out1 b where
    run: "collect cs outcome js out1 b (set_gauge (ck_gauge (cs ! j)) (outcome j = None) gs) = (out', ok', gs')"
    by (auto simp: Let_def split: option.splits)
  show ?case
  proof (cases "i \<in> set js")
    case True
    with Cons.IH [OF run] Cons.prems(2,3) show ?thesis by simp
  next
    case False
    then have "i = j" using Cons.prems(4) by simp
    moreover have "ck_gauge (cs ! k) \<noteq> Some g" if "k \<in> set js" for k
      using own_gauges_eq [OF assms(1), of i k g] assms(2) that Cons.prems(2,4) False by auto
    ultimately show ?thesis
      using collect_gauge_keeps [OF run, of g] assms(2) by (simp add: set_gauge_def)
  qed
qed simp

text \<open>
  \<open>/readyz\<close> answers 200 exactly when no check failed; \<open>/healthz\<close> never depends on a check.
\<close>

lemma readyz_status:
  assumes "set order = {..<length cs}" and "rs_status w = 0"
  shows "rs_status (fst (handle_readyz l cs outcome order w gs)) =
    (if \<forall>i < length cs. outcome i = None then 200 else 503)"
proof (cases cs)
  case Nil
  with assms show ?thesis
    by (simp add: handle_readyz_def runChecks_def writeJSON_def encode_body_def http_simps)
next
  case (Cons c cs')
  obtain out ok gs' where "collect cs outcome order Map.empty True gs = (out, ok, gs')" by (metis prod.exhaust)
  with collect_ok [OF this] assms Cons show ?thesis
    by (auto simp: handle_readyz_def runChecks_def writeJSON_def encode_body_def http_simps)
qed

text \<open>
  C35. Readiness is the conjunction of the checks, whatever order they finish in: the verdict is that
  all of them passed and \<open>/readyz\<close> answers 200 or 503 accordingly, the answer names every check with
  its own result and nothing else, the gauge of every check holds the outcome of this evaluation, and
  every other gauge keeps its value.
\<close>

theorem readiness_reports_every_check:
  assumes "distinct (map ck_name cs)" and "own_gauges cs" and "distinct order" "set order = {..<length cs}"
    and "runChecks cs outcome order gs = (out, ok, gs')" and "rs_status w = 0"
  shows "(ok \<longleftrightarrow> (\<forall>i < length cs. outcome i = None)) \<and>
    rs_status (fst (handle_readyz l cs outcome order w gs)) = (if ok then 200 else 503) \<and>
    dom out = ck_name ` set cs \<and>
    (\<forall>i < length cs. out (ck_name (cs ! i)) = Some (case outcome i of None \<Rightarrow> ''ok'' | Some e \<Rightarrow> e) \<and>
       (\<forall>g. ck_gauge (cs ! i) = Some g \<longrightarrow> gs' g = Some (if outcome i = None then 1 else 0))) \<and>
    (\<forall>g. Some g \<notin> ck_gauge ` set cs \<longrightarrow> gs' g = gs g)"
proof (cases "cs = []")
  case True
  with assms readyz_status [OF assms(4,6)] show ?thesis by (auto simp: runChecks_def)
next
  case False
  with assms(5) have run: "collect cs outcome order Map.empty True gs = (out, ok, gs')"
    by (simp add: runChecks_def)
  have idx: "(\<lambda>i. cs ! i) ` set order = set cs" using assms(4) by (auto simp: set_conv_nth)
  have verdict: "ok \<longleftrightarrow> (\<forall>i < length cs. outcome i = None)" and "dom out = ck_name ` set cs"
    using collect_ok [OF run] assms(4) idx by auto
  moreover have "out (ck_name (cs ! i)) = Some (case outcome i of None \<Rightarrow> ''ok'' | Some e \<Rightarrow> e) \<and>
       (\<forall>g. ck_gauge (cs ! i) = Some g \<longrightarrow> gs' g = Some (if outcome i = None then 1 else 0))"
    if "i < length cs" for i
    using collect_value [OF assms(1) run] collect_gauge [OF assms(2) _ run] assms(3,4) that by simp
  moreover have "gs' g = gs g" if "Some g \<notin> ck_gauge ` set cs" for g
  proof (rule collect_gauge_keeps [OF run])
    show "\<forall>j \<in> set order. ck_gauge (cs ! j) \<noteq> Some g"
      using assms(4) that by (metis imageI lessThan_iff nth_mem)
  qed
  ultimately show ?thesis using readyz_status [OF assms(4,6)] by auto
qed

definition two_checks :: "check list" where
  "two_checks = [\<lparr>ck_name = ''postgres'', ck_gauge = Some ''db_up''\<rparr>, \<lparr>ck_name = ''redis'', ck_gauge = Some ''redis_up''\<rparr>]"

theorem readiness_reports_every_check_witness:
  "\<exists>out ok gs'. runChecks two_checks (\<lambda>i. if i = 1 then Some ''refused'' else None) [1, 0] Map.empty = (out, ok, gs') \<and>
     \<not> ok \<and> out ''redis'' = Some ''refused'' \<and> gs' ''db_up'' = Some 1 \<and> gs' ''redis_up'' = Some 0"
proof -
  let ?outcome = "\<lambda>i :: nat. if i = 1 then Some ''refused'' else None"
  obtain out ok gs' where r: "runChecks two_checks ?outcome [1, 0] Map.empty = (out, ok, gs')" by (metis prod.exhaust)
  have len: "length two_checks = 2" by (simp add: two_checks_def)
  have "distinct (map ck_name two_checks)" "own_gauges two_checks" "{..<length two_checks} = {1, 0}"
    by (auto simp: two_checks_def own_gauges_def)
  note P = readiness_reports_every_check [OF this(1,2) _ _ r, of "new_resp (\<lambda>k. True)"]
  have P: "(ok \<longleftrightarrow> (\<forall>i < 2. ?outcome i = None)) \<and>
    (\<forall>i < 2. out (ck_name (two_checks ! i)) = Some (case ?outcome i of None \<Rightarrow> ''ok'' | Some e \<Rightarrow> e) \<and>
       (\<forall>g. ck_gauge (two_checks ! i) = Some g \<longrightarrow> gs' g = Some (if ?outcome i = None then 1 else 0)))"
    using P \<open>{..<length two_checks} = {1, 0}\<close> unfolding len by (simp add: new_resp_def)
  then have "\<not> ok" by (auto intro!: exI [of _ 1])
  moreover have "out ''redis'' = Some ''refused'' \<and> gs' ''redis_up'' = Some 0"
    using P [THEN conjunct2, THEN spec, of 1] by (simp add: two_checks_def)
  moreover have "gs' ''db_up'' = Some 1"
    using P [THEN conjunct2, THEN spec, of 0] by (simp add: two_checks_def)
  ultimately show ?thesis using r by blast
qed

section \<open>Shutting down\<close>

text \<open>In every run the channel is closed at most once: no step of a shutdown panics.\<close>

definition server_ok :: "server \<Rightarrow> bool" where
  "server_ok s \<longleftrightarrow> sv_done s = sv_done_once s"

lemma server_step_ok: "server_step s t \<Longrightarrow> server_ok s \<Longrightarrow> server_ok t"
  by (induction rule: server_step.induct)
    (auto simp: server_ok_def probe_step_def close_done_def split: if_splits probe_event.splits prod.splits)

interpretation server_runs: stepwise_invariant server_step server_ok
  by unfold_locales (blast intro: server_step_ok)

lemma shutdown_never_panics:
  assumes "NewServer c listened = Inr s" and "server_step\<^sup>*\<^sup>* (StartServer s) t"
  shows "close_done t \<noteq> None"
proof -
  have "server_ok (StartServer s)"
    using assms(1) by (auto simp: NewServer_def StartServer_def server_ok_def Let_def split: if_splits)
  then have "server_ok t" by (rule server_runs.run_keeps_from_start [OF _ assms(2)])
  then show ?thesis by (simp add: close_done_def server_ok_def)
qed

text \<open>Once the channel is closed, every prober can leave, and when they have, \<open>Shutdown\<close> returns.\<close>

lemma probers_leave:
  assumes "sv_done s"
  shows "\<exists>t. server_step\<^sup>*\<^sup>* s t \<and> shutdown_returns t \<and> sv_gauges t = sv_gauges s"
  using assms
proof (induction "sv_probers s" arbitrary: s)
  case 0
  then show ?case by (intro exI [of _ s]) (simp add: shutdown_returns_def)
next
  case (Suc n)
  let ?t = "s\<lparr>sv_probers := n\<rparr>"
  have "server_step s ?t"
    by (rule server_step.probe [of Done]) (use Suc.hyps(2) [symmetric] Suc.prems in \<open>simp add: probe_step_def\<close>)
  moreover from Suc.hyps(1) [of ?t] Suc.prems obtain u where
    "server_step\<^sup>*\<^sup>* ?t u" "shutdown_returns u" "sv_gauges u = sv_gauges s" by auto
  ultimately show ?case by (meson converse_rtranclp_into_rtranclp)
qed

end
