(* ===== verification/Simulator.thy ===== *)
theory Simulator
  imports Prelude
begin

text \<open>
  The deterministic fleet, \<open>internal/simulator/simulator.go\<close>: routes, interpolation along them,
  placement and steps.

  The arithmetic of \<open>float64\<close> is the record \<open>fops\<close> of operations on a type \<open>'f\<close>, and \<open>math/rand\<close> is
  \<open>rng\<close>; no law of either is assumed except that \<open>Int63n n\<close> is below \<open>n\<close>. The
  routes with their points are an argument of \<open>ParseGeometry\<close>; \<open>Geometry\<close> reads them from the document.
  An index out of range panics in Go; here it is \<open>None\<close>.
\<close>

section \<open>Arithmetic\<close>

record 'f fops =
  fo_add :: "'f \<Rightarrow> 'f \<Rightarrow> 'f"
  fo_sub :: "'f \<Rightarrow> 'f \<Rightarrow> 'f"
  fo_mul :: "'f \<Rightarrow> 'f \<Rightarrow> 'f"
  fo_div :: "'f \<Rightarrow> 'f \<Rightarrow> 'f"
  fo_mod :: "'f \<Rightarrow> 'f \<Rightarrow> 'f"
  fo_min :: "'f \<Rightarrow> 'f \<Rightarrow> 'f"
  fo_lt :: "'f \<Rightarrow> 'f \<Rightarrow> bool"
  fo_le :: "'f \<Rightarrow> 'f \<Rightarrow> bool"
  fo_eq :: "'f \<Rightarrow> 'f \<Rightarrow> bool"
  fo_sin :: "'f \<Rightarrow> 'f"
  fo_cos :: "'f \<Rightarrow> 'f"
  fo_asin :: "'f \<Rightarrow> 'f"
  fo_sqrt :: "'f \<Rightarrow> 'f"
  fo_atan2 :: "'f \<Rightarrow> 'f \<Rightarrow> 'f"
  fo_round :: "'f \<Rightarrow> 'f"
  fo_pi :: 'f
  fo_of :: "rat \<Rightarrow> 'f"

record ('f, 'r) rng =
  rn_new :: "int \<Rightarrow> 'r"
  rn_int63n :: "int \<Rightarrow> 'r \<Rightarrow> int \<times> 'r"
  rn_float64 :: "'r \<Rightarrow> 'f \<times> 'r"

definition nth_opt :: "'a list \<Rightarrow> int \<Rightarrow> 'a option" where
  "nth_opt xs i = (if 0 \<le> i \<and> i < int (length xs) then Some (xs ! nat i) else None)"

text \<open>The remainder of a division, with the sign of the dividend.\<close>

definition go_rem :: "int \<Rightarrow> int \<Rightarrow> int" where
  "go_rem a b = (if a < 0 then - ((- a) mod b) else a mod b)"

section \<open>Geometry\<close>

record 'f point =
  pt_lat :: 'f
  pt_lon :: 'f

record 'f route =
  ro_id :: string
  ro_points :: "'f point list"
  ro_cumulative :: "'f list"
  ro_segments :: "'f list"
  ro_length :: 'f

datatype sim_error =
    NoRoutes | NoRouteID nat | DuplicateRoute string | TooFewPoints string nat | ZeroLength string
  | NoGeometry | NoVehicles int

definition radians :: "'f fops \<Rightarrow> 'f \<Rightarrow> 'f" where
  "radians F x = fo_div F (fo_mul F x (fo_pi F)) (fo_of F 180)"

definition Haversine :: "'f fops \<Rightarrow> 'f point \<Rightarrow> 'f point \<Rightarrow> 'f" where
  "Haversine F a b =
     (let lat1 = radians F (pt_lat a); lat2 = radians F (pt_lat b);
          dLat = radians F (fo_sub F (pt_lat b) (pt_lat a));
          dLon = radians F (fo_sub F (pt_lon b) (pt_lon a));
          half = (\<lambda>d. fo_sin F (fo_div F d (fo_of F 2)));
          h = fo_add F (fo_mul F (half dLat) (half dLat))
                (fo_mul F (fo_mul F (fo_mul F (fo_cos F lat1) (fo_cos F lat2)) (half dLon)) (half dLon))
      in fo_mul F (fo_of F (2 * 63710088 / 10)) (fo_asin F (fo_min F (fo_of F 1) (fo_sqrt F h))))"

definition bearing :: "'f fops \<Rightarrow> 'f point \<Rightarrow> 'f point \<Rightarrow> 'f" where
  "bearing F a b =
     (let lat1 = radians F (pt_lat a); lat2 = radians F (pt_lat b);
          dLon = radians F (fo_sub F (pt_lon b) (pt_lon a));
          y = fo_mul F (fo_sin F dLon) (fo_cos F lat2);
          x = fo_sub F (fo_mul F (fo_cos F lat1) (fo_sin F lat2))
                (fo_mul F (fo_mul F (fo_sin F lat1) (fo_cos F lat2)) (fo_cos F dLon))
      in if fo_eq F x (fo_of F 0) \<and> fo_eq F y (fo_of F 0) then fo_of F 0
         else fo_mod F (fo_add F (fo_div F (fo_mul F (fo_atan2 F y x) (fo_of F 180)) (fo_pi F)) (fo_of F 360))
                (fo_of F 360))"

text \<open>The loop of \<open>prepare\<close>: the segment lengths and the running totals.\<close>

fun prepare_loop :: "'f fops \<Rightarrow> 'f \<Rightarrow> 'f point list \<Rightarrow> 'f list \<times> 'f list \<times> 'f" where
  "prepare_loop F acc (a # b # ps) =
     (let d = Haversine F a b; acc1 = fo_add F acc d;
          (segs, cums, final) = prepare_loop F acc1 (b # ps)
      in (d # segs, acc1 # cums, final))"
| "prepare_loop F acc ps = ([], [], acc)"

definition prepare :: "'f fops \<Rightarrow> string \<Rightarrow> 'f point list \<Rightarrow> sim_error + 'f route" where
  "prepare F rid pts =
     (let (segs, cums, acc) = prepare_loop F (fo_of F 0) pts in
      if fo_le F acc (fo_of F 0) then Inl (ZeroLength rid)
      else Inr \<lparr>ro_id = rid, ro_points = pts, ro_cumulative = fo_of F 0 # cums, ro_segments = segs,
                ro_length = acc\<rparr>)"

fun check_routes :: "'f fops \<Rightarrow> string set \<Rightarrow> nat \<Rightarrow> (string \<times> 'f point list) list \<Rightarrow> sim_error + 'f route list" where
  "check_routes F seen i [] = Inr []"
| "check_routes F seen i ((rid, pts) # rest) =
     (if rid = [] then Inl (NoRouteID i)
      else if rid \<in> seen then Inl (DuplicateRoute rid)
      else if length pts < 2 then Inl (TooFewPoints rid (length pts))
      else (case prepare F rid pts of
              Inl e \<Rightarrow> Inl e
            | Inr r \<Rightarrow>
                (case check_routes F (insert rid seen) (Suc i) rest of
                   Inl e \<Rightarrow> Inl e
                 | Inr rs \<Rightarrow> Inr (r # rs))))"

definition ParseGeometry :: "'f fops \<Rightarrow> (string \<times> 'f point list) list \<Rightarrow> sim_error + 'f route list" where
  "ParseGeometry F doc = (if length doc = 0 then Inl NoRoutes else check_routes F {} 0 doc)"

section \<open>Interpolation\<close>

text \<open>\<open>sort.Search\<close> between \<open>i\<close> and \<open>j\<close>.\<close>

function search :: "(nat \<Rightarrow> bool) \<Rightarrow> nat \<Rightarrow> nat \<Rightarrow> nat" where
  "search f i j =
     (if i < j then
        let h = (i + j) div 2 in
        if \<not> f h then search f (h + 1) j else search f i h
      else i)"
  by pat_completeness auto

termination search
  by (relation "measure (\<lambda>(f, i, j). j - i)") auto

declare search.simps [simp del]

definition SearchFloat64s :: "'f fops \<Rightarrow> 'f list \<Rightarrow> 'f \<Rightarrow> nat" where
  "SearchFloat64s F a x = search (\<lambda>i. fo_le F x (a ! i)) 0 (length a)"

definition wrap_offset :: "'f fops \<Rightarrow> 'f route \<Rightarrow> 'f \<Rightarrow> 'f" where
  "wrap_offset F r offsetM =
     (let off = fo_mod F offsetM (ro_length r)
      in if fo_lt F off (fo_of F 0) then fo_add F off (ro_length r) else off)"

definition segment_index :: "'f fops \<Rightarrow> 'f route \<Rightarrow> 'f \<Rightarrow> int" where
  "segment_index F r off =
     (let i0 = int (SearchFloat64s F (ro_cumulative r) off) - 1;
          i1 = (if i0 < 0 then 0 else i0)
      in if i1 \<ge> int (length (ro_segments r)) then int (length (ro_segments r)) - 1 else i1)"

definition At :: "'f fops \<Rightarrow> 'f route \<Rightarrow> 'f \<Rightarrow> ('f point \<times> 'f) option" where
  "At F r offsetM =
     (if fo_le F (ro_length r) (fo_of F 0) then
        map_option (\<lambda>p. (p, fo_of F 0)) (nth_opt (ro_points r) 0)
      else
        let off = wrap_offset F r offsetM; i = segment_index F r off in
        (case (nth_opt (ro_segments r) i, nth_opt (ro_points r) i, nth_opt (ro_points r) (i + 1),
               nth_opt (ro_cumulative r) i) of
           (Some seg, Some a, Some b, Some cum) \<Rightarrow>
             if fo_le F seg (fo_of F 0) then Some (a, bearing F a b)
             else
               let t0 = fo_div F (fo_sub F off cum) seg;
                   t = (if fo_lt F t0 (fo_of F 0) then fo_of F 0
                        else if fo_lt F (fo_of F 1) t0 then fo_of F 1 else t0) in
               Some (\<lparr>pt_lat = fo_add F (pt_lat a) (fo_mul F (fo_sub F (pt_lat b) (pt_lat a)) t),
                      pt_lon = fo_add F (pt_lon a) (fo_mul F (fo_sub F (pt_lon b) (pt_lon a)) t)\<rparr>,
                     bearing F a b)
         | _ \<Rightarrow> None))"

section \<open>The fleet\<close>

record 'f vehicle =
  ve_id :: string
  ve_route :: "'f route"
  ve_offset :: 'f
  ve_base :: 'f
  ve_phase :: 'f
  ve_sequence :: "64 word"
  ve_elapsed :: 'f

record 'f sim_observation =
  so_vehicle :: string
  so_route :: string
  so_lat :: 'f
  so_lon :: 'f
  so_speed :: 'f
  so_bearing :: 'f
  so_sequence :: "64 word"

record 'f fleet =
  fl_routes :: "'f route list"
  fl_vehicles :: "'f vehicle list"
  fl_elapsed :: 'f

text \<open>\<open>fmt.Sprintf\<close> of \<open>veh-%04d\<close>.\<close>

definition vehicle_name :: "nat \<Rightarrow> string" where
  "vehicle_name n = ''veh-'' @ replicate (4 - length (dec_nat n)) (CHR ''0'') @ dec_nat n"

text \<open>The body of the placement loop; the draws are made in the order of the fields.\<close>

definition place :: "'f fops \<Rightarrow> ('f, 'r) rng \<Rightarrow> 'f route list \<Rightarrow> nat \<Rightarrow> 'r \<Rightarrow> 'f vehicle option \<times> 'r" where
  "place F R routes i r =
     (let (k, r1) = rn_int63n R (int (length routes)) r;
          (o1, r2) = rn_float64 R r1; (b1, r3) = rn_float64 R r2; (p1, r4) = rn_float64 R r3 in
      (map_option (\<lambda>rt. \<lparr>ve_id = vehicle_name (i + 1), ve_route = rt, ve_offset = fo_mul F o1 (ro_length rt),
          ve_base = fo_add F (fo_of F 15) (fo_mul F b1 (fo_of F 70)),
          ve_phase = fo_mul F (fo_mul F p1 (fo_of F 2)) (fo_pi F), ve_sequence = 0, ve_elapsed = fo_of F 0\<rparr>)
        (nth_opt routes (go_rem (int i + k) (int (length routes)))), r4))"

fun place_loop :: "'f fops \<Rightarrow> ('f, 'r) rng \<Rightarrow> 'f route list \<Rightarrow> nat \<Rightarrow> nat \<Rightarrow> 'r \<Rightarrow> 'f vehicle list option" where
  "place_loop F R routes i 0 r = Some []"
| "place_loop F R routes i (Suc n) r =
     (case place F R routes i r of
        (None, r1) \<Rightarrow> None
      | (Some v, r1) \<Rightarrow> map_option (\<lambda>vs. v # vs) (place_loop F R routes (Suc i) n r1))"

text \<open>The outer option is a panic.\<close>

definition NewFleet ::
  "'f fops \<Rightarrow> ('f, 'r) rng \<Rightarrow> 'f route list \<Rightarrow> int \<Rightarrow> int \<Rightarrow> (sim_error + 'f fleet) option" where
  "NewFleet F R routes seed n =
     (if length routes = 0 then Some (Inl NoGeometry)
      else if n < 1 then Some (Inl (NoVehicles n))
      else map_option (\<lambda>vs. Inr \<lparr>fl_routes = routes, fl_vehicles = vs, fl_elapsed = fo_of F 0\<rparr>)
             (place_loop F R routes 0 (nat n) (rn_new R seed)))"

definition speedAt :: "'f fops \<Rightarrow> 'f vehicle \<Rightarrow> 'f \<Rightarrow> 'f" where
  "speedAt F v elapsed =
     (let wave = fo_sin F (fo_add F (fo_div F elapsed (fo_of F 20)) (ve_phase v))
      in fo_mul F (ve_base v) (fo_add F (fo_of F 1) (fo_mul F (fo_of F (1 / 4)) wave)))"

definition round_tenth :: "'f fops \<Rightarrow> 'f \<Rightarrow> 'f" where
  "round_tenth F x = fo_div F (fo_round F (fo_mul F x (fo_of F 10))) (fo_of F 10)"

definition step_vehicle :: "'f fops \<Rightarrow> 'f \<Rightarrow> 'f vehicle \<Rightarrow> ('f vehicle \<times> 'f sim_observation) option" where
  "step_vehicle F dt v0 =
     (let v1 = v0\<lparr>ve_elapsed := fo_add F (ve_elapsed v0) dt\<rparr>;
          speed = speedAt F v1 (ve_elapsed v1);
          v2 = v1\<lparr>ve_offset := fo_add F (ve_offset v1) (fo_mul F (fo_div F speed (fo_of F (36 / 10))) dt)\<rparr> in
      case At F (ve_route v2) (ve_offset v2) of
        None \<Rightarrow> None
      | Some (pos, heading) \<Rightarrow>
          let v3 = v2\<lparr>ve_sequence := ve_sequence v2 + 1\<rparr> in
          Some (v3, \<lparr>so_vehicle = ve_id v3, so_route = ro_id (ve_route v3), so_lat = pt_lat pos, so_lon = pt_lon pos,
            so_speed = round_tenth F speed, so_bearing = round_tenth F heading, so_sequence = ve_sequence v3\<rparr>))"

fun step_all :: "'f fops \<Rightarrow> 'f \<Rightarrow> 'f vehicle list \<Rightarrow> ('f vehicle list \<times> 'f sim_observation list) option" where
  "step_all F dt [] = Some ([], [])"
| "step_all F dt (v # vs) =
     (case step_vehicle F dt v of
        None \<Rightarrow> None
      | Some (v1, ob) \<Rightarrow>
          (case step_all F dt vs of None \<Rightarrow> None | Some (vs1, obs) \<Rightarrow> Some (v1 # vs1, ob # obs)))"

definition Step :: "'f fops \<Rightarrow> 'f \<Rightarrow> 'f fleet \<Rightarrow> ('f sim_observation list \<times> 'f fleet) option" where
  "Step F dt f =
     (case step_all F dt (fl_vehicles f) of
        None \<Rightarrow> None
      | Some (vs, obs) \<Rightarrow> Some (obs, f\<lparr>fl_vehicles := vs, fl_elapsed := fo_add F (fl_elapsed f) dt\<rparr>))"

section \<open>No index is out of range\<close>

lemma search_bounds: "i \<le> j \<Longrightarrow> i \<le> search f i j \<and> search f i j \<le> j"
proof (induction f i j rule: search.induct)
  case (1 f i j)
  show ?case
  proof (cases "i < j")
    case True
    let ?h = "(i + j) div 2"
    have h: "i \<le> ?h" "?h < j" using True by auto
    show ?thesis
    proof (cases "f ?h")
      case fh: True
      with 1(2) [OF True refl _ h(1)] h True show ?thesis
        by (subst (1 2) search.simps) (simp add: Let_def)
    next
      case False
      with 1(1) [OF True refl False] h True show ?thesis
        by (subst (1 2) search.simps) (simp add: Let_def)
    qed
  next
    case False
    with 1(3) show ?thesis by (simp add: search.simps)
  qed
qed

lemma prepare_loop_lengths:
  "prepare_loop F acc pts = (segs, cums, final) \<Longrightarrow> length segs = length pts - 1 \<and> length cums = length pts - 1"
proof (induction F acc pts arbitrary: segs cums final rule: prepare_loop.induct)
  case (1 F acc a b ps)
  then show ?case by (auto simp: Let_def split: prod.splits)
qed simp_all

definition route_ok :: "'f route \<Rightarrow> bool" where
  "route_ok r \<longleftrightarrow> length (ro_points r) \<ge> 2 \<and> length (ro_segments r) = length (ro_points r) - 1 \<and>
     length (ro_cumulative r) = length (ro_points r)"

lemma prepare_ok:
  assumes "prepare F rid pts = Inr r" and "length pts \<ge> 2"
  shows "route_ok r \<and> ro_id r = rid \<and> ro_points r = pts"
proof -
  obtain segs cums acc where p: "prepare_loop F (fo_of F 0) pts = (segs, cums, acc)" by (metis prod.exhaust)
  from prepare_loop_lengths [OF p] p assms show ?thesis
    by (auto simp: prepare_def route_ok_def split: if_splits)
qed

lemma check_routes_ok:
  "check_routes F seen i doc = Inr rs \<Longrightarrow>
   list_all route_ok rs \<and> map ro_id rs = map fst doc \<and> distinct (map fst doc) \<and> set (map fst doc) \<inter> seen = {} \<and>
   [] \<notin> set (map fst doc)"
proof (induction F seen i doc arbitrary: rs rule: check_routes.induct)
  case (2 F seen i rid pts rest)
  then obtain r rs1 where r: "prepare F rid pts = Inr r" "check_routes F (insert rid seen) (Suc i) rest = Inr rs1"
    "rs = r # rs1" "rid \<noteq> []" "rid \<notin> seen" "\<not> length pts < 2"
    by (auto split: if_splits sum.splits)
  from "2.IH" [OF r(4,5,6,1,2)] prepare_ok [OF r(1)] r(3-6) show ?case by auto
qed simp

lemma segment_index_bounds:
  "route_ok r \<Longrightarrow> 0 \<le> segment_index F r off \<and> segment_index F r off < int (length (ro_segments r))"
  by (auto simp: segment_index_def route_ok_def Let_def)

lemma At_total:
  assumes "route_ok r"
  shows "At F r off \<noteq> None"
proof (cases "fo_le F (ro_length r) (fo_of F 0)")
  case True
  with assms show ?thesis by (auto simp: At_def nth_opt_def route_ok_def)
next
  case False
  have "nth_opt (ro_segments r) i \<noteq> None \<and> nth_opt (ro_points r) i \<noteq> None \<and>
      nth_opt (ro_points r) (i + 1) \<noteq> None \<and> nth_opt (ro_cumulative r) i \<noteq> None"
    if "i = segment_index F r (wrap_offset F r off)" for i
    using segment_index_bounds [OF assms, of F "wrap_offset F r off"] assms that
    by (auto simp: nth_opt_def route_ok_def)
  with False show ?thesis by (auto simp: At_def Let_def)
qed

section \<open>Placement and steps\<close>

lemma step_vehicle_total:
  assumes "route_ok (ve_route v)"
  shows "\<exists>v1 ob. step_vehicle F dt v = Some (v1, ob) \<and> ve_id v1 = ve_id v \<and> ve_route v1 = ve_route v \<and>
    ve_sequence v1 = ve_sequence v + 1 \<and> so_vehicle ob = ve_id v \<and> so_route ob = ro_id (ve_route v) \<and>
    so_sequence ob = ve_sequence v + 1"
  using At_total [OF assms, of F] by (auto simp: step_vehicle_def Let_def split: option.splits)

lemma step_all_total:
  "\<forall>v \<in> set vs. route_ok (ve_route v) \<Longrightarrow>
   \<exists>vs1 obs. step_all F dt vs = Some (vs1, obs) \<and> map ve_id vs1 = map ve_id vs \<and> map ve_route vs1 = map ve_route vs \<and>
     map ve_sequence vs1 = map (\<lambda>v. ve_sequence v + 1) vs \<and>
     map so_vehicle obs = map ve_id vs \<and> map so_sequence obs = map (\<lambda>v. ve_sequence v + 1) vs \<and>
     map so_route obs = map (\<lambda>v. ro_id (ve_route v)) vs"
proof (induction vs)
  case (Cons v vs)
  then obtain vs1 obs where vs1: "step_all F dt vs = Some (vs1, obs)" "map ve_id vs1 = map ve_id vs"
    "map ve_route vs1 = map ve_route vs" "map ve_sequence vs1 = map (\<lambda>v. ve_sequence v + 1) vs"
    "map so_vehicle obs = map ve_id vs" "map so_sequence obs = map (\<lambda>v. ve_sequence v + 1) vs"
    "map so_route obs = map (\<lambda>v. ro_id (ve_route v)) vs" by auto
  from step_vehicle_total [of v F dt] Cons.prems obtain v1 ob where
    "step_vehicle F dt v = Some (v1, ob)" "ve_id v1 = ve_id v" "ve_route v1 = ve_route v"
    "ve_sequence v1 = ve_sequence v + 1" "so_vehicle ob = ve_id v" "so_sequence ob = ve_sequence v + 1"
    "so_route ob = ro_id (ve_route v)" by auto
  with vs1 show ?case by simp
qed simp

definition fleet_ok :: "'f fleet \<Rightarrow> bool" where
  "fleet_ok f \<longleftrightarrow> (\<forall>v \<in> set (fl_vehicles f). route_ok (ve_route v))"

lemma Step_total:
  assumes "fleet_ok f"
  shows "\<exists>obs f1. Step F dt f = Some (obs, f1) \<and> fleet_ok f1 \<and>
    map ve_id (fl_vehicles f1) = map ve_id (fl_vehicles f) \<and>
    map ve_route (fl_vehicles f1) = map ve_route (fl_vehicles f) \<and>
    map ve_sequence (fl_vehicles f1) = map (\<lambda>v. ve_sequence v + 1) (fl_vehicles f) \<and>
    map so_vehicle obs = map ve_id (fl_vehicles f) \<and>
    map so_sequence obs = map (\<lambda>v. ve_sequence v + 1) (fl_vehicles f) \<and>
    map so_route obs = map (\<lambda>v. ro_id (ve_route v)) (fl_vehicles f)"
proof -
  from step_all_total [of "fl_vehicles f" F dt] assms obtain vs1 obs where
    s: "step_all F dt (fl_vehicles f) = Some (vs1, obs)" "map ve_id vs1 = map ve_id (fl_vehicles f)"
    "map ve_route vs1 = map ve_route (fl_vehicles f)" "map ve_sequence vs1 = map (\<lambda>v. ve_sequence v + 1) (fl_vehicles f)"
    "map so_vehicle obs = map ve_id (fl_vehicles f)" "map so_sequence obs = map (\<lambda>v. ve_sequence v + 1) (fl_vehicles f)"
    "map so_route obs = map (\<lambda>v. ro_id (ve_route v)) (fl_vehicles f)"
    by (auto simp: fleet_ok_def)
  from s(3) have "ve_route ` set vs1 = ve_route ` set (fl_vehicles f)" by (metis set_map)
  with assms have "\<forall>v \<in> set vs1. route_ok (ve_route v)" unfolding fleet_ok_def by (metis imageE imageI)
  with s show ?thesis by (simp add: Step_def fleet_ok_def)
qed

text \<open>The documented law of \<open>Int63n\<close>.\<close>

definition rng_law :: "('f, 'r) rng \<Rightarrow> bool" where
  "rng_law R \<longleftrightarrow> (\<forall>n r. 0 < n \<longrightarrow> 0 \<le> fst (rn_int63n R n r) \<and> fst (rn_int63n R n r) < n)"

lemma place_Some:
  assumes "rng_law R" and "routes \<noteq> []"
  shows "\<exists>v r1. place F R routes i r = (Some v, r1) \<and> ve_id v = vehicle_name (i + 1) \<and> ve_route v \<in> set routes \<and>
    ve_sequence v = 0"
proof -
  obtain k r1 where k: "rn_int63n R (int (length routes)) r = (k, r1)" by (metis surj_pair)
  let ?j = "go_rem (int i + k) (int (length routes))"
  have "0 \<le> k" using assms k unfolding rng_law_def by (metis fst_conv length_greater_0_conv of_nat_0_less_iff)
  then have "0 \<le> ?j" "?j < int (length routes)" using assms(2) by (simp_all add: go_rem_def)
  then have "nth_opt routes ?j = Some (routes ! nat ?j)" "routes ! nat ?j \<in> set routes"
    by (auto simp: nth_opt_def)
  with k show ?thesis by (simp add: place_def Let_def case_prod_beta)
qed

lemma place_loop_Some:
  assumes "rng_law R" and "routes \<noteq> []"
  shows "\<exists>vs. place_loop F R routes i n r = Some vs \<and> map ve_id vs = map (\<lambda>k. vehicle_name (k + 1)) [i..<i + n] \<and>
    (\<forall>v \<in> set vs. ve_route v \<in> set routes \<and> ve_sequence v = 0)"
proof (induction n arbitrary: i r)
  case (Suc n)
  from place_Some [OF assms, of F i r] obtain v r1 where
    v: "place F R routes i r = (Some v, r1)" "ve_id v = vehicle_name (i + 1)" "ve_route v \<in> set routes" "ve_sequence v = 0"
    by blast
  from Suc.IH [of "Suc i" r1] obtain vs where
    "place_loop F R routes (Suc i) n r1 = Some vs" "map ve_id vs = map (\<lambda>k. vehicle_name (k + 1)) [Suc i..<Suc i + n]"
    "\<forall>v \<in> set vs. ve_route v \<in> set routes \<and> ve_sequence v = 0" by blast
  moreover have "[i..<i + Suc n] = i # [Suc i..<Suc i + n]" by (simp add: upt_conv_Cons del: upt_Suc)
  ultimately show ?case using v by simp
qed simp

text \<open>A larger fleet starts with the smaller one: adding vehicles does not move those already there.\<close>

lemma place_loop_prefix:
  "place_loop F R routes i (n + m) r = Some vs \<Longrightarrow> place_loop F R routes i n r = Some (take n vs)"
proof (induction n arbitrary: i r vs)
  case (Suc n)
  then show ?case by (auto split: prod.splits option.splits)
qed simp

end
