(* ===== verification/Producer.thy ===== *)
theory Producer
  imports Event Simulator Config
begin

text \<open>
  The fleet producer, \<open>cmd/simulate/main.go\<close>: the generator that cuts the observations of the fleet
  into batches, the request of one batch, what is counted of each reply, and the exit of the run.

  Observations carry the \<open>float64\<close> of the event model. The clock, the minted identifiers and the
  answers of the HTTP client are arguments; a send on the channel succeeds unless the context ends
  first. Pacing and the periodic report are left out; the workers are in \<open>Producer_Run\<close>.
\<close>

section \<open>One event on the wire\<close>

type_synonym sim_obs = "float64 sim_observation"

text \<open>\<open>json.Marshal\<close> of the wire struct: \<open>event_id\<close> is omitted when it is empty.\<close>

definition wire_members :: "lib \<Rightarrow> string \<Rightarrow> time \<Rightarrow> sim_obs \<Rightarrow> (string \<times> bytes) list option" where
  "wire_members l eid now ob =
     (case (text_float l (so_lat ob), text_float l (so_lon ob), text_float l (so_speed ob),
            text_float l (so_bearing ob), text_time l now) of
        (Some la, Some lo, Some sp, Some be, Some ts) \<Rightarrow>
          Some ((if eid = [] then [] else [(''event_id'', text_str l eid)]) @
            [(''vehicle_id'', text_str l (so_vehicle ob)), (''route_id'', text_str l (so_route ob)),
             (''lat'', la), (''lon'', lo), (''speed_kph'', sp), (''bearing_deg'', be),
             (''event_ts'', ts), (''sequence'', text_uint64 l (so_sequence ob))])
      | _ \<Rightarrow> None)"

definition wire_event :: "lib \<Rightarrow> string \<Rightarrow> time \<Rightarrow> sim_obs \<Rightarrow> bytes option" where
  "wire_event l eid now ob = map_option (\<lambda>ms. json_text l (JObj ms)) (wire_members l eid now ob)"

text \<open>The events of a batch, each with its own identifier and instant; the first failure ends it.\<close>

fun wire_batch :: "lib \<Rightarrow> (nat \<Rightarrow> string) \<Rightarrow> (nat \<Rightarrow> time) \<Rightarrow> nat \<Rightarrow> sim_obs list \<Rightarrow> bytes list option" where
  "wire_batch l ids clock i [] = Some []"
| "wire_batch l ids clock i (ob # obs) =
     (case wire_event l (ids i) (clock i) ob of
        None \<Rightarrow> None
      | Some raw \<Rightarrow> map_option (\<lambda>raws. raw # raws) (wire_batch l ids clock (Suc i) obs))"

definition request_body :: "lib \<Rightarrow> bytes list \<Rightarrow> bytes" where
  "request_body l events = json_text l (JObj [(''events'', json_text l (JArr events))])"

section \<open>The reply\<close>

record submit_reply =
  sr_accepted :: int
  sr_rejected :: nat

record rejected_item =
  ri_index :: int
  ri_field :: string
  ri_reason :: string

definition store_item :: "lib \<Rightarrow> string \<Rightarrow> bytes \<Rightarrow> rejected_item \<Rightarrow> rejected_item option" where
  "store_item l f raw v =
     (if f = ''index'' then map_option (\<lambda>x. v\<lparr>ri_index := x\<rparr>) (read_int l raw (ri_index v))
      else if f = ''field'' then map_option (\<lambda>x. v\<lparr>ri_field := x\<rparr>) (read_str l raw (ri_field v))
      else map_option (\<lambda>x. v\<lparr>ri_reason := x\<rparr>) (read_str l raw (ri_reason v)))"

definition item_names :: "string list" where
  "item_names = [''index'', ''field'', ''reason'']"

definition store_reply :: "lib \<Rightarrow> string \<Rightarrow> bytes \<Rightarrow> submit_reply \<Rightarrow> submit_reply option" where
  "store_reply l f raw v =
     (if f = ''accepted'' then map_option (\<lambda>x. v\<lparr>sr_accepted := x\<rparr>) (read_int l raw (sr_accepted v))
      else (case json_scan l raw of
              Value JNull \<Rightarrow> Some (v\<lparr>sr_rejected := 0\<rparr>)
            | Value (JArr xs) \<Rightarrow>
                if list_all (\<lambda>x. unmarshal l item_names (store_item l) x
                     \<lparr>ri_index = 0, ri_field = [], ri_reason = []\<rparr> \<noteq> None) xs
                then Some (v\<lparr>sr_rejected := length xs\<rparr>) else None
            | _ \<Rightarrow> None))"

definition reply_names :: "string list" where
  "reply_names = [''accepted'', ''rejected'']"

record counters =
  pc_offered :: int
  pc_accepted :: int
  pc_rejected :: int
  pc_batches :: int
  pc_failed :: int
  pc_bytes :: int

datatype http_answer = Errored bool | Answered nat bytes

text \<open>
  \<open>built\<close> says whether the request could be built; the flag of \<open>Errored\<close> whether the context had
  ended. What is sent is part of the result.
\<close>

definition post ::
  "lib \<Rightarrow> (nat \<Rightarrow> string) \<Rightarrow> (nat \<Rightarrow> time) \<Rightarrow> bool \<Rightarrow> (bytes \<Rightarrow> http_answer) \<Rightarrow> sim_obs list \<Rightarrow> counters \<Rightarrow>
     bytes option \<times> counters" where
  "post l ids clock built answer batch c0 =
     (let fail = (\<lambda>c. c\<lparr>pc_failed := pc_failed c + 1\<rparr>) in
      case wire_batch l ids clock 0 batch of
        None \<Rightarrow> (None, fail c0)
      | Some events \<Rightarrow>
          let body = request_body l events; c1 = c0\<lparr>pc_bytes := pc_bytes c0 + int (length body)\<rparr> in
          if \<not> built then (None, fail c1)
          else
            let c2 = c1\<lparr>pc_batches := pc_batches c1 + 1\<rparr> in
            (Some body,
             (case answer body of
                Errored done_ctx \<Rightarrow> if done_ctx then c2 else fail c2
              | Answered status raw \<Rightarrow>
                  if status = 202 then
                    (case unmarshal l reply_names (store_reply l) (take (2 ^ 20) raw)
                            \<lparr>sr_accepted = 0, sr_rejected = 0\<rparr> of
                       None \<Rightarrow> c2\<lparr>pc_accepted := pc_accepted c2 + int (length events)\<rparr>
                     | Some r \<Rightarrow>
                         let c3 = c2\<lparr>pc_accepted := pc_accepted c2 + sr_accepted r\<rparr> in
                         if sr_rejected r > 0 then c3\<lparr>pc_rejected := pc_rejected c3 + int (sr_rejected r)\<rparr> else c3)
                  else fail c2)))"

section \<open>The generator\<close>

record gen =
  ge_batch :: "sim_obs list"
  ge_out :: "sim_obs list list"
  ge_sends :: nat
  ge_offered :: nat
  ge_stored :: nat

text \<open>\<open>sends k\<close> says whether the \<open>k\<close>-th send went through before the context ended.\<close>

definition flush_batch :: "(nat \<Rightarrow> bool) \<Rightarrow> gen \<Rightarrow> bool \<times> gen" where
  "flush_batch sends g =
     (if length (ge_batch g) = 0 then (True, g)
      else if sends (ge_sends g) then
        (True, g\<lparr>ge_out := ge_out g @ [ge_batch g], ge_batch := [], ge_sends := Suc (ge_sends g)\<rparr>)
      else (False, g\<lparr>ge_sends := Suc (ge_sends g)\<rparr>))"

fun offer :: "int \<Rightarrow> (nat \<Rightarrow> bool) \<Rightarrow> sim_obs list \<Rightarrow> gen \<Rightarrow> bool \<times> gen" where
  "offer cap sends [] g = (True, g)"
| "offer cap sends (ob # obs) g =
     (let g1 = g\<lparr>ge_batch := ge_batch g @ [ob], ge_offered := Suc (ge_offered g)\<rparr> in
      if int (length (ge_batch g1)) \<ge> cap then
        (case flush_batch sends g1 of (False, g2) \<Rightarrow> (False, g2) | (True, g2) \<Rightarrow> offer cap sends obs g2)
      else offer cap sends obs g1)"

text \<open>
  The loop on its iterations: whether the context had ended before it, and whether it ended during
  its wait. The observations it took from the fleet are the first component.
\<close>

fun generate ::
  "float64 fops \<Rightarrow> float64 \<Rightarrow> int \<Rightarrow> (nat \<Rightarrow> bool) \<Rightarrow> (bool \<times> bool) list \<Rightarrow> float64 fleet \<Rightarrow> gen \<Rightarrow>
     (sim_obs list \<times> gen) option" where
  "generate F dt cap sends [] f g = Some ([], g)"
| "generate F dt cap sends ((ended, ended_waiting) # its) f g =
     (if ended then Some ([], snd (flush_batch sends g))
      else (case Step F dt f of
              None \<Rightarrow> None
            | Some (obs, f1) \<Rightarrow>
                (case offer cap sends obs g of
                   (False, g1) \<Rightarrow> Some (obs, g1)
                 | (True, g1) \<Rightarrow>
                     let g2 = g1\<lparr>ge_stored := ge_offered g1\<rparr> in
                     if ended_waiting then Some (obs, snd (flush_batch sends g2))
                     else map_option (\<lambda>(more, g3). (obs @ more, g3)) (generate F dt cap sends its f1 g2))))"

definition gen_start :: gen where
  "gen_start = \<lparr>ge_batch = [], ge_out = [], ge_sends = 0, ge_offered = 0, ge_stored = 0\<rparr>"

text \<open>The error \<open>producer.run\<close> returns once everything was drained.\<close>

definition run_result :: "counters \<Rightarrow> int option" where
  "run_result c = (if pc_failed c > 0 then Some (pc_failed c) else None)"

section \<open>The printed summary\<close>

text \<open>\<open>trunc\<close> is the conversion of a \<open>float64\<close> to \<open>int64\<close>.\<close>

definition round1 :: "float64 fops \<Rightarrow> (float64 \<Rightarrow> int) \<Rightarrow> float64 \<Rightarrow> float64" where
  "round1 F trunc v =
     fo_div F (fo_of F (of_int (trunc (fo_add F (fo_mul F v (fo_of F 10)) (fo_of F (1 / 2)))))) (fo_of F 10)"

definition max64 :: "int \<Rightarrow> int \<Rightarrow> int" where
  "max64 a b = (if a > b then a else b)"

datatype summary_value = SumInt int | SumFloat float64

definition summary_line ::
  "float64 fops \<Rightarrow> (float64 \<Rightarrow> int) \<Rightarrow> simulator_cfg \<Rightarrow> float64 \<Rightarrow> counters \<Rightarrow> (string \<times> summary_value) list" where
  "summary_line F trunc sc elapsed c =
     [(''duration_s'', SumFloat (round1 F trunc elapsed)), (''vehicles'', SumInt (cs_vehicles sc)),
      (''seed'', SumInt (cs_seed sc)), (''batch_size'', SumInt (cs_batch sc)), (''workers'', SumInt (cs_workers sc)),
      (''target_rate'', SumInt (cs_rate sc)), (''offered'', SumInt (pc_offered c)),
      (''accepted'', SumInt (pc_accepted c)), (''rejected'', SumInt (pc_rejected c)),
      (''batches'', SumInt (pc_batches c)), (''failed_batches'', SumInt (pc_failed c)),
      (''achieved_rate'', SumFloat (round1 F trunc (fo_div F (fo_of F (of_int (pc_accepted c))) elapsed))),
      (''accepted_per_batch'', SumFloat (round1 F trunc
         (fo_div F (fo_of F (of_int (pc_accepted c))) (fo_of F (of_int (max64 1 (pc_batches c))))))),
      (''bytes_sent'', SumInt (pc_bytes c))]"

definition summary_member :: "lib \<Rightarrow> string \<times> summary_value \<Rightarrow> (string \<times> bytes) option" where
  "summary_member l kv =
     (case snd kv of
        SumInt i \<Rightarrow> Some (fst kv, text_int l i)
      | SumFloat x \<Rightarrow> map_option (Pair (fst kv)) (text_float l x))"

text \<open>\<open>json.Marshal\<close> writes the keys of a map in order; a number it refuses prints nothing.\<close>

definition summary :: "lib \<Rightarrow> float64 fops \<Rightarrow> (float64 \<Rightarrow> int) \<Rightarrow> simulator_cfg \<Rightarrow> float64 \<Rightarrow> counters \<Rightarrow> bytes option" where
  "summary l F trunc sc elapsed c =
     map_option (\<lambda>ms. json_text l (JObj ms) @ newline)
       (those (map (summary_member l) (sort_key fst (summary_line F trunc sc elapsed c))))"

text \<open>
  No member is lost under the name of another, and the average of a run without a batch divides by one.
\<close>

lemma summary_names_distinct: "distinct (map fst (summary_line F trunc sc elapsed c))"
  by (simp add: summary_line_def)

lemma summary_divisor: "1 \<le> max64 1 n"
  by (simp add: max64_def)

text \<open>The line is printed exactly when its three rates can be written as JSON numbers.\<close>

lemma those_None: "those xs = None \<longleftrightarrow> None \<in> set xs"
  by (induction xs) (auto split: option.splits)

lemma summary_printed:
  "summary l F trunc sc elapsed c = None \<longleftrightarrow>
     (\<exists>x. (\<exists>k. (k, SumFloat x) \<in> set (summary_line F trunc sc elapsed c)) \<and> text_float l x = None)"
proof -
  have "summary_member l kv = None \<longleftrightarrow> (\<exists>x. snd kv = SumFloat x \<and> text_float l x = None)" for kv
    by (cases kv) (simp add: summary_member_def split: summary_value.splits)
  then have "None \<in> summary_member l ` A \<longleftrightarrow> (\<exists>x. (\<exists>k. (k, SumFloat x) \<in> A) \<and> text_float l x = None)" for A
    by (force simp: image_iff eq_commute [of None])
  then show ?thesis by (simp add: summary_def those_None)
qed

section \<open>What the ingest endpoint reads\<close>

definition position_of :: "time \<Rightarrow> sim_obs \<Rightarrow> vehicle_position" where
  "position_of now ob =
     \<lparr>vehicle_id = so_vehicle ob, route_id = so_route ob, lat = so_lat ob, lon = so_lon ob,
      speed_kph = Some (so_speed ob), bearing_deg = Some (so_bearing ob), event_ts = now,
      sequence = so_sequence ob\<rparr>"

definition wire_codec :: "lib \<Rightarrow> string \<Rightarrow> time \<Rightarrow> sim_obs \<Rightarrow> bool" where
  "wire_codec l eid now ob \<longleftrightarrow>
     faithful l (JStr eid) \<and> faithful l (JStr (so_vehicle ob)) \<and> faithful l (JStr (so_route ob)) \<and>
     float_codec l (so_lat ob) \<and> float_codec l (so_lon ob) \<and> float_codec l (so_speed ob) \<and>
     float_codec l (so_bearing ob) \<and> time_codec l now \<and> faithful l (JNum (dec_nat (unat (so_sequence ob)))) \<and>
     (case wire_members l eid now ob of None \<Rightarrow> False | Some ms \<Rightarrow> faithful l (JObj ms))"

lemma wire_event_read:
  assumes "wire_codec l eid now ob"
  shows "\<exists>raw. wire_event l eid now ob = Some raw \<and>
    decode_doc l observation_names (store_observation l) raw \<lparr>o_position = zero_position, o_event_id = []\<rparr> =
      Some \<lparr>o_position = position_of now ob, o_event_id = eid\<rparr>"
proof -
  from assms obtain ms where ms: "wire_members l eid now ob = Some ms" and obj: "faithful l (JObj ms)"
    by (auto simp: wire_codec_def split: option.splits)
  have "decode_members observation_names (store_observation l) ms \<lparr>o_position = zero_position, o_event_id = []\<rparr> =
      Some \<lparr>o_position = position_of now ob, o_event_id = eid\<rparr>"
    using assms ms
    by (auto simp: wire_codec_def wire_members_def float_codec_def time_codec_def text_float_def text_time_def
        field_of_def observation_names_def position_names_def store_observation_def store_position_def
        zero_position_def position_of_def read_str_text read_float_text read_float_ptr_text
        read_time_text read_uint64_text split: option.splits float64.splits)
  with ms obj show ?thesis
    by (simp add: wire_event_def decode_doc_def faithful_def decode_struct_def)
qed

lemma Accept_wire_event:
  assumes "wire_codec l eid now ob" and "Validate (position_of now ob) = None" and "now \<le> later + MaxFutureSkew"
    and "eid \<noteq> []" "uuid_ok l eid" and "marshal_position l (position_of now ob) \<noteq> None"
  shows "\<exists>raw env. wire_event l eid now ob = Some raw \<and>
    Accept l raw src later fresh = Inr (env, position_of now ob) \<and> event_id env = eid"
proof -
  from wire_event_read [OF assms(1)] obtain raw where
    raw: "wire_event l eid now ob = Some raw"
    "decode_doc l observation_names (store_observation l) raw \<lparr>o_position = zero_position, o_event_id = []\<rparr> =
      Some \<lparr>o_position = position_of now ob, o_event_id = eid\<rparr>" by blast
  have "ValidateClock (position_of now ob) later = None"
    using assms(3) by (simp add: ValidateClock_def position_of_def)
  moreover from assms(2,4-6) obtain env where "Build l src (position_of now ob) eid later = Inr env" "event_id env = eid"
    by (auto simp: Build_def)
  ultimately show ?thesis using raw assms(2,4,5) by (simp add: Accept_def)
qed

section \<open>The generator drops nothing\<close>

definition gen_ok :: "int \<Rightarrow> sim_obs list \<Rightarrow> gen \<Rightarrow> bool" where
  "gen_ok cap taken g \<longleftrightarrow> (\<exists>rest. concat (ge_out g) @ ge_batch g @ rest = taken) \<and>
     (\<forall>b \<in> set (ge_out g). b \<noteq> [] \<and> int (length b) \<le> max 1 cap) \<and> int (length (ge_batch g)) \<le> max 1 cap"

definition gen_all :: "int \<Rightarrow> sim_obs list \<Rightarrow> gen \<Rightarrow> bool" where
  "gen_all cap taken g \<longleftrightarrow> concat (ge_out g) @ ge_batch g = taken \<and> ge_offered g = length taken \<and>
     (\<forall>b \<in> set (ge_out g). b \<noteq> [] \<and> int (length b) \<le> max 1 cap) \<and> int (length (ge_batch g)) < max 1 cap"

lemma flush_ok:
  "flush_batch sends g = (b, g') \<Longrightarrow> gen_ok cap taken g \<Longrightarrow> gen_ok cap taken g'"
  by (auto simp: flush_batch_def gen_ok_def split: if_splits)

lemma gen_all_ok: "gen_all cap taken g \<Longrightarrow> gen_ok cap (taken @ rest) g"
  by (auto simp: gen_all_def gen_ok_def)

lemma offer_ok:
  "gen_all cap taken g \<Longrightarrow> offer cap sends obs g = (b, g') \<Longrightarrow>
   (b \<longrightarrow> gen_all cap (taken @ obs) g') \<and> gen_ok cap (taken @ obs) g'"
proof (induction obs arbitrary: g taken)
  case Nil
  then show ?case using gen_all_ok [of cap taken g "[]"] by simp
next
  case (Cons ob obs)
  let ?g1 = "g\<lparr>ge_batch := ge_batch g @ [ob], ge_offered := Suc (ge_offered g)\<rparr>"
  have full: "int (length (ge_batch ?g1)) \<le> max 1 cap"
    using Cons.prems(1) by (simp add: gen_all_def)
  have ok1: "gen_ok cap (taken @ ob # obs) ?g1"
    using Cons.prems(1) full by (auto simp: gen_all_def gen_ok_def)
  show ?case
  proof (cases "int (length (ge_batch ?g1)) \<ge> cap")
    case True
    obtain b2 g2 where fl: "flush_batch sends ?g1 = (b2, g2)" by (metis surj_pair)
    show ?thesis
    proof (cases b2)
      case sent: True
      then have "gen_all cap (taken @ [ob]) g2"
        using fl Cons.prems(1) full by (auto simp: flush_batch_def gen_all_def split: if_splits)
      from Cons.IH [OF this] Cons.prems(2) True fl sent show ?thesis by simp
    next
      case False
      with Cons.prems(2) True fl flush_ok [OF fl ok1] show ?thesis by simp
    qed
  next
    case False
    then have "gen_all cap (taken @ [ob]) ?g1"
      using Cons.prems(1) by (simp add: gen_all_def)
    from Cons.IH [OF this] Cons.prems(2) False show ?thesis by simp
  qed
qed

lemma generate_ok:
  "gen_all cap taken g \<Longrightarrow> generate F dt cap sends its f g = Some (obs, g') \<Longrightarrow> gen_ok cap (taken @ obs) g'"
proof (induction its arbitrary: taken f g obs)
  case Nil
  then show ?case using gen_all_ok [of cap taken g "[]"] by simp
next
  case (Cons it its)
  obtain ended waiting where it: "it = (ended, waiting)" by (metis surj_pair)
  note ok = gen_all_ok [OF Cons.prems(1)]
  show ?case
  proof (cases ended)
    case True
    with Cons.prems(2) it flush_ok [OF prod.collapse [symmetric] ok [of "[]"]] show ?thesis by auto
  next
    case False
    with Cons.prems(2) it obtain o1 f1 where st: "Step F dt f = Some (o1, f1)" by (auto split: option.splits)
    obtain b g1 where of1: "offer cap sends o1 g = (b, g1)" by (metis surj_pair)
    note o1 = offer_ok [OF Cons.prems(1) of1]
    let ?g2 = "g1\<lparr>ge_stored := ge_offered g1\<rparr>"
    show ?thesis
    proof (cases "\<not> b \<or> waiting")
      case True
      have "gen_ok cap (taken @ o1) ?g2" using o1 by (simp add: gen_ok_def)
      from True Cons.prems(2) it False st of1 o1 flush_ok [OF prod.collapse [symmetric] this] show ?thesis
        by (auto simp: Let_def split: bool.splits)
    next
      case go: False
      with o1 have "gen_all cap (taken @ o1) ?g2" by (simp add: gen_all_def)
      from Cons.IH [OF this] go Cons.prems(2) it False st of1 show ?thesis
        by (auto simp: Let_def)
    qed
  qed
qed

lemma flush_sent: "\<forall>k. sends k \<Longrightarrow> flush_batch sends g = (b, g') \<Longrightarrow>
    b \<and> concat (ge_out g') = concat (ge_out g) @ ge_batch g \<and> ge_batch g' = []"
  by (auto simp: flush_batch_def split: if_splits)

lemma offer_sent: "\<forall>k. sends k \<Longrightarrow> fst (offer cap sends obs g)"
proof (induction obs arbitrary: g)
  case (Cons ob obs)
  then show ?case by (auto simp: Let_def flush_batch_def)
qed simp

lemma generate_sent:
  assumes "\<forall>k. sends k"
  shows "gen_all cap taken g \<Longrightarrow> generate F dt cap sends its f g = Some (obs, g') \<Longrightarrow>
    concat (ge_out g') @ ge_batch g' = taken @ obs \<and> ((\<exists>it \<in> set its. fst it \<or> snd it) \<longrightarrow> ge_batch g' = [])"
proof (induction its arbitrary: taken f g obs)
  case Nil
  then show ?case by (simp add: gen_all_def)
next
  case (Cons it its)
  obtain ended waiting where it: "it = (ended, waiting)" by (metis surj_pair)
  show ?case
  proof (cases ended)
    case True
    with Cons.prems it flush_sent [OF assms prod.collapse [symmetric], of g] show ?thesis
      by (auto simp: gen_all_def)
  next
    case False
    with Cons.prems(2) it obtain o1 f1 where st: "Step F dt f = Some (o1, f1)" by (auto split: option.splits)
    obtain b g1 where of1: "offer cap sends o1 g = (b, g1)" by (metis surj_pair)
    then have b: b using offer_sent [OF assms, of cap o1 g] by simp
    let ?g2 = "g1\<lparr>ge_stored := ge_offered g1\<rparr>"
    have all: "gen_all cap (taken @ o1) ?g2" using offer_ok [OF Cons.prems(1) of1] b by (simp add: gen_all_def)
    show ?thesis
    proof (cases waiting)
      case True
      with Cons.prems(2) it False st of1 b flush_sent [OF assms prod.collapse [symmetric], of ?g2] all show ?thesis
        by (auto simp: gen_all_def Let_def)
    next
      case go: False
      with Cons.prems(2) it False st of1 b obtain more where
        "generate F dt cap sends its f1 ?g2 = Some (more, g')" "obs = o1 @ more" by (auto simp: Let_def)
      with Cons.IH [OF all this(1)] it False go show ?thesis by simp
    qed
  qed
qed

text \<open>
  The generator drops and reorders nothing of its own accord. Whatever the fleet, the rate and the
  moment the run ends, the batches it handed over, the batch it was filling and a remainder are exactly
  what the fleet produced, in order; every batch handed over is non-empty and, like the one being
  filled, no longer than the configured size. There is a remainder only if a send was given up because
  the run ended, and a run whose sends all went through has handed over everything when it stops.
\<close>

lemma generator_drops_nothing:
  assumes "generate F dt cap sends its f gen_start = Some (obs, g)"
  shows "(\<exists>rest. concat (ge_out g) @ ge_batch g @ rest = obs) \<and>
    (\<forall>b \<in> set (ge_out g). b \<noteq> [] \<and> int (length b) \<le> max 1 cap) \<and> int (length (ge_batch g)) \<le> max 1 cap \<and>
    ((\<forall>k. sends k) \<longrightarrow> concat (ge_out g) @ ge_batch g = obs \<and>
       ((\<exists>it \<in> set its. fst it \<or> snd it) \<longrightarrow> concat (ge_out g) = obs))"
proof -
  have start: "gen_all cap [] gen_start" by (simp add: gen_all_def gen_start_def)
  have "gen_ok cap obs g" using generate_ok [OF start assms] by simp
  moreover have "concat (ge_out g) @ ge_batch g = obs \<and>
      ((\<exists>it \<in> set its. fst it \<or> snd it) \<longrightarrow> concat (ge_out g) = obs)" if "\<forall>k. sends k"
    using generate_sent [OF that start assms] by auto
  ultimately show ?thesis by (simp add: gen_ok_def)
qed

text \<open>A fleet of one that stands still, stopped while it waits after its third report.\<close>

definition still_ops :: "float64 fops" where
  "still_ops = \<lparr>fo_add = (\<lambda>x y. x), fo_sub = (\<lambda>x y. x), fo_mul = (\<lambda>x y. x), fo_div = (\<lambda>x y. x), fo_mod = (\<lambda>x y. x),
     fo_min = (\<lambda>x y. x), fo_lt = (\<lambda>x y. False), fo_le = (\<lambda>x y. False), fo_eq = (=), fo_sin = (\<lambda>x. x), fo_cos = (\<lambda>x. x),
     fo_asin = (\<lambda>x. x), fo_sqrt = (\<lambda>x. x), fo_atan2 = (\<lambda>y x. x), fo_round = (\<lambda>x. x),
     fo_pi = Finite 3, fo_of = Finite\<rparr>"

definition still_route :: "float64 route" where
  "still_route = \<lparr>ro_id = ''a'', ro_points = [\<lparr>pt_lat = Finite 12, pt_lon = Finite 77\<rparr>, \<lparr>pt_lat = Finite 13, pt_lon = Finite 78\<rparr>],
     ro_cumulative = [Finite 0, Finite 5], ro_segments = [Finite 5], ro_length = Finite 5\<rparr>"

definition still_fleet :: "float64 fleet" where
  "still_fleet = \<lparr>fl_routes = [still_route], fl_vehicles = [\<lparr>ve_id = ''veh-0001'', ve_route = still_route, ve_offset = Finite 0,
     ve_base = Finite 30, ve_phase = Finite 0, ve_sequence = 0, ve_elapsed = Finite 0\<rparr>], fl_elapsed = Finite 0\<rparr>"

lemma still_fleet_ok: "fleet_ok still_fleet"
  by (simp add: fleet_ok_def still_fleet_def still_route_def route_ok_def)

lemma generate_total:
  "fleet_ok f \<Longrightarrow> \<exists>obs g'. generate F dt cap sends its f g = Some (obs, g')"
proof (induction its arbitrary: f g)
  case (Cons it its)
  obtain ended waiting where it: "it = (ended, waiting)" by (metis surj_pair)
  from Step_total [OF Cons.prems, of F dt] obtain obs f1 where st: "Step F dt f = Some (obs, f1)" "fleet_ok f1" by blast
  obtain b g1 where of1: "offer cap sends obs g = (b, g1)" by (metis surj_pair)
  from Cons.IH [OF st(2), of "g1\<lparr>ge_stored := ge_offered g1\<rparr>"] it st(1) of1 show ?case
    by (cases b) (auto simp: Let_def)
qed simp

text \<open>And each post is counted once: it failed, it was abandoned at the end, or it was answered.\<close>

lemma post_accounted:
  assumes "post l ids clock built answer batch c = (sent, c')"
  shows "pc_failed c \<le> pc_failed c' \<and> pc_failed c' \<le> pc_failed c + 1 \<and>
    pc_batches c' = pc_batches c + (if sent = None then 0 else 1) \<and>
    (sent = None \<longrightarrow> pc_failed c' = pc_failed c + 1)"
  using assms
  by (auto simp: post_def Let_def split: option.splits http_answer.splits if_splits)

end
