(* ===== verification/Fleet.thy ===== *)
theory Fleet
  imports Simulator
begin

text \<open>
  What the deterministic fleet of \<open>internal/simulator/simulator.go\<close> guarantees to what consumes it:
  a geometry that parses gives a fleet, no step of it panics, and the reports of each vehicle are
  numbered from one without a gap.
\<close>

section \<open>Names\<close>

lemma read_digits_zeros: "read_digits 0 (replicate k (CHR ''0'') @ s) = read_digits 0 s"
  by (induction k) (simp_all add: is_digit_def code_of_def)

lemma vehicle_name_number: "parse_nat (drop 4 (vehicle_name n)) = Some n"
  using parse_nat_dec_nat [of n] by (simp add: vehicle_name_def parse_nat_def read_digits_zeros)

lemma vehicle_name_inj: "inj vehicle_name"
  by (rule injI) (metis option.inject vehicle_name_number)

section \<open>Runs of the fleet\<close>

fun fleet_run :: "'f fops \<Rightarrow> 'f list \<Rightarrow> 'f fleet \<Rightarrow> ('f sim_observation list list \<times> 'f fleet) option" where
  "fleet_run F [] f = Some ([], f)"
| "fleet_run F (dt # dts) f =
     (case Step F dt f of
        None \<Rightarrow> None
      | Some (obs, f1) \<Rightarrow> map_option (\<lambda>(obss, f2). (obs # obss, f2)) (fleet_run F dts f1))"

lemma fleet_run_total:
  assumes "fleet_ok f" and "map ve_sequence (fl_vehicles f) = replicate n w"
  shows "\<exists>obss f'. fleet_run F dts f = Some (obss, f') \<and> length obss = length dts \<and>
    (\<forall>k < length dts. map so_vehicle (obss ! k) = map ve_id (fl_vehicles f) \<and>
       map so_sequence (obss ! k) = replicate n (w + of_nat (k + 1)) \<and>
       map so_route (obss ! k) = map (\<lambda>v. ro_id (ve_route v)) (fl_vehicles f))"
  using assms
proof (induction dts arbitrary: f w)
  case (Cons dt dts)
  have next_seq: "map (\<lambda>v. ve_sequence v + 1) (fl_vehicles f) = replicate n (w + 1)"
    using arg_cong [OF Cons.prems(2), of "map (\<lambda>x. x + 1)"] by (simp add: comp_def)
  from Step_total [OF Cons.prems(1), of F dt] obtain obs f1 where
    st: "Step F dt f = Some (obs, f1)" "fleet_ok f1" "map ve_id (fl_vehicles f1) = map ve_id (fl_vehicles f)"
    "map ve_route (fl_vehicles f1) = map ve_route (fl_vehicles f)"
    "map ve_sequence (fl_vehicles f1) = replicate n (w + 1)" "map so_vehicle obs = map ve_id (fl_vehicles f)"
    "map so_sequence obs = replicate n (w + 1)" "map so_route obs = map (\<lambda>v. ro_id (ve_route v)) (fl_vehicles f)"
    unfolding next_seq by blast
  have routes: "map (\<lambda>v. ro_id (ve_route v)) (fl_vehicles f1) = map (\<lambda>v. ro_id (ve_route v)) (fl_vehicles f)"
    using arg_cong [OF st(4), of "map ro_id"] by (simp add: comp_def)
  from Cons.IH [OF st(2,5)] obtain obss f' where
    run: "fleet_run F dts f1 = Some (obss, f')" "length obss = length dts"
    "\<forall>k < length dts. map so_vehicle (obss ! k) = map ve_id (fl_vehicles f1) \<and>
       map so_sequence (obss ! k) = replicate n (w + 1 + of_nat (k + 1)) \<and>
       map so_route (obss ! k) = map (\<lambda>v. ro_id (ve_route v)) (fl_vehicles f1)" by blast
  have "map so_vehicle ((obs # obss) ! k) = map ve_id (fl_vehicles f) \<and>
       map so_sequence ((obs # obss) ! k) = replicate n (w + of_nat (k + 1)) \<and>
       map so_route ((obs # obss) ! k) = map (\<lambda>v. ro_id (ve_route v)) (fl_vehicles f)"
    if "k < length (dt # dts)" for k
    using that run(3) st(3,6-8) routes by (cases k) (simp_all add: ac_simps)
  with st(1) run(1,2) show ?case by simp
qed simp

lemma ParseGeometry_routes:
  assumes "ParseGeometry F doc = Inr routes"
  shows "routes \<noteq> []" and "list_all route_ok routes" and "map ro_id routes = map fst doc"
    and "distinct (map fst doc)" and "[] \<notin> set (map fst doc)"
  using assms check_routes_ok [of F "{}" 0 doc routes]
  by (auto simp: ParseGeometry_def split: if_splits)

section \<open>Properties\<close>

text \<open>
  C34. A geometry that parses drives a fleet of any size for any number of steps of any length: it is
  built, no step indexes out of a route, every step reports each vehicle exactly once and in the order
  of the fleet under a name of its own, the \<open>k\<close>-th report of every vehicle carries the sequence number
  \<open>k\<close> (modulo 2^64) and a route of the document. A larger fleet from the same seed starts with the
  smaller one.
\<close>

theorem fleet_reports:
  assumes "ParseGeometry F doc = Inr routes" and "rng_law R" and "1 \<le> n"
  shows "\<exists>f. NewFleet F R routes seed n = Some (Inr f) \<and>
    (\<forall>dts. \<exists>obss f'. fleet_run F dts f = Some (obss, f') \<and> length obss = length dts \<and>
       (\<forall>k < length dts. map so_vehicle (obss ! k) = map vehicle_name [1..<nat n + 1] \<and>
          distinct (map so_vehicle (obss ! k)) \<and> map so_sequence (obss ! k) = replicate (nat n) (of_nat (k + 1)) \<and>
          so_route ` set (obss ! k) \<subseteq> fst ` set doc)) \<and>
    (\<forall>m g. 0 \<le> m \<and> NewFleet F R routes seed (n + m) = Some (Inr g) \<longrightarrow> take (nat n) (fl_vehicles g) = fl_vehicles f)"
proof -
  note geo = ParseGeometry_routes [OF assms(1)]
  from place_loop_Some [OF assms(2) geo(1), of F 0 "nat n" "rn_new R seed"] obtain vs where
    vs: "place_loop F R routes 0 (nat n) (rn_new R seed) = Some vs"
    "map ve_id vs = map (\<lambda>k. vehicle_name (k + 1)) [0..<nat n]"
    "\<forall>v \<in> set vs. ve_route v \<in> set routes \<and> ve_sequence v = 0" by auto
  let ?f = "\<lparr>fl_routes = routes, fl_vehicles = vs, fl_elapsed = fo_of F 0\<rparr>"
  have new: "NewFleet F R routes seed n = Some (Inr ?f)"
    using vs(1) geo(1) assms(3) by (simp add: NewFleet_def)
  have ok: "fleet_ok ?f" using vs(3) geo(2) by (auto simp: fleet_ok_def list_all_iff)
  have names: "map ve_id vs = map vehicle_name [1..<nat n + 1]"
    unfolding vs(2) by (simp add: map_Suc_upt [symmetric] comp_def del: map_Suc_upt upt_Suc)
  have "length vs = nat n" using arg_cong [OF vs(2), of length] by simp
  then have seqs: "map ve_sequence (fl_vehicles ?f) = replicate (nat n) 0"
    using vs(3) by (intro replicate_eqI) auto
  have ids: "ro_id ` ve_route ` set vs \<subseteq> fst ` set doc"
    using vs(3) arg_cong [OF geo(3), of set] by auto
  have dist: "distinct (map vehicle_name [1..<nat n + 1])"
    using vehicle_name_inj by (simp add: distinct_map inj_on_def inj_def del: upt_Suc)
  have "\<exists>obss f'. fleet_run F dts ?f = Some (obss, f') \<and> length obss = length dts \<and>
       (\<forall>k < length dts. map so_vehicle (obss ! k) = map vehicle_name [1..<nat n + 1] \<and>
          distinct (map so_vehicle (obss ! k)) \<and> map so_sequence (obss ! k) = replicate (nat n) (of_nat (k + 1)) \<and>
          so_route ` set (obss ! k) \<subseteq> fst ` set doc)" for dts
  proof -
    from fleet_run_total [OF ok seqs, of F dts] obtain obss f' where
      run: "fleet_run F dts ?f = Some (obss, f')" "length obss = length dts"
      "\<forall>k < length dts. map so_vehicle (obss ! k) = map ve_id vs \<and>
         map so_sequence (obss ! k) = replicate (nat n) (0 + of_nat (k + 1)) \<and>
         map so_route (obss ! k) = map (\<lambda>v. ro_id (ve_route v)) vs" by auto
    have "so_route ` set (obss ! k) \<subseteq> fst ` set doc" if "k < length dts" for k
    proof -
      have "so_route ` set (obss ! k) = (\<lambda>v. ro_id (ve_route v)) ` set vs"
        using run(3) that by (metis set_map)
      then show ?thesis using ids by (simp add: image_image)
    qed
    with run names dist show ?thesis by (intro exI [of _ obss] exI [of _ f']) (simp del: upt_Suc)
  qed
  moreover have "take (nat n) (fl_vehicles g) = vs"
    if "0 \<le> m" and "NewFleet F R routes seed (n + m) = Some (Inr g)" for m g
  proof -
    from that(2) geo(1) assms(3) that(1) have
      "place_loop F R routes 0 (nat n + nat m) (rn_new R seed) = Some (fl_vehicles g)"
      by (auto simp: NewFleet_def nat_add_distrib)
    from place_loop_prefix [OF this] vs(1) show ?thesis by simp
  qed
  ultimately show ?thesis using new by auto
qed

text \<open>Two routes of two points, over rational numbers with a constant distance, and a source that counts its draws.\<close>

definition rat_ops :: "rat fops" where
  "rat_ops = \<lparr>fo_add = (+), fo_sub = (-), fo_mul = (*), fo_div = (/), fo_mod = (\<lambda>x y. x - y * of_int \<lfloor>x / y\<rfloor>),
     fo_min = min, fo_lt = (<), fo_le = (\<le>), fo_eq = (=), fo_sin = (\<lambda>x. x), fo_cos = (\<lambda>x. 1),
     fo_asin = (\<lambda>x. 1), fo_sqrt = (\<lambda>x. x), fo_atan2 = (\<lambda>y x. 0), fo_round = (\<lambda>x. of_int \<lfloor>x\<rfloor>),
     fo_pi = 3, fo_of = (\<lambda>q. q)\<rparr>"

definition turn_rng :: "(rat, nat) rng" where
  "turn_rng = \<lparr>rn_new = (\<lambda>seed. 0), rn_int63n = (\<lambda>n r. (int r mod n, Suc r)), rn_float64 = (\<lambda>r. (0, r))\<rparr>"

definition two_routes :: "(string \<times> rat point list) list" where
  "two_routes = [(''a'', [\<lparr>pt_lat = 0, pt_lon = 0\<rparr>, \<lparr>pt_lat = 1, pt_lon = 1\<rparr>]),
     (''b'', [\<lparr>pt_lat = 2, pt_lon = 2\<rparr>, \<lparr>pt_lat = 3, pt_lon = 3\<rparr>])]"

lemma turn_rng_law: "rng_law turn_rng"
  by (simp add: rng_law_def turn_rng_def)

lemma two_routes_parse: "\<exists>r1 r2. ParseGeometry rat_ops two_routes = Inr [r1, r2] \<and> ro_id r1 = ''a''"
  by (simp add: ParseGeometry_def two_routes_def prepare_def Let_def rat_ops_def Haversine_def)

theorem fleet_reports_witness:
  "\<exists>routes f obss f'. ParseGeometry rat_ops two_routes = Inr routes \<and>
     NewFleet rat_ops turn_rng routes 7 4 = Some (Inr f) \<and> fleet_run rat_ops [1, 1] f = Some (obss, f') \<and>
     map so_sequence (obss ! 1) = [2, 2, 2, 2]"
proof -
  obtain routes where r: "ParseGeometry rat_ops two_routes = Inr routes" using two_routes_parse by blast
  from fleet_reports [OF r turn_rng_law, of 4 7] obtain f where
    f: "NewFleet rat_ops turn_rng routes 7 4 = Some (Inr f)"
    "\<exists>obss f'. fleet_run rat_ops [1, 1] f = Some (obss, f') \<and>
       (\<forall>k < 2. map so_sequence (obss ! k) = replicate (nat 4) (of_nat (k + 1)))"
    by (fastforce simp: numeral_2_eq_2)
  then obtain obss f' where o: "fleet_run rat_ops [1, 1] f = Some (obss, f')"
    "map so_sequence (obss ! 1) = replicate (nat 4) (of_nat (1 + 1))" by (metis one_less_numeral_iff semiring_norm(76))
  have "replicate (nat 4) (of_nat (1 + 1) :: 64 word) = [2, 2, 2, 2]" by (simp add: numeral_eq_Suc)
  with r f(1) o show ?thesis by auto
qed

section \<open>Placement is not round-robin\<close>

text \<open>
  The comments call the placement a round-robin with an offset, so that vehicles do not cluster on one
  route. The offset is drawn anew for every vehicle, so every vehicle can land on the first route.
\<close>

lemma all_on_one_route:
  assumes "length routes = 2"
  shows "\<exists>f. NewFleet rat_ops turn_rng routes seed 4 = Some (Inr f) \<and> map ve_route (fl_vehicles f) = replicate 4 (routes ! 0)"
  using assms
  by (auto simp: NewFleet_def place_def turn_rng_def nth_opt_def go_rem_def Let_def numeral_eq_Suc)

end
