(* ===== verification/Geometry.thy ===== *)
theory Geometry
  imports Fleet Wire
begin

text \<open>
  Reading the geometry document, \<open>ParseGeometry\<close>, \<open>LoadDefault\<close> and \<open>Point.UnmarshalJSON\<close> of
  \<open>internal/simulator/simulator.go\<close>. A member that occurs twice replaces what the first one stored.
\<close>

section \<open>Points\<close>

definition zero_point :: "float64 point" where
  "zero_point = \<lparr>pt_lat = Finite 0, pt_lon = Finite 0\<rparr>"

definition point_names :: "string list" where
  "point_names = [''lat'', ''lon'']"

definition store_point :: "lib \<Rightarrow> string \<Rightarrow> bytes \<Rightarrow> float64 point \<Rightarrow> float64 point option" where
  "store_point l f raw p =
     (if f = ''lat'' then map_option (\<lambda>x. p\<lparr>pt_lat := x\<rparr>) (read_float l raw (pt_lat p))
      else map_option (\<lambda>x. p\<lparr>pt_lon := x\<rparr>) (read_float l raw (pt_lon p)))"

definition read_pair :: "lib \<Rightarrow> bytes \<Rightarrow> float64 list option" where
  "read_pair l raw =
     (case json_scan l raw of
        Value (JArr xs) \<Rightarrow> those (map (\<lambda>x. read_float l x (Finite 0)) xs)
      | _ \<Rightarrow> None)"

definition unmarshal_point :: "lib \<Rightarrow> bytes \<Rightarrow> float64 point option" where
  "unmarshal_point l raw =
     (if take 1 (trim_space raw) = ''['' then
        (case read_pair l raw of
           Some [a, b] \<Rightarrow> Some \<lparr>pt_lat = a, pt_lon = b\<rparr>
         | _ \<Rightarrow> None)
      else unmarshal l point_names (store_point l) raw zero_point)"

section \<open>The document\<close>

text \<open>The name of a route is read and not used.\<close>

record route_doc =
  rd_id :: string
  rd_name :: string
  rd_points :: "float64 point list"

definition zero_route :: route_doc where
  "zero_route = \<lparr>rd_id = [], rd_name = [], rd_points = []\<rparr>"

definition route_names :: "string list" where
  "route_names = [''id'', ''name'', ''points'']"

definition read_points :: "lib \<Rightarrow> bytes \<Rightarrow> float64 point list option" where
  "read_points l raw =
     (case json_scan l raw of
        Value (JArr xs) \<Rightarrow> those (map (unmarshal_point l) xs)
      | Value JNull \<Rightarrow> Some []
      | _ \<Rightarrow> None)"

definition store_route :: "lib \<Rightarrow> string \<Rightarrow> bytes \<Rightarrow> route_doc \<Rightarrow> route_doc option" where
  "store_route l f raw r =
     (if f = ''id'' then map_option (\<lambda>x. r\<lparr>rd_id := x\<rparr>) (read_str l raw (rd_id r))
      else if f = ''name'' then map_option (\<lambda>x. r\<lparr>rd_name := x\<rparr>) (read_str l raw (rd_name r))
      else map_option (\<lambda>x. r\<lparr>rd_points := x\<rparr>) (read_points l raw))"

definition geometry_names :: "string list" where
  "geometry_names = [''note'', ''routes'']"

definition store_geometry :: "lib \<Rightarrow> string \<Rightarrow> bytes \<Rightarrow> route_doc list \<Rightarrow> route_doc list option" where
  "store_geometry l f raw rs =
     (case json_scan l raw of
        Value JNull \<Rightarrow> Some (if f = ''note'' then rs else [])
      | Value (JArr xs) \<Rightarrow>
          if f = ''note'' then (if list_all (\<lambda>x. read_str l x [] \<noteq> None) xs then Some rs else None)
          else those (map (\<lambda>x. decode_doc l route_names (store_route l) x zero_route) xs)
      | _ \<Rightarrow> None)"

datatype geometry_error = NotAGeometry | GeometryRefused sim_error

definition parse_geometry :: "lib \<Rightarrow> float64 fops \<Rightarrow> bytes \<Rightarrow> geometry_error + float64 route list" where
  "parse_geometry l F raw =
     (case decode_doc l geometry_names (store_geometry l) raw [] of
        None \<Rightarrow> Inl NotAGeometry
      | Some doc \<Rightarrow>
          (case ParseGeometry F (map (\<lambda>r. (rd_id r, rd_points r)) doc) of
             Inl e \<Rightarrow> Inl (GeometryRefused e)
           | Inr routes \<Rightarrow> Inr routes))"

text \<open>The committed document is part of the binary, so that reading it cannot fail.\<close>

definition LoadDefault :: "lib \<Rightarrow> float64 fops \<Rightarrow> bytes \<Rightarrow> geometry_error + float64 route list" where
  "LoadDefault l F committed = parse_geometry l F committed"

section \<open>Unknown members\<close>

text \<open>
  An unknown member of the document or of a route refuses it, as the comment wants. One of a point does
  not: the method of the point reads it with \<open>json.Unmarshal\<close>, so a misspelt coordinate is zero.
\<close>

lemma unknown_geometry_member:
  assumes "json_scan l raw = Value (JObj ms)" "(k, x) \<in> set ms" "field_of geometry_names k = None"
  shows "parse_geometry l F raw = Inl NotAGeometry"
  using assms by (simp add: parse_geometry_def decode_doc_def decode_struct_def decode_members_unknown)

lemma unknown_route_member:
  assumes "json_scan l raw = Value (JObj ms)" "(k, x) \<in> set ms" "field_of route_names k = None"
  shows "decode_doc l route_names (store_route l) raw zero_route = None"
  using assms by (simp add: decode_doc_def decode_struct_def decode_members_unknown)

lemma misspelt_coordinate_is_zero:
  assumes "json_scan l raw = Value (JObj [(''lat'', x), (''lng'', y)])" "json_valid l raw" "take 1 (trim_space raw) \<noteq> ''[''"
    and "read_float l x (Finite 0) = Some a"
  shows "unmarshal_point l raw = Some \<lparr>pt_lat = a, pt_lon = Finite 0\<rparr>"
proof -
  have "field_of point_names ''lng'' = None"
    by (simp add: field_of_def point_names_def fold_name_ascii ascii_lower_def code_of_def)
  then show ?thesis
    using assms by (simp add: unmarshal_point_def unmarshal_def point_names_def field_of_def store_point_def zero_point_def)
qed

end
