(* ===== verification/Commands.thy ===== *)
theory Commands
  imports Config_Props DeadLetters Httpserver Producer Geometry
begin

text \<open>
  The long-running processes: \<open>run\<close> of \<open>cmd/consumer/main.go\<close>, \<open>cmd/gateway/main.go\<close> and
  \<open>cmd/ingest/main.go\<close> from the configuration to the exit code, the start of
  \<open>cmd/simulate/main.go\<close>, \<open>db.Open\<close> of \<open>internal/platform/db/db.go\<close>, and the lag check and the
  names of the consumer.

  A command is a function on the trace of what it acquired and did; what the dependencies answer is
  the record \<open>cmd_env\<close>, and which case of the final \<open>select\<close> is taken is an argument. A deferred
  \<open>Close\<close> runs when the command returns, in the reverse order. Addresses and timeouts of the servers
  are handed to the library unchanged and left out, as are log lines.
\<close>

section \<open>Opening the database\<close>

record db_env =
  de_parsed :: bool
  de_created :: bool
  de_pinged :: bool

datatype db_error = BadConnectionString | CreatePoolFailed | DbPingFailed

text \<open>\<open>None\<close> is the connect timeout of the parsed address.\<close>

record pool_cfg =
  pl_max :: int
  pl_min :: int
  pl_lifetime :: duration
  pl_connect :: "duration option"

text \<open>A context whose time is over before it starts fails the ping.\<close>

definition Open :: "postgres_cfg \<Rightarrow> db_env \<Rightarrow> db_error + pool_cfg" where
  "Open opts e =
     (if \<not> de_parsed e then Inl BadConnectionString
      else
        let pc = \<lparr>pl_max = cp_max_conns opts, pl_min = cp_min_conns opts, pl_lifetime = cp_lifetime opts,
                  pl_connect = (if cp_connect opts > 0 then Some (cp_connect opts) else None)\<rparr> in
        if \<not> de_created e then Inl CreatePoolFailed
        else if cp_connect opts \<le> 0 \<or> \<not> de_pinged e then Inl DbPingFailed
        else Inr pc)"

section \<open>Commands as steps\<close>

datatype resource = Pool | RedisClient | BrokerClient | GroupClient

datatype act =
    Opened resource | Closed resource | Listening | Subscribed | Serving
  | StreamsClosed | LoopAwaited bool | ServerStopped

datatype cmd_error =
    ConfigFailed "cfg_error list" | DbFailed db_error | RedisUrl string | RedisPingFailed
  | StoreFailed sink_error | ProducerFailed broker_error | DLQFailed dl_error | BusFailed fan_error
  | GroupFailed | ConsumerFailed consumer_error | IngestFailed ing_error | GatewayFailed gw_error
  | ServerFailed server_error | ShutdownFailed string | ServeError string | LoopError string
  | LoopStoppedUnexpectedly | ServerStoppedUnexpectedly

record proc =
  pr_acts :: "act list"
  pr_defers :: "resource list"

type_synonym step = "proc \<Rightarrow> cmd_error option \<times> proc"

definition fail_with :: "cmd_error \<Rightarrow> step" where
  "fail_with e s = (Some e, s)"

definition doing :: "act \<Rightarrow> step \<Rightarrow> step" where
  "doing a k s = k (s\<lparr>pr_acts := pr_acts s @ [a]\<rparr>)"

definition acquire :: "resource \<Rightarrow> step \<Rightarrow> step" where
  "acquire r k s = k (s\<lparr>pr_acts := pr_acts s @ [Opened r], pr_defers := r # pr_defers s\<rparr>)"

definition checked :: "('e \<Rightarrow> cmd_error) \<Rightarrow> 'e + 'a \<Rightarrow> ('a \<Rightarrow> step) \<Rightarrow> step" where
  "checked f x k = (case x of Inl e \<Rightarrow> fail_with (f e) | Inr v \<Rightarrow> k v)"

definition must :: "bool \<Rightarrow> cmd_error \<Rightarrow> step \<Rightarrow> step" where
  "must b e k = (if b then k else fail_with e)"

definition exiting :: "step \<Rightarrow> cmd_error option \<times> act list" where
  "exiting k =
     (case k \<lparr>pr_acts = [], pr_defers = []\<rparr> of (e, s) \<Rightarrow> (e, pr_acts s @ map Closed (pr_defers s)))"

section \<open>The environment of a command\<close>

record cmd_env =
  ce_db :: db_env
  ce_redis_addr :: "string option"
  ce_redis_pinged :: bool
  ce_created :: bool
  ce_pinged :: bool
  ce_group :: bool
  ce_host :: "string option"
  ce_pid :: nat
  ce_listened :: bool
  ce_frames :: "fan_error + unit"
  ce_drained :: "string option option"
  ce_shutdown :: "string option"
  ce_serve :: serve_result

definition consumerIdentity :: "string \<Rightarrow> string option \<Rightarrow> nat \<Rightarrow> string" where
  "consumerIdentity grp host pid =
     (let h = (case host of None \<Rightarrow> ''unknown-host'' | Some x \<Rightarrow> if x = [] then ''unknown-host'' else x)
      in grp @ ''/'' @ h @ ''/'' @ dec_nat pid)"

definition gatewayIdentity :: "string option \<Rightarrow> nat \<Rightarrow> string" where
  "gatewayIdentity host pid =
     ''gateway-'' @ (case host of None \<Rightarrow> ''unknown'' | Some x \<Rightarrow> x) @ ''-'' @ dec_nat pid"

definition redisAddr :: "string \<Rightarrow> string option \<Rightarrow> string" where
  "redisAddr raw parsed = (case parsed of None \<Rightarrow> raw | Some addr \<Rightarrow> addr)"

definition consumer_server :: "config \<Rightarrow> server_cfg" where
  "consumer_server c =
     \<lparr>sc_log = True,
      sc_checks = [\<lparr>ck_name = ''postgres'', ck_gauge = Some ''db_up''\<rparr>, \<lparr>ck_name = ''broker'', ck_gauge = Some ''broker_up''\<rparr>,
                   \<lparr>ck_name = ''consumer_group'', ck_gauge = None\<rparr>],
      sc_probe_interval = seconds 10, sc_probe_timeout = seconds 5, sc_metrics = True, sc_mounted = []\<rparr>"

definition gateway_server :: "config \<Rightarrow> server_cfg" where
  "gateway_server c =
     \<lparr>sc_log = True,
      sc_checks = [\<lparr>ck_name = ''postgres'', ck_gauge = Some ''db_up''\<rparr>, \<lparr>ck_name = ''redis'', ck_gauge = Some ''redis_up''\<rparr>],
      sc_probe_interval = seconds 10, sc_probe_timeout = seconds 5, sc_metrics = True,
      sc_mounted = [''/v1/stream'', ''/v1/vehicles/{vehicleID}'', ''/{$}'']\<rparr>"

definition ingest_server :: "config \<Rightarrow> server_cfg" where
  "ingest_server c =
     \<lparr>sc_log = True,
      sc_checks = [\<lparr>ck_name = ''postgres'', ck_gauge = Some ''db_up''\<rparr>, \<lparr>ck_name = ''redis'', ck_gauge = Some ''redis_up''\<rparr>,
                   \<lparr>ck_name = ''broker'', ck_gauge = Some ''broker_up''\<rparr>],
      sc_probe_interval = seconds 5, sc_probe_timeout = seconds 3, sc_metrics = True, sc_mounted = [''/v1/events'']\<rparr>"

section \<open>Stopping\<close>

text \<open>\<open>srv.Shutdown\<close>, then the result of the goroutine that served.\<close>

definition stop_server :: "cmd_env \<Rightarrow> step" where
  "stop_server env =
     doing ServerStopped
       (case ce_shutdown env of
          Some e \<Rightarrow> fail_with (ShutdownFailed e)
        | None \<Rightarrow>
            (case serve_error (ce_serve env) of
               Some e \<Rightarrow> fail_with (ServeError e)
             | None \<Rightarrow> (\<lambda>s. (None, s))))"

definition server_ended :: "serve_result \<Rightarrow> step" where
  "server_ended r =
     (case serve_error r of Some e \<Rightarrow> fail_with (ServeError e) | None \<Rightarrow> fail_with ServerStoppedUnexpectedly)"

text \<open>The case of the \<open>select\<close> that is taken: the signal, the end of the loop, or the end of the server.\<close>

datatype ready = Signalled | LoopEnded "string option" | ServeEnded serve_result

text \<open>
  The consumer waits for its loop for the shutdown window; \<open>ce_drained\<close> is what the loop returned within
  it, if it did. Either way the server is stopped next.
\<close>

definition consumer_select :: "cmd_env \<Rightarrow> ready \<Rightarrow> step" where
  "consumer_select env r =
     (case r of
        Signalled \<Rightarrow> doing (LoopAwaited (ce_drained env \<noteq> None)) (stop_server env)
      | LoopEnded e \<Rightarrow>
          (case e of Some x \<Rightarrow> fail_with (LoopError x) | None \<Rightarrow> fail_with LoopStoppedUnexpectedly)
      | ServeEnded x \<Rightarrow> server_ended x)"

text \<open>\<open>None\<close> is the signal.\<close>

definition gateway_select :: "cmd_env \<Rightarrow> serve_result option \<Rightarrow> step" where
  "gateway_select env r =
     (case r of None \<Rightarrow> doing StreamsClosed (stop_server env) | Some x \<Rightarrow> server_ended x)"

definition ingest_select :: "cmd_env \<Rightarrow> serve_result option \<Rightarrow> step" where
  "ingest_select env r = (case r of None \<Rightarrow> stop_server env | Some x \<Rightarrow> server_ended x)"

section \<open>The commands\<close>

definition opening_db :: "config \<Rightarrow> cmd_env \<Rightarrow> step \<Rightarrow> step" where
  "opening_db cfg env k = checked DbFailed (Open (cf_postgres cfg) (ce_db env)) (\<lambda>pc. acquire Pool k)"

text \<open>The client is closed on the way out even when its ping fails.\<close>

definition opening_redis :: "cmd_env \<Rightarrow> step \<Rightarrow> step" where
  "opening_redis env k = acquire RedisClient (must (ce_redis_pinged env) RedisPingFailed k)"

definition run_consumer :: "cmd_env \<Rightarrow> ready \<Rightarrow> cfg_error list + config \<Rightarrow> step" where
  "run_consumer env r loaded =
     checked ConfigFailed loaded (\<lambda>cfg.
     opening_db cfg env (
     checked StoreFailed (NewStore True (consumerIdentity (cc_group (cf_consumer cfg)) (ce_host env) (ce_pid env))) (\<lambda>st.
     checked ProducerFailed (NewProducer (cb_seeds (cf_broker cfg)) ''esp-consumer-dlq'' (ce_created env) (ce_pinged env)) (\<lambda>cid.
     acquire BrokerClient (
     checked DLQFailed (NewDLQSink True (Some st) (cb_dlq_topic (cf_broker cfg)) True) (\<lambda>dlq.
     must (ce_redis_addr env \<noteq> None) (RedisUrl (cr_url (cf_redis cfg))) (
     opening_redis env (
     checked BusFailed (NewPublisher True (cr_channel (cf_redis cfg))) (\<lambda>pub.
     must (ce_group env) GroupFailed (
     acquire GroupClient (
     checked ConsumerFailed (New True True True True (consumer_options cfg)) (\<lambda>worker.
     checked ServerFailed (NewServer (consumer_server cfg) (ce_listened env)) (\<lambda>srv.
     doing Listening (doing Serving (consumer_select env r)))))))))))))))"

definition run_gateway :: "cmd_env \<Rightarrow> serve_result option \<Rightarrow> cfg_error list + config \<Rightarrow> step" where
  "run_gateway env r loaded =
     checked ConfigFailed loaded (\<lambda>cfg.
     opening_db cfg env (
     must (ce_redis_addr env \<noteq> None) (RedisUrl (cr_url (cf_redis cfg))) (
     opening_redis env (
     checked StoreFailed (NewStore True (gatewayIdentity (ce_host env) (ce_pid env))) (\<lambda>st.
     checked BusFailed (NewSubscriber True (cr_channel (cf_redis cfg))) (\<lambda>src.
     checked GatewayFailed (NewGateway True True True (gateway_options cfg)) (\<lambda>gw.
     checked ServerFailed (NewServer (gateway_server cfg) (ce_listened env)) (\<lambda>srv.
     doing Listening (
     checked GatewayFailed (Start (ce_frames env) gw) (\<lambda>gw1.
     doing Subscribed (doing Serving (gateway_select env r))))))))))))"

definition run_ingest :: "cmd_env \<Rightarrow> serve_result option \<Rightarrow> cfg_error list + config \<Rightarrow> step" where
  "run_ingest env r loaded =
     checked ConfigFailed loaded (\<lambda>cfg.
     opening_db cfg env (
     opening_redis env (
     checked ProducerFailed (NewProducer (cb_seeds (cf_broker cfg)) ''esp-ingest'' (ce_created env) (ce_pinged env)) (\<lambda>cid.
     acquire BrokerClient (
     checked IngestFailed (NewHandler True True (ingest_options cfg)) (\<lambda>h.
     checked ServerFailed (NewServer (ingest_server cfg) (ce_listened env)) (\<lambda>srv.
     doing Listening (doing Serving (ingest_select env r)))))))))"

section \<open>The consumer's lag\<close>

record group_lag =
  gl_describe :: "string option"
  gl_fetch :: "string option"
  gl_lags :: "(int \<times> int) list"

datatype lag_error = LagClient broker_error | QueryLag string | DescribeGroup string string

fun set_lags :: "(int \<times> int) list \<Rightarrow> (int \<rightharpoonup> int) \<Rightarrow> (int \<rightharpoonup> int)" where
  "set_lags [] gs = gs"
| "set_lags ((p, lag) # ps) gs = (if lag < 0 then set_lags ps gs else set_lags ps (gs(p \<mapsto> lag)))"

text \<open>The check of the group: the gauges of the partitions are updated, and the error fails readiness.\<close>

definition reportLag ::
  "string list \<Rightarrow> string \<Rightarrow> bool \<Rightarrow> bool \<Rightarrow> string + (string \<rightharpoonup> group_lag) \<Rightarrow> (int \<rightharpoonup> int) \<Rightarrow>
     lag_error option \<times> (int \<rightharpoonup> int)" where
  "reportLag seeds grp created pinged reply gs =
     (case NewClient seeds ''esp-consumer-lagcheck'' created pinged of
        Inl e \<Rightarrow> (Some (LagClient e), gs)
      | Inr cid \<Rightarrow>
          (case reply of
             Inl e \<Rightarrow> (Some (QueryLag e), gs)
           | Inr lags \<Rightarrow>
               (case lags grp of
                  None \<Rightarrow> (None, gs)
                | Some d \<Rightarrow>
                    (case gl_describe d of
                       Some e \<Rightarrow> (Some (DescribeGroup grp e), gs)
                     | None \<Rightarrow>
                         if gl_fetch d \<noteq> None then (None, gs)
                         else (None, set_lags (gl_lags d) gs)))))"

text \<open>The topics in the order the map happens to be walked in.\<close>

definition partitionSummary :: "(string \<times> int list) list \<Rightarrow> string" where
  "partitionSummary m =
     (if length m = 0 then ''(none)''
      else concat (map (\<lambda>(topic, parts). topic @ '':['' @
             concat (map (\<lambda>(i, n). (if i = 0 then [] else '' '') @ dec_int n) (enumerate 0 parts)) @ ''] '') m))"

section \<open>The start of the simulator\<close>

text \<open>
  The flags override the loaded configuration: \<open>flags\<close> is the result of parsing them, none when it
  exits. The committed document is \<open>doc\<close>. A negative capacity of the channel panics.
\<close>

datatype sim_start =
    SimConfigFailed "cfg_error list" | FlagsRefused | GeometryFailed geometry_error | FleetFailed sim_error
  | SimPanics | Producing simulator_cfg "float64 fleet" nat nat

definition run_simulate ::
  "cfg_error list + config \<Rightarrow> (simulator_cfg \<Rightarrow> simulator_cfg option) \<Rightarrow> lib \<Rightarrow> float64 fops \<Rightarrow>
     (float64, 'r) rng \<Rightarrow> bytes \<Rightarrow> sim_start" where
  "run_simulate loaded flags l F R doc =
     (case loaded of
        Inl es \<Rightarrow> SimConfigFailed es
      | Inr cfg \<Rightarrow>
          (case flags (cf_simulator cfg) of
             None \<Rightarrow> FlagsRefused
           | Some sc \<Rightarrow>
               (case LoadDefault l F doc of
                  Inl e \<Rightarrow> GeometryFailed e
                | Inr routes \<Rightarrow>
                    (case NewFleet F R routes (cs_seed sc) (cs_vehicles sc) of
                       None \<Rightarrow> SimPanics
                     | Some (Inl e) \<Rightarrow> FleetFailed e
                     | Some (Inr fl) \<Rightarrow>
                         if wrap64 (cs_workers sc * 2) < 0 then SimPanics
                         else Producing sc fl (nat (cs_workers sc)) (nat (wrap64 (cs_workers sc * 2)))))))"

end
