(* ===== verification/Commands_Props.thy ===== *)
theory Commands_Props
  imports Commands
begin

text \<open>
  What the processes guarantee from start to exit: whatever fails, everything opened is closed in the
  reverse order; the exit is clean only after a signal; and a configuration that loads gives a process
  that serves as soon as its dependencies answer.
\<close>

section \<open>Everything opened is closed\<close>

definition opened :: "act list \<Rightarrow> resource list" where
  "opened acts = List.map_filter (\<lambda>a. case a of Opened r \<Rightarrow> Some r | _ \<Rightarrow> None) acts"

definition proc_ok :: "proc \<Rightarrow> bool" where
  "proc_ok s \<longleftrightarrow> (\<forall>r. Closed r \<notin> set (pr_acts s)) \<and> pr_defers s = rev (opened (pr_acts s))"

definition tidy :: "step \<Rightarrow> bool" where
  "tidy k \<longleftrightarrow> (\<forall>s. proc_ok s \<longrightarrow> proc_ok (snd (k s)))"

named_theorems tidy_intros \<open>steps that keep the deferred closes in line with what was opened\<close>

lemma opened_snoc:
  "opened (xs @ [a]) = opened xs @ (case a of Opened r \<Rightarrow> [r] | _ \<Rightarrow> [])"
  by (induction xs) (auto simp: opened_def List.map_filter_simps split: act.splits)

lemma tidy_fail [tidy_intros]: "tidy (fail_with e)"
  by (simp add: tidy_def fail_with_def)

lemma tidy_end [tidy_intros]: "tidy (\<lambda>s. (None, s))"
  by (simp add: tidy_def)

lemma tidy_acquire [tidy_intros]: "tidy k \<Longrightarrow> tidy (acquire r k)"
  by (auto simp: tidy_def acquire_def proc_ok_def opened_snoc)

lemma tidy_doing [tidy_intros]:
  "tidy k \<Longrightarrow> tidy (doing Listening k)" "tidy k \<Longrightarrow> tidy (doing Subscribed k)" "tidy k \<Longrightarrow> tidy (doing Serving k)"
  "tidy k \<Longrightarrow> tidy (doing StreamsClosed k)" "tidy k \<Longrightarrow> tidy (doing (LoopAwaited b) k)" "tidy k \<Longrightarrow> tidy (doing ServerStopped k)"
  by (auto simp: tidy_def doing_def proc_ok_def opened_snoc)

lemma tidy_checked [tidy_intros]: "(\<And>v. tidy (k v)) \<Longrightarrow> tidy (checked f x k)"
  by (auto simp: checked_def tidy_fail split: sum.splits)

lemma tidy_must [tidy_intros]: "tidy k \<Longrightarrow> tidy (must b e k)"
  by (simp add: must_def tidy_fail)

lemma tidy_stop [tidy_intros]: "tidy (stop_server env)" "tidy (server_ended x)"
  by (auto simp: stop_server_def server_ended_def intro!: tidy_intros split: option.splits)

lemma tidy_select [tidy_intros]: "tidy (consumer_select env r)" "tidy (gateway_select env q)" "tidy (ingest_select env q)"
  by (auto simp: consumer_select_def gateway_select_def ingest_select_def intro!: tidy_intros
      split: ready.splits option.splits)

text \<open>The contract of a command.\<close>

locale orderly_command =
  fixes run :: "'e \<Rightarrow> 'r \<Rightarrow> cfg_error list + config \<Rightarrow> step"
  assumes tidy_run: "tidy (run e r loaded)"
begin

lemma closes_all:
  assumes "exiting (run e r loaded) = (err, acts)"
  shows "\<exists>xs. (\<forall>q. Closed q \<notin> set xs) \<and> acts = xs @ map Closed (rev (opened xs))"
proof -
  have "proc_ok \<lparr>pr_acts = [], pr_defers = []\<rparr>"
    by (simp add: proc_ok_def opened_def List.map_filter_simps)
  with tidy_run [of e r loaded] have "proc_ok (snd (run e r loaded \<lparr>pr_acts = [], pr_defers = []\<rparr>))"
    by (simp add: tidy_def)
  with assms show ?thesis by (auto simp: exiting_def proc_ok_def split: prod.splits)
qed

end

interpretation consumer_cmd: orderly_command run_consumer
  by unfold_locales (auto simp: run_consumer_def opening_db_def opening_redis_def intro!: tidy_intros)

interpretation gateway_cmd: orderly_command run_gateway
  by unfold_locales (auto simp: run_gateway_def opening_db_def opening_redis_def intro!: tidy_intros)

interpretation ingest_cmd: orderly_command run_ingest
  by unfold_locales (auto simp: run_ingest_def opening_db_def opening_redis_def intro!: tidy_intros)

section \<open>Clean exits\<close>

definition db_answers :: "config \<Rightarrow> cmd_env \<Rightarrow> bool" where
  "db_answers cfg env \<longleftrightarrow> de_parsed (ce_db env) \<and> de_created (ce_db env) \<and> de_pinged (ce_db env) \<and> cp_connect (cf_postgres cfg) > 0"

definition stops_clean :: "cmd_env \<Rightarrow> bool" where
  "stops_clean env \<longleftrightarrow> ce_shutdown env = None \<and> serve_error (ce_serve env) = None"

lemma exiting_checked [simp]:
  "exiting (checked f (Inl e) k) = exiting (fail_with (f e))" "exiting (checked f (Inr v) k) = exiting (k v)"
  by (simp_all add: checked_def)

lemma identities [simp]: "consumerIdentity g h p \<noteq> []" "gatewayIdentity h p \<noteq> []"
  by (simp_all add: consumerIdentity_def gatewayIdentity_def Let_def)

lemma servers_listen:
  "\<exists>e s. NewServer (consumer_server c) b = (if b then Inr s else Inl e)"
  "\<exists>e s. NewServer (gateway_server c) b = (if b then Inr s else Inl e)"
  "\<exists>e s. NewServer (ingest_server c) b = (if b then Inr s else Inl e)"
  by (auto simp: NewServer_def consumer_server_def gateway_server_def ingest_server_def Let_def)

lemmas step_defs = exiting_def checked_def must_def acquire_def doing_def fail_with_def opening_db_def opening_redis_def
  stop_server_def server_ended_def

lemma Open_cases: "(\<exists>pc. Open (cf_postgres cfg) (ce_db env) = Inr pc) \<longleftrightarrow> db_answers cfg env"
  by (auto simp: Open_def db_answers_def Let_def)

lemma select_exits:
  "fst (consumer_select env r s) = None \<longleftrightarrow> r = Signalled \<and> stops_clean env"
  "fst (gateway_select env q s) = None \<longleftrightarrow> q = None \<and> stops_clean env"
  "fst (ingest_select env q s) = None \<longleftrightarrow> q = None \<and> stops_clean env"
  by (auto simp: consumer_select_def gateway_select_def ingest_select_def step_defs stops_clean_def
      split: ready.splits option.splits)

lemma select_acts:
  "stops_clean env \<Longrightarrow> snd (consumer_select env Signalled s) =
     s\<lparr>pr_acts := pr_acts s @ [LoopAwaited (ce_drained env \<noteq> None), ServerStopped]\<rparr>"
  "stops_clean env \<Longrightarrow> snd (gateway_select env None s) = s\<lparr>pr_acts := pr_acts s @ [StreamsClosed, ServerStopped]\<rparr>"
  "stops_clean env \<Longrightarrow> snd (ingest_select env None s) = s\<lparr>pr_acts := pr_acts s @ [ServerStopped]\<rparr>"
  by (simp_all add: consumer_select_def gateway_select_def ingest_select_def step_defs stops_clean_def)

lemma exiting_pair: "exiting k = (err, acts) \<longleftrightarrow>
    err = fst (k \<lparr>pr_acts = [], pr_defers = []\<rparr>) \<and>
    acts = pr_acts (snd (k \<lparr>pr_acts = [], pr_defers = []\<rparr>)) @ map Closed (pr_defers (snd (k \<lparr>pr_acts = [], pr_defers = []\<rparr>)))"
  by (auto simp: exiting_def split: prod.splits)

text \<open>A step that may fail exits cleanly only if it does not fail and the rest does.\<close>

lemma checked_exit: "fst (checked f x k s) = None \<longleftrightarrow> (\<exists>v. x = Inr v \<and> fst (k v s) = None)"
  by (auto simp: checked_def fail_with_def split: sum.splits)

lemma must_exit: "fst (must b e k s) = None \<longleftrightarrow> b \<and> fst (k s) = None"
  by (simp add: must_def fail_with_def)

lemma pass_exit: "fst (acquire q k s) = fst (k (s\<lparr>pr_acts := pr_acts s @ [Opened q], pr_defers := q # pr_defers s\<rparr>))"
  "fst (doing a k s) = fst (k (s\<lparr>pr_acts := pr_acts s @ [a]\<rparr>))"
  by (simp_all add: acquire_def doing_def)

lemmas exit_simps = checked_exit must_exit pass_exit select_exits opening_db_def opening_redis_def

lemma constructors:
  "NewStore True i = Inr st \<longleftrightarrow> i \<noteq> [] \<and> st = \<lparr>st_pool = True, st_consumer_id = i\<rparr>"
  "NewProducer seeds ''esp-consumer-dlq'' created pinged = Inr cid \<longleftrightarrow> seeds \<noteq> [] \<and> created \<and> pinged \<and> cid = ''esp-consumer-dlq''"
  "NewProducer seeds ''esp-ingest'' created pinged = Inr cid \<longleftrightarrow> seeds \<noteq> [] \<and> created \<and> pinged \<and> cid = ''esp-ingest''"
  "NewDLQSink True (Some st) topic True = Inr d \<longleftrightarrow> topic \<noteq> [] \<and> d = \<lparr>dq_pub = True, dq_store = st, dq_topic = topic\<rparr>"
  "NewPublisher True channel = Inr p \<longleftrightarrow> channel \<noteq> [] \<and> p = \<lparr>re_client = True, re_channel = channel\<rparr>"
  "NewSubscriber True channel = Inr p \<longleftrightarrow> channel \<noteq> [] \<and> p = \<lparr>re_client = True, re_channel = channel\<rparr>"
  "Start frames g = Inr g1 \<longleftrightarrow> frames = Inr () \<and> g1 = g\<lparr>gw_sub_stop := True\<rparr>"
  by (auto simp: NewStore_def NewProducer_def NewClient_def NewDLQSink_def NewPublisher_def NewSubscriber_def Start_def
      Let_def split: sum.splits)

lemma servers:
  "NewServer (consumer_server c) b = Inr v \<longleftrightarrow> b \<and> v = projr (NewServer (consumer_server c) True)"
  "NewServer (gateway_server c) b = Inr v \<longleftrightarrow> b \<and> v = projr (NewServer (gateway_server c) True)"
  "NewServer (ingest_server c) b = Inr v \<longleftrightarrow> b \<and> v = projr (NewServer (ingest_server c) True)"
  by (auto simp: NewServer_def consumer_server_def gateway_server_def ingest_server_def Let_def)

lemma Open_Inr: "Open (cf_postgres cfg) (ce_db env) = Inr pc \<longleftrightarrow> db_answers cfg env \<and>
    pc = \<lparr>pl_max = cp_max_conns (cf_postgres cfg), pl_min = cp_min_conns (cf_postgres cfg),
          pl_lifetime = cp_lifetime (cf_postgres cfg), pl_connect = Some (cp_connect (cf_postgres cfg))\<rparr>"
  by (auto simp: Open_def db_answers_def Let_def)

lemmas startup_simps = exit_simps constructors servers Open_Inr

lemma consumer_exit:
  assumes "LoadFor pd env_vars role = Inr cfg"
  shows "fst (run_consumer env r (Inr cfg) s) = None \<longleftrightarrow>
    db_answers cfg env \<and> ce_created env \<and> ce_pinged env \<and> cb_dlq_topic (cf_broker cfg) \<noteq> [] \<and>
    ce_redis_addr env \<noteq> None \<and> ce_redis_pinged env \<and> cr_channel (cf_redis cfg) \<noteq> [] \<and> ce_group env \<and>
    cb_raw_topic (cf_broker cfg) \<noteq> [] \<and> ce_listened env \<and> r = Signalled \<and> stops_clean env"
proof -
  have "(\<exists>v. New True True True True (consumer_options cfg) = Inr v) \<longleftrightarrow> cb_raw_topic (cf_broker cfg) \<noteq> []"
    by (simp add: loaded_consumer [OF assms])
  then show ?thesis by (auto simp: run_consumer_def startup_simps loaded_seeds [OF assms])
qed

lemma gateway_exit:
  assumes "LoadFor pd env_vars role = Inr cfg"
  shows "fst (run_gateway env r (Inr cfg) s) = None \<longleftrightarrow>
    db_answers cfg env \<and> ce_redis_addr env \<noteq> None \<and> ce_redis_pinged env \<and> cr_channel (cf_redis cfg) \<noteq> [] \<and>
    ce_listened env \<and> ce_frames env = Inr () \<and> r = None \<and> stops_clean env"
  using loaded_gateway [OF assms] by (auto simp: run_gateway_def startup_simps)

lemma ingest_exit:
  assumes "LoadFor pd env_vars role = Inr cfg"
  shows "fst (run_ingest env r (Inr cfg) s) = None \<longleftrightarrow>
    db_answers cfg env \<and> ce_redis_pinged env \<and> ce_created env \<and> ce_pinged env \<and>
    cb_raw_topic (cf_broker cfg) \<noteq> [] \<and> ci_max_body (cf_ingest cfg) \<ge> 1 \<and> ce_listened env \<and> r = None \<and> stops_clean env"
proof -
  have "(\<exists>v. NewHandler True True (ingest_options cfg) = Inr v) \<longleftrightarrow>
      cb_raw_topic (cf_broker cfg) \<noteq> [] \<and> ci_max_body (cf_ingest cfg) \<ge> 1"
    by (simp add: loaded_ingest [OF assms])
  then show ?thesis by (auto simp: run_ingest_def startup_simps loaded_seeds [OF assms])
qed

text \<open>What a clean run did.\<close>

lemmas run_defs = checked_def must_def acquire_def doing_def opening_db_def opening_redis_def

definition start_proc :: proc where
  "start_proc = \<lparr>pr_acts = [], pr_defers = []\<rparr>"

lemma consumer_trace:
  assumes "LoadFor pd env_vars role = Inr cfg" and "fst (run_consumer env r (Inr cfg) start_proc) = None"
  shows "snd (run_consumer env r (Inr cfg) start_proc) =
    \<lparr>pr_acts = [Opened Pool, Opened BrokerClient, Opened RedisClient, Opened GroupClient, Listening, Serving,
       LoopAwaited (ce_drained env \<noteq> None), ServerStopped], pr_defers = [GroupClient, RedisClient, BrokerClient, Pool]\<rparr>"
proof -
  note c = consumer_exit [OF assms(1), THEN iffD1, OF assms(2)]
  then obtain pc srv where "Open (cf_postgres cfg) (ce_db env) = Inr pc"
    "NewServer (consumer_server cfg) (ce_listened env) = Inr srv" by (simp add: Open_Inr servers)
  with c show ?thesis
    by (simp add: run_consumer_def run_defs NewStore_def NewProducer_def NewClient_def NewDLQSink_def NewPublisher_def
        loaded_consumer [OF assms(1)] loaded_seeds [OF assms(1)] select_acts start_proc_def)
qed

lemma gateway_trace:
  assumes "LoadFor pd env_vars role = Inr cfg" and "fst (run_gateway env r (Inr cfg) start_proc) = None"
  shows "snd (run_gateway env r (Inr cfg) start_proc) =
    \<lparr>pr_acts = [Opened Pool, Opened RedisClient, Listening, Subscribed, Serving, StreamsClosed, ServerStopped],
     pr_defers = [RedisClient, Pool]\<rparr>"
proof -
  note c = gateway_exit [OF assms(1), THEN iffD1, OF assms(2)]
  then obtain pc srv where "Open (cf_postgres cfg) (ce_db env) = Inr pc"
    "NewServer (gateway_server cfg) (ce_listened env) = Inr srv" by (simp add: Open_Inr servers)
  moreover obtain g where "NewGateway True True True (gateway_options cfg) = Inr g"
    using loaded_gateway [OF assms(1)] by blast
  ultimately show ?thesis using c
    by (simp add: run_gateway_def run_defs NewStore_def NewSubscriber_def Start_def select_acts start_proc_def)
qed

lemma ingest_trace:
  assumes "LoadFor pd env_vars role = Inr cfg" and "fst (run_ingest env r (Inr cfg) start_proc) = None"
  shows "snd (run_ingest env r (Inr cfg) start_proc) =
    \<lparr>pr_acts = [Opened Pool, Opened RedisClient, Opened BrokerClient, Listening, Serving, ServerStopped],
     pr_defers = [BrokerClient, RedisClient, Pool]\<rparr>"
proof -
  note c = ingest_exit [OF assms(1), THEN iffD1, OF assms(2)]
  then obtain pc srv where "Open (cf_postgres cfg) (ce_db env) = Inr pc"
    "NewServer (ingest_server cfg) (ce_listened env) = Inr srv" by (simp add: Open_Inr servers)
  with c show ?thesis
    by (simp add: run_ingest_def run_defs NewProducer_def NewClient_def loaded_ingest [OF assms(1)]
        loaded_seeds [OF assms(1)] select_acts start_proc_def)
qed

text \<open>From the trace of a clean run to that of its exit.\<close>

lemma exit_of_trace:
  assumes "exiting k = (err, acts)"
    and "\<exists>xs. (\<forall>q. Closed q \<notin> set xs) \<and> acts = xs @ map Closed (rev (opened xs))"
    and "fst (k start_proc) = None \<Longrightarrow> snd (k start_proc) = \<lparr>pr_acts = ys, pr_defers = ds\<rparr>"
    and "\<forall>q. Closed q \<notin> set ys" and "ds = rev (opened ys)"
  shows "\<exists>xs. (\<forall>q. Closed q \<notin> set xs) \<and> acts = xs @ map Closed (rev (opened xs)) \<and> (err = None \<longrightarrow> xs = ys)"
proof (cases err)
  case None
  with assms(1) have "fst (k start_proc) = None"
    "acts = pr_acts (snd (k start_proc)) @ map Closed (pr_defers (snd (k start_proc)))"
    by (simp_all add: exiting_pair start_proc_def)
  with assms(3-5) show ?thesis by (intro exI [of _ ys]) simp
next
  case (Some e)
  with assms(2) show ?thesis by auto
qed

lemmas opened_simps = opened_def List.map_filter_simps

section \<open>Properties\<close>


definition calm_env :: cmd_env where
  "calm_env = \<lparr>ce_db = \<lparr>de_parsed = True, de_created = True, de_pinged = True\<rparr>, ce_redis_addr = Some ''localhost:6379'',
     ce_redis_pinged = True, ce_created = True, ce_pinged = True, ce_group = True, ce_host = None, ce_pid = 1,
     ce_listened = True, ce_frames = Inr (), ce_drained = Some None, ce_shutdown = None, ce_serve = ServerClosed\<rparr>"


section \<open>The lag check\<close>

lemma set_lags_value:
  "set_lags (ps @ [(p, lag)]) gs = (if lag < 0 then set_lags ps gs else (set_lags ps gs)(p \<mapsto> lag))"
  by (induction ps gs rule: set_lags.induct) (simp_all del: fun_upd_apply)

text \<open>
  The check only fails when the broker cannot be reached or cannot describe the group: a group that never
  committed is healthy, and so is one whose offsets cannot be fetched. No gauge is ever set to a negative lag.
\<close>

lemma reportLag_fails:
  assumes "reportLag seeds grp created pinged reply gs = (err, gs')"
  shows "err \<noteq> None \<longleftrightarrow> seeds = [] \<or> \<not> created \<or> \<not> pinged \<or> (\<exists>e. reply = Inl e) \<or>
      (\<exists>lags d e. reply = Inr lags \<and> lags grp = Some d \<and> gl_describe d = Some e)"
    and "\<forall>l \<in> ran gs. 0 \<le> l \<Longrightarrow> \<forall>l \<in> ran gs'. 0 \<le> l"
proof -
  show "err \<noteq> None \<longleftrightarrow> seeds = [] \<or> \<not> created \<or> \<not> pinged \<or> (\<exists>e. reply = Inl e) \<or>
      (\<exists>lags d e. reply = Inr lags \<and> lags grp = Some d \<and> gl_describe d = Some e)"
    using assms by (auto simp: reportLag_def NewClient_def Let_def split: sum.splits option.splits if_splits)
  have set_lags_pos: "\<forall>l \<in> ran (set_lags ps hs). 0 \<le> l" if "\<forall>l \<in> ran hs. 0 \<le> l" for ps hs
    using that
  proof (induction ps hs rule: set_lags.induct)
    case (2 p lag ps gs)
    show ?case
    proof (cases "lag < 0")
      case False
      then have "\<forall>l \<in> ran (gs(p \<mapsto> lag)). 0 \<le> l" using "2.prems" by (auto simp: ran_def)
      with "2.IH"(2) False show ?thesis by (simp del: fun_upd_apply)
    qed (use 2 in simp)
  qed simp
  have "gs' = gs \<or> (\<exists>ps. gs' = set_lags ps gs)"
    using assms by (auto simp: reportLag_def split: sum.splits option.splits if_splits)
  with set_lags_pos show "\<forall>l \<in> ran gs'. 0 \<le> l" if "\<forall>l \<in> ran gs. 0 \<le> l" using that by metis
qed

section \<open>Routes\<close>

text \<open>No pattern is mounted twice, which would panic, and every service has its health endpoints.\<close>

lemma routes_distinct:
  assumes "NewServer c b = Inr srv" and "c \<in> {consumer_server cfg, gateway_server cfg, ingest_server cfg}"
  shows "distinct (sv_routes srv) \<and> {''/healthz'', ''/readyz'', ''/metrics''} \<subseteq> set (sv_routes srv)"
  using assms by (auto simp: NewServer_def consumer_server_def gateway_server_def ingest_server_def Let_def split: if_splits)

text \<open>The checks of each service have names and gauges of their own.\<close>

lemma checks_distinct:
  assumes "c \<in> {consumer_server cfg, gateway_server cfg, ingest_server cfg}"
  shows "distinct (map ck_name (sc_checks c)) \<and> own_gauges (sc_checks c)"
  using assms by (auto simp: own_gauges_def consumer_server_def gateway_server_def ingest_server_def)

section \<open>What the start does not check\<close>

text \<open>
  A connect timeout of zero is guarded as if it meant none, but it is also the time the ping is given: no
  process opens its database with it, and the configuration loads. The flags of the simulator are
  applied after the configuration was checked: with no workers it starts, and nothing will take a batch.
  The address of Redis, which may hold a password and whose name the logger redacts, is in the error of a
  parse that fails.
\<close>

lemma zero_connect_timeout_never_opens: "cp_connect opts \<le> 0 \<Longrightarrow> \<exists>e'. Open opts e = Inl e'"
  by (auto simp: Open_def Let_def)

lemma flags_not_checked:
  assumes "LoadDefault l F doc = Inr routes" and "NewFleet F R routes (cs_seed (cf_simulator cfg)) (cs_vehicles (cf_simulator cfg)) = Some (Inr fl)"
  shows "run_simulate (Inr cfg) (\<lambda>s. Some (s\<lparr>cs_workers := 0\<rparr>)) l F R doc = Producing ((cf_simulator cfg)\<lparr>cs_workers := 0\<rparr>) fl 0 0"
    and "run_simulate (Inr cfg) (\<lambda>s. Some (s\<lparr>cs_workers := - 1\<rparr>)) l F R doc = SimPanics"
  using assms by (simp_all add: run_simulate_def wrap64_def)

lemma redis_url_in_error:
  assumes "db_answers cfg env" and "ce_redis_addr env = None"
  shows "fst (exiting (run_gateway env r (Inr cfg))) = Some (RedisUrl (cr_url (cf_redis cfg)))"
proof -
  obtain pc where "Open (cf_postgres cfg) (ce_db env) = Inr pc" using assms(1) by (simp add: Open_Inr)
  with assms(2) show ?thesis by (simp add: exiting_def run_gateway_def run_defs fail_with_def)
qed

end
