(* ===== verification/Metrics.thy ===== *)
theory Metrics
  imports Commands_Props Gateway_Inv
begin

text \<open>
  The collectors of \<open>internal/platform/metrics/metrics.go\<close>: their names, kinds, labels and buckets, and
  their registration. The lemmas are the two conventions of the package: a registration that does not
  panic, and labels from fixed vocabularies. The last section compares the vocabularies with what the
  consumer and the gateway count.

  The registry of Prometheus is an argument; help texts are left out.
\<close>

section \<open>The collectors\<close>

datatype metric = Counter | CounterVec string | Gauge | GaugeVec string | Histogram "rat list"

record collector =
  co_name :: string
  co_metric :: metric

definition ingest_collectors :: "collector list" where
  "ingest_collectors =
     [\<lparr>co_name = ''ingest_requests_total'', co_metric = CounterVec ''outcome''\<rparr>,
      \<lparr>co_name = ''ingest_events_total'', co_metric = CounterVec ''outcome''\<rparr>,
      \<lparr>co_name = ''ingest_produce_seconds'',
       co_metric = Histogram [1/1000, 5/1000, 1/100, 25/1000, 5/100, 1/10, 25/100, 5/10, 1, 25/10]\<rparr>,
      \<lparr>co_name = ''ingest_batch_size'', co_metric = Histogram [1, 10, 50, 100, 250, 500]\<rparr>]"

definition consumer_collectors :: "collector list" where
  "consumer_collectors =
     [\<lparr>co_name = ''consumer_events_total'', co_metric = CounterVec ''result''\<rparr>,
      \<lparr>co_name = ''consumer_lag_messages'', co_metric = GaugeVec ''partition''\<rparr>,
      \<lparr>co_name = ''consumer_tx_seconds'',
       co_metric = Histogram [5/10000, 1/1000, 25/10000, 5/1000, 1/100, 25/1000, 5/100, 1/10, 25/100, 5/10]\<rparr>,
      \<lparr>co_name = ''consumer_retries_total'', co_metric = CounterVec ''reason''\<rparr>,
      \<lparr>co_name = ''consumer_batch_size'', co_metric = Histogram [1, 5, 10, 50, 100, 200, 500]\<rparr>]"

definition dead_letter_collectors :: "collector list" where
  "dead_letter_collectors =
     [\<lparr>co_name = ''dead_letter_total'', co_metric = CounterVec ''reason''\<rparr>,
      \<lparr>co_name = ''dead_letter_depth'', co_metric = Gauge\<rparr>]"

definition gateway_collectors :: "collector list" where
  "gateway_collectors =
     [\<lparr>co_name = ''gateway_clients'', co_metric = Gauge\<rparr>,
      \<lparr>co_name = ''gateway_events_sent_total'', co_metric = Counter\<rparr>,
      \<lparr>co_name = ''gateway_disconnects_total'', co_metric = CounterVec ''reason''\<rparr>,
      \<lparr>co_name = ''gateway_replay_events'', co_metric = Histogram [0, 1, 10, 50, 100, 500, 1000]\<rparr>,
      \<lparr>co_name = ''fanout_publish_seconds'',
       co_metric = Histogram [1/10000, 5/10000, 1/1000, 25/10000, 5/1000, 1/100, 5/100]\<rparr>,
      \<lparr>co_name = ''fanout_events_total'', co_metric = CounterVec ''result''\<rparr>]"

definition dependency_collectors :: "collector list" where
  "dependency_collectors =
     [\<lparr>co_name = ''broker_up'', co_metric = Gauge\<rparr>, \<lparr>co_name = ''redis_up'', co_metric = Gauge\<rparr>,
      \<lparr>co_name = ''db_up'', co_metric = Gauge\<rparr>]"

text \<open>In the order of \<open>Register\<close>.\<close>

definition collectors :: "collector list" where
  "collectors = ingest_collectors @ consumer_collectors @ dead_letter_collectors @ gateway_collectors @
     dependency_collectors"

lemmas collector_defs = collectors_def ingest_collectors_def consumer_collectors_def
  dead_letter_collectors_def gateway_collectors_def dependency_collectors_def

section \<open>Registration\<close>

text \<open>\<open>add\<close> is \<open>Registry.Register\<close>; \<open>None\<close> is its error, on which \<open>MustRegister\<close> panics.\<close>

fun MustRegister :: "('c \<Rightarrow> 'r \<Rightarrow> 'r option) \<Rightarrow> 'c list \<Rightarrow> 'r \<Rightarrow> 'r option" where
  "MustRegister add [] reg = Some reg"
| "MustRegister add (c # cs) reg =
     (case add c reg of None \<Rightarrow> None | Some reg1 \<Rightarrow> MustRegister add cs reg1)"

definition Register :: "(collector \<Rightarrow> 'r \<Rightarrow> 'r option) \<Rightarrow> 'r \<Rightarrow> 'r option" where
  "Register add reg = MustRegister add collectors reg"

text \<open>A fresh registry with the collectors of the runtime and of the process, \<open>base\<close>.\<close>

definition NewRegistry :: "('c \<Rightarrow> 'r \<Rightarrow> 'r option) \<Rightarrow> 'c list \<Rightarrow> 'r \<Rightarrow> 'r option" where
  "NewRegistry add base fresh = MustRegister add base fresh"

text \<open>The documented law of the registry: a collector is refused exactly when its name is taken.\<close>

definition registry_law :: "(collector \<Rightarrow> 'r \<Rightarrow> 'r option) \<Rightarrow> ('r \<Rightarrow> string set) \<Rightarrow> bool" where
  "registry_law add names \<longleftrightarrow>
     (\<forall>c reg. if co_name c \<in> names reg then add c reg = None
              else \<exists>reg1. add c reg = Some reg1 \<and> names reg1 = insert (co_name c) (names reg))"

lemma registers_distinct:
  assumes "registry_law add names"
  shows "distinct (map co_name cs) \<Longrightarrow> set (map co_name cs) \<inter> names reg = {} \<Longrightarrow>
    \<exists>reg1. MustRegister add cs reg = Some reg1 \<and> names reg1 = names reg \<union> set (map co_name cs)"
proof (induction cs arbitrary: reg)
  case (Cons c cs)
  then have "co_name c \<notin> names reg" by simp
  with assms obtain reg1 where "add c reg = Some reg1" "names reg1 = insert (co_name c) (names reg)"
    unfolding registry_law_def by meson
  with Cons.IH [of reg1] Cons.prems show ?case by auto
qed simp

lemma collector_names_distinct: "distinct (map co_name collectors)"
  by (simp add: collector_defs)

text \<open>
  A registry that holds none of the names takes all of them, and a second registration panics, as the
  comment of \<open>Register\<close> wants it.
\<close>

lemma Register_once:
  assumes "registry_law add names" and "set (map co_name collectors) \<inter> names reg = {}"
  shows "\<exists>reg1. Register add reg = Some reg1 \<and> names reg1 = names reg \<union> set (map co_name collectors) \<and>
    Register add reg1 = None"
proof -
  from registers_distinct [OF assms(1) collector_names_distinct assms(2)] obtain reg1 where
    r: "MustRegister add collectors reg = Some reg1" "names reg1 = names reg \<union> set (map co_name collectors)" by blast
  have "''ingest_requests_total'' \<in> names reg1" by (simp add: r(2) collector_defs)
  then have "add \<lparr>co_name = ''ingest_requests_total'', co_metric = CounterVec ''outcome''\<rparr> reg1 = None"
    using assms(1) unfolding registry_law_def by (metis collector.select_convs(1))
  then have "Register add reg1 = None"
    by (simp add: Register_def collectors_def ingest_collectors_def)
  with r show ?thesis by (simp add: Register_def)
qed

text \<open>The buckets of every histogram are strictly increasing: \<open>NewHistogram\<close> panics on others.\<close>

lemma buckets_increase: "\<forall>c \<in> set collectors. case co_metric c of Histogram bs \<Rightarrow> bs \<noteq> [] \<and> sorted_wrt (<) bs | _ \<Rightarrow> True"
  by (simp add: collector_defs)

section \<open>The gauges of the checks\<close>

text \<open>Every gauge a check of a service sets is a collector.\<close>

lemma check_gauges_registered:
  assumes "c \<in> {consumer_server cfg, gateway_server cfg, ingest_server cfg}"
    and "k \<in> set (sc_checks c)" and "ck_gauge k = Some g"
  shows "\<lparr>co_name = g, co_metric = Gauge\<rparr> \<in> set dependency_collectors"
  using assms by (auto simp: consumer_server_def gateway_server_def ingest_server_def dependency_collectors_def)

text \<open>
  The consumer depends on Redis and the gateway does not depend on the broker, but each exposes both
  gauges: whatever its checks answer, the gauge of the dependency it does not check keeps its value.
\<close>

lemma unchecked_gauge:
  assumes "runChecks (sc_checks c) outcome order gs = (out, ok, gs')" and "set order \<subseteq> {..<length (sc_checks c)}"
    and "(c, g) \<in> {(consumer_server cfg, ''redis_up''), (gateway_server cfg, ''broker_up'')}"
  shows "gs' g = gs g"
proof -
  have "\<forall>k \<in> set (sc_checks c). ck_gauge k \<noteq> Some g" and "sc_checks c \<noteq> []"
    using assms(3) by (auto simp: consumer_server_def gateway_server_def)
  moreover from this(2) assms(1) have "collect (sc_checks c) outcome order Map.empty True gs = (out, ok, gs')"
    by (simp add: runChecks_def)
  ultimately show ?thesis
    using collect_gauge_keeps [of "sc_checks c" outcome order Map.empty True gs out ok gs' g] assms(2)
    by (meson lessThan_iff nth_mem subsetD)
qed

section \<open>The labels that are counted\<close>

text \<open>The vocabularies the package's comments list for the counters of the consumer, without \<open>retried\<close>.\<close>

definition consumer_labels :: "(string \<times> string) list" where
  "consumer_labels =
     map (Pair ''consumer_events_total'') [''applied'', ''duplicate'', ''late'', ''dead''] @
     map (Pair ''dead_letter_total'') [''decode'', ''unknown_version'', ''retries_exhausted''] @
     map (Pair ''consumer_retries_total'') [''transient''] @
     map (Pair ''fanout_events_total'') [''published'', ''failed'', ''no_subscribers'']"

text \<open>The dependencies of the consumer, with every count outside a vocabulary dropped.\<close>

definition counting_in :: "(string \<times> string) list \<Rightarrow> 'w deps \<Rightarrow> 'w deps" where
  "counting_in V d = d\<lparr>d_count := (\<lambda>m x w. if (m, x) \<in> set V then d_count d m x w else w)\<rparr>"

lemma counting_in_simps [simp]:
  "d_cancelled (counting_in V d) = d_cancelled d" "d_apply (counting_in V d) = d_apply d"
  "d_dead (counting_in V d) = d_dead d" "d_publish (counting_in V d) = d_publish d"
  "d_wait (counting_in V d) = d_wait d" "d_commit (counting_in V d) = d_commit d"
  "d_allow_rebalance (counting_in V d) = d_allow_rebalance d"
  by (simp_all add: counting_in_def)

lemma counts_in:
  "x \<in> {''applied'', ''duplicate'', ''late'', ''dead''} \<Longrightarrow>
   d_count (counting_in consumer_labels d) ''consumer_events_total'' x = d_count d ''consumer_events_total'' x"
  "x \<in> {''decode'', ''unknown_version'', ''retries_exhausted''} \<Longrightarrow>
   d_count (counting_in consumer_labels d) ''dead_letter_total'' x = d_count d ''dead_letter_total'' x"
  "d_count (counting_in consumer_labels d) ''consumer_retries_total'' ''transient'' =
   d_count d ''consumer_retries_total'' ''transient''"
  "x \<in> {''published'', ''failed'', ''no_subscribers''} \<Longrightarrow>
   d_count (counting_in consumer_labels d) ''fanout_events_total'' x = d_count d ''fanout_events_total'' x"
  by (auto simp: counting_in_def consumer_labels_def)

lemma refuse_counts_in:
  "reason \<in> {''decode'', ''unknown_version'', ''retries_exhausted''} \<Longrightarrow>
   refuse t (counting_in consumer_labels d) r eid reason n c w = refuse t d r eid reason n c w"
  by (auto simp: refuse_def counts_in split: prod.splits option.splits)

lemma after_apply_counts_in:
  "after_apply (counting_in consumer_labels d) env pos out w = after_apply d env pos out w"
  by (cases out) (simp_all add: after_apply_def publish_def counts_in split: option.splits sum.splits prod.splits)

lemma apply_loop_counts_in:
  "apply_loop c t (counting_in consumer_labels d) env pos r n w = apply_loop c t d env pos r n w"
proof (induction c t d env pos r n w rule: apply_loop.induct)
  case (1 c t d env pos r n w)
  then show ?case
    by (subst (1 2) apply_loop.simps)
      (auto simp: Let_def after_apply_counts_in refuse_counts_in counts_in
        split: prod.splits sum.splits bool.splits)
qed

lemma processOne_counts_in:
  "processOne c l t (counting_in consumer_labels d) r w = processOne c l t d r w"
  by (simp add: processOne_def refuse_counts_in apply_loop_counts_in split: sum.splits)

lemma run_group_counts_in:
  "run_group c l t (counting_in consumer_labels d) rs k w = run_group c l t d rs k w"
  by (induction rs arbitrary: k w) (simp_all add: processOne_counts_in split: prod.splits bool.splits)

text \<open>
  The consumer counts nothing under another label: a run whose counts outside the vocabularies are
  dropped is the same run. In particular the result \<open>retried\<close>, which the comment lists, is never counted.
\<close>

lemma Run_counts_in:
  "Run c l t (counting_in consumer_labels d) ps w = Run c l t d ps w"
proof -
  have batch: "processBatch c l t (counting_in consumer_labels d) rs w = processBatch c l t d rs w" for rs w
  proof -
    have "run_partition c l t (counting_in consumer_labels d) grp w = run_partition c l t d grp w" for grp w
      by (simp add: run_partition_def run_group_counts_in split: option.splits prod.splits)
    then show ?thesis by (simp add: processBatch_def)
  qed
  show ?thesis by (induction ps arbitrary: w) (simp_all add: batch Let_def split: prod.splits bool.splits)
qed

text \<open>The four reasons of the comment, and two that it does not list.\<close>

definition disconnect_reasons :: "string list" where
  "disconnect_reasons = [''slow_consumer'', ''client_closed'', ''server_shutdown'', ''write_error'', ''max_duration'', ''at_capacity'']"

definition reasons_known :: "gsys \<Rightarrow> bool" where
  "reasons_known s \<longleftrightarrow> set (gw_disconnects (sy_gw s)) \<subseteq> set disconnect_reasons"

lemma dropLocked_reasons:
  "dropLocked c why g = Some g' \<Longrightarrow> set (gw_disconnects g') \<subseteq> insert why (set (gw_disconnects g))"
  by (auto simp: dropLocked_def remove_client_def Let_def split: if_splits option.splits)

lemma broadcast_to_reasons:
  "broadcast_to cs pos g = Some g' \<Longrightarrow> set (gw_disconnects g') \<subseteq> insert ''slow_consumer'' (set (gw_disconnects g))"
proof (induction cs arbitrary: g)
  case (Cons c cs)
  then show ?case
    by (fastforce split: option.splits send_result.splits dest: dropLocked_reasons)
qed auto

lemma drop_all_reasons:
  "drop_all cs g = Some g' \<Longrightarrow> set (gw_disconnects g') \<subseteq> insert ''server_shutdown'' (set (gw_disconnects g))"
proof (induction cs arbitrary: g)
  case (Cons c cs)
  then show ?case by (fastforce split: option.splits dest: dropLocked_reasons)
qed auto

lemma reasons_insert:
  assumes "reasons_known s" and "set (gw_disconnects g) \<subseteq> insert why (set (gw_disconnects (sy_gw s)))"
    and "why \<in> set disconnect_reasons" and "sy_gw t = g"
  shows "reasons_known t"
  using assms by (auto simp: reasons_known_def)

lemma step_reasons: "gw_step s t \<Longrightarrow> reasons_known s \<Longrightarrow> reasons_known t"
proof (induction rule: gw_step.induct)
  case (bus cs s pos g)
  show ?case
    by (rule reasons_insert [OF bus(4) broadcast_to_reasons [OF bus(3)]]) (simp_all add: disconnect_reasons_def)
next
  case (admit auth flusher w s cn g)
  then show ?case
    by (auto simp: reasons_known_def open_stream_def register_def Let_def split: if_splits prod.splits option.splits)
next
  case (refuse auth flusher w s w' g)
  then show ?case
    by (auto simp: reasons_known_def open_stream_def register_def disconnect_reasons_def Let_def
        split: if_splits prod.splits option.splits)
next
  case (event s c cn l ev taken cn' g)
  then show ?case
    by (auto simp: reasons_known_def stream_step_def disconnect_reasons_def Let_def
        split: select.splits option.splits list.splits prod.splits bool.splits if_splits)
next
  case (leave s c cn g)
  then show ?case
    by (auto simp: reasons_known_def unregister_def remove_client_def Let_def split: if_splits option.splits)
next
  case (stop s b g)
  then obtain g' where "drop_all (gw_clients (sy_gw s)) (sy_gw s) = Some g'" "g = g'\<lparr>gw_sub_stop := False\<rparr>"
    by (auto simp: Shutdown_def split: option.splits)
  moreover have "''server_shutdown'' \<in> set disconnect_reasons" by (simp add: disconnect_reasons_def)
  ultimately show ?case using reasons_insert [OF stop(2) drop_all_reasons, of _ g' "s\<lparr>sy_gw := g'\<rparr>"] by (simp add: reasons_known_def)
qed (simp_all add: reasons_known_def registered_def)

interpretation gateway_reasons: stepwise_invariant gw_step reasons_known
  by unfold_locales (rule step_reasons)

text \<open>
  However a gateway runs, its counter of disconnections has at most these six series; the two the
  comment omits are counted by \<open>register\<close> and by the deadline of a stream.
\<close>

lemma gateway_label_bounded:
  assumes "NewGateway src hist logger o0 = Inr g" and "gw_step\<^sup>*\<^sup>* (gsys_start g) t"
  shows "set (gw_disconnects (sy_gw t)) \<subseteq> set disconnect_reasons"
proof -
  have "reasons_known (gsys_start g)"
    using assms(1) by (auto simp: reasons_known_def gsys_start_def NewGateway_def Let_def split: if_splits)
  from gateway_reasons.run_keeps_from_start [OF this assms(2)] show ?thesis by (simp add: reasons_known_def)
qed

end
