(* ===== verification/Gateway_Live.thy ===== *)
theory Gateway_Live
  imports Gateway_Resume
begin

text \<open>
  What becomes of a client the gateway dropped, by shedding or at a shutdown: nothing refills its
  closed channel, its handler is never stuck, hands out what is still buffered, says why it stops and
  leaves. The last section shows the limit of a shutdown: a client admitted after it is not dropped.
\<close>

section \<open>The loop of one stream\<close>

text \<open>
  The select loop of \<open>handleStream\<close> on the events the runtime chose, until it returns; \<open>None\<close> when
  an event was chosen that is not ready.
\<close>

fun stream_run :: "lib \<Rightarrow> select list \<Rightarrow> conn \<Rightarrow> gateway \<Rightarrow> (frame list \<times> conn \<times> gateway) option" where
  "stream_run l [] cn g = Some ([], cn, g)"
| "stream_run l (ev # evs) cn g =
     (if cn_phase cn \<noteq> Streaming then Some ([], cn, g)
      else (case stream_step l ev cn g of
              None \<Rightarrow> None
            | Some (taken, cn1, g1) \<Rightarrow>
                (case stream_run l evs cn1 g1 of
                   None \<Rightarrow> None
                 | Some (fs, cn2, g2) \<Rightarrow>
                     Some ((case taken of None \<Rightarrow> [] | Some f \<Rightarrow> [f]) @ fs, cn2, g2))))"

lemma stream_run_done: "cn_phase cn \<noteq> Streaming \<Longrightarrow> stream_run l evs cn g = Some ([], cn, g)"
  by (cases evs) simp_all

text \<open>Receiving from a closed channel: the next frame of the buffer, or the end.\<close>

definition shed_chunk :: "lib \<Rightarrow> string" where
  "shed_chunk l = control_chunk ''shed'' (json_text l (JObj
     [(''reason'', text_str l ''the stream was closed by the server; reconnect to resume'')]))"

lemma receive_closed:
  assumes "gw_chans g (cn_client cn) = Some ch" and "ch_closed ch"
  shows "\<exists>taken cn' g'. stream_step l Receive cn g = Some (taken, cn', g') \<and>
    (case ch_buf ch of
       [] \<Rightarrow> taken = None \<and> cn_phase cn' = Finished \<and> g' = g \<and>
         cn_resp cn' = writeFrame l ''shed'' [(''reason'', text_str l ''the stream was closed by the server; reconnect to resume'')] (cn_resp cn)
     | f # rest \<Rightarrow> taken = Some f \<and>
         (if fst (writePosition l f (cn_resp cn)) then cn_phase cn' = cn_phase cn else cn_phase cn' = Finished) \<and>
         cn_resp cn' = snd (writePosition l f (cn_resp cn)) \<and>
         gw_chans g' = (gw_chans g)(cn_client cn \<mapsto> ch\<lparr>ch_buf := rest\<rparr>))"
proof (cases "ch_buf ch")
  case (Cons f rest)
  obtain b w where "writePosition l f (cn_resp cn) = (b, w)" by (metis surj_pair)
  with assms Cons show ?thesis by (cases b) (simp_all add: stream_step_def Let_def)
qed (use assms in \<open>simp add: stream_step_def Let_def\<close>)

lemma other_event:
  assumes "stream_step l ev cn g = Some (taken, cn', g')" and "ev \<noteq> Receive"
  shows "taken = None \<and> gw_chans g' = gw_chans g \<and> cn_client cn' = cn_client cn \<and>
    (cn_phase cn' = cn_phase cn \<or> cn_phase cn' = Finished)"
  using assms by (cases ev) (auto simp: stream_step_def Let_def split: prod.splits bool.splits if_splits)

text \<open>Whatever the runtime chooses, a closed channel is received from at most once more than it holds frames.\<close>

lemma closed_stream_finishes:
  assumes "gw_chans g (cn_client cn) = Some ch" and "ch_closed ch" and "cn_phase cn \<in> {Streaming, Finished}"
    and "count_list evs Receive > length (ch_buf ch)" and "stream_run l evs cn g = Some (fs, cn', g')"
  shows "cn_phase cn' = Finished \<and> prefix fs (ch_buf ch)"
  using assms
proof (induction evs arbitrary: cn g ch fs cn' g')
  case (Cons ev evs)
  show ?case
  proof (cases "cn_phase cn = Streaming")
    case False
    with Cons.prems(3,5) stream_run_done [OF False] show ?thesis by auto
  next
    case True
    from Cons.prems(5) True obtain taken cn1 g1 where st: "stream_step l ev cn g = Some (taken, cn1, g1)"
      by (auto split: option.splits)
    with Cons.prems(5) True obtain fs1 where run: "stream_run l evs cn1 g1 = Some (fs1, cn', g')"
      and fs: "fs = (case taken of None \<Rightarrow> [] | Some f \<Rightarrow> [f]) @ fs1"
      by (auto split: option.splits)
    have client: "cn_client cn1 = cn_client cn" using stream_step_spec [OF st] by simp
    show ?thesis
    proof (cases "ev = Receive")
      case False
      note o = other_event [OF st False]
      from Cons.IH [of g1 cn1 ch, OF _ Cons.prems(2) _ _ run] o Cons.prems(1,3,4) True client False fs
      show ?thesis by auto
    next
      case rec: True
      show ?thesis
      proof (cases "ch_buf ch")
        case Nil
        with receive_closed [OF Cons.prems(1,2), of l] st rec
        have "cn_phase cn1 = Finished" "taken = None" by auto
        with run fs stream_run_done [of cn1 l evs g1] show ?thesis by simp
      next
        case (Cons f rest)
        with receive_closed [OF Cons.prems(1,2), of l] st rec True
        have t: "taken = Some f" "cn_phase cn1 \<in> {Streaming, Finished}"
          "gw_chans g1 = (gw_chans g)(cn_client cn \<mapsto> ch\<lparr>ch_buf := rest\<rparr>)"
          by (auto split: if_splits)
        have "cn_phase cn' = Finished \<and> prefix fs1 (ch_buf (ch\<lparr>ch_buf := rest\<rparr>))"
          by (rule Cons.IH [of g1 cn1, OF _ _ t(2) _ run])
            (use t client Cons.prems(2,4) rec Cons in simp_all)
        with t fs Cons show ?thesis by simp
      qed
    qed
  qed
qed simp

text \<open>And receiving is all it takes.\<close>

lemma closed_stream_drains:
  assumes "gw_chans g (cn_client cn) = Some ch" and "ch_closed ch" and "cn_phase cn = Streaming"
  shows "\<exists>fs cn' g'. stream_run l (replicate (Suc (length (ch_buf ch))) Receive) cn g = Some (fs, cn', g') \<and>
    cn_phase cn' = Finished \<and>
    ((\<forall>k. rs_ok (cn_resp cn) k) \<and> (\<forall>f \<in> set (ch_buf ch). marshal_frame l f \<noteq> None) \<longrightarrow>
       fs = ch_buf ch \<and>
       rs_body (cn_resp cn') = rs_body (cn_resp cn) @ map (frame_chunk l) (ch_buf ch) @ [shed_chunk l])"
  using assms
proof (induction "ch_buf ch" arbitrary: cn g ch)
  case Nil
  note buf = Nil.hyps [symmetric]
  from receive_closed [OF Nil.prems(1,2), of l] buf obtain cn1 where
    "stream_step l Receive cn g = Some (None, cn1, g)" "cn_phase cn1 = Finished"
    "cn_resp cn1 = writeFrame l ''shed'' [(''reason'', text_str l ''the stream was closed by the server; reconnect to resume'')] (cn_resp cn)"
    by auto
  with Nil.prems(3) buf show ?case by (simp add: writeFrame_body shed_chunk_def)
next
  case (Cons f rest)
  note buf = Cons.hyps(2) [symmetric]
  from receive_closed [OF Cons.prems(1,2), of l] buf obtain cn1 g1 where
    st: "stream_step l Receive cn g = Some (Some f, cn1, g1)"
    and ph: "if fst (writePosition l f (cn_resp cn)) then cn_phase cn1 = cn_phase cn else cn_phase cn1 = Finished"
    and w: "cn_resp cn1 = snd (writePosition l f (cn_resp cn))"
    and g1: "gw_chans g1 = (gw_chans g)(cn_client cn \<mapsto> ch\<lparr>ch_buf := rest\<rparr>)"
    by auto
  have client: "cn_client cn1 = cn_client cn" using stream_step_spec [OF st] by simp
  have body: "rs_body (cn_resp cn1) = rs_body (cn_resp cn) @
      (if fst (writePosition l f (cn_resp cn)) then [frame_chunk l f] else []) \<and>
      rs_ok (cn_resp cn1) = rs_ok (cn_resp cn)"
    using writePosition_result [of l f "cn_resp cn"] w by (metis prod.collapse)
  show ?case
  proof (cases "fst (writePosition l f (cn_resp cn))")
    case False
    with ph have "cn_phase cn1 = Finished" by simp
    moreover have "\<not> ((\<forall>k. rs_ok (cn_resp cn) k) \<and> marshal_frame l f \<noteq> None)"
      using False writePosition_ok by blast
    ultimately show ?thesis
      using st Cons.prems(3) buf stream_run_done [of cn1 l "replicate (length (ch_buf ch)) Receive" g1] by auto
  next
    case True
    with ph Cons.prems(3) have "cn_phase cn1 = Streaming" by simp
    define ch1 where "ch1 = ch\<lparr>ch_buf := rest\<rparr>"
    have ch1: "ch_buf ch1 = rest" "ch_closed ch1" "gw_chans g1 (cn_client cn1) = Some ch1"
      using g1 client Cons.prems(2) by (simp_all add: ch1_def)
    have "\<exists>fs cn' g'. stream_run l (replicate (Suc (length (ch_buf ch1))) Receive) cn1 g1 = Some (fs, cn', g') \<and>
      cn_phase cn' = Finished \<and>
      ((\<forall>k. rs_ok (cn_resp cn1) k) \<and> (\<forall>f \<in> set (ch_buf ch1). marshal_frame l f \<noteq> None) \<longrightarrow>
       fs = ch_buf ch1 \<and>
       rs_body (cn_resp cn') = rs_body (cn_resp cn1) @ map (frame_chunk l) (ch_buf ch1) @ [shed_chunk l])"
      by (rule Cons.hyps(1)) (use ch1 \<open>cn_phase cn1 = Streaming\<close> in simp_all)
    then obtain fs cn' g' where
      "stream_run l (replicate (Suc (length rest)) Receive) cn1 g1 = Some (fs, cn', g')" "cn_phase cn' = Finished"
      "(\<forall>k. rs_ok (cn_resp cn1) k) \<and> (\<forall>f \<in> set rest. marshal_frame l f \<noteq> None) \<longrightarrow>
         fs = rest \<and> rs_body (cn_resp cn') = rs_body (cn_resp cn1) @ map (frame_chunk l) rest @ [shed_chunk l]"
      unfolding ch1(1) by blast
    with st Cons.prems(3) buf body True show ?thesis by auto
  qed
qed

section \<open>In the process\<close>

text \<open>A run of one handler, alone, is a run of the process.\<close>

lemma stream_run_steps:
  assumes "stream_run l evs cn (sy_gw s) = Some (fs, cn', g')" and "sy_conns s c = Some cn" and "cn_client cn = c"
  shows "\<exists>t. gw_step\<^sup>*\<^sup>* s t \<and> sy_gw t = g' \<and> sy_conns t c = Some cn' \<and> sy_taken t c = sy_taken s c @ fs"
  using assms
proof (induction evs arbitrary: cn s fs)
  case (Cons ev evs)
  show ?case
  proof (cases "cn_phase cn = Streaming")
    case False
    with Cons.prems stream_run_done [OF False] show ?thesis by auto
  next
    case True
    from Cons.prems(1) True obtain taken cn1 g1 where st: "stream_step l ev cn (sy_gw s) = Some (taken, cn1, g1)"
      by (auto split: option.splits)
    with Cons.prems(1) True obtain fs1 where run: "stream_run l evs cn1 g1 = Some (fs1, cn', g')"
      and fs: "fs = (case taken of None \<Rightarrow> [] | Some f \<Rightarrow> [f]) @ fs1"
      by (auto split: option.splits)
    let ?s = "s\<lparr>sy_gw := g1, sy_conns := (sy_conns s)(c \<mapsto> cn1),
      sy_taken := (sy_taken s)(c := sy_taken s c @ (case taken of None \<Rightarrow> [] | Some f \<Rightarrow> [f]))\<rparr>"
    have "gw_step s ?s" by (rule gw_step.event [OF Cons.prems(2) True st])
    moreover have "cn_client cn1 = c" using stream_step_spec [OF st] Cons.prems(3) by simp
    with Cons.IH [of cn1 ?s fs1] run obtain t where
      "gw_step\<^sup>*\<^sup>* ?s t" "sy_gw t = g'" "sy_conns t c = Some cn'" "sy_taken t c = sy_taken ?s c @ fs1" by auto
    ultimately show ?thesis using fs by (intro exI [of _ t]) (auto intro: converse_rtranclp_into_rtranclp)
  qed
qed auto

text \<open>
  C22. A client that was dropped is let go. From every reachable state in which its channel is closed
  and its handler still selects, whatever the runtime chooses the handler has returned by the time it
  received once more than the buffer held frames, and receiving is always ready; so the process has a
  run, of steps of this handler alone, in which the handler returns, its deferred \<open>unregister\<close>
  succeeds and the client is gone. If its connection takes the writes, the client got every frame
  that was buffered, in order, and then the control frame that tells it to reconnect.
\<close>

theorem dropped_client_let_go:
  assumes "NewGateway src hist logger o0 = Inr g0" and "gw_step\<^sup>*\<^sup>* (gsys_start g0) s"
    and "sy_conns s c = Some cn" and "cn_phase cn = Streaming"
    and "gw_chans (sy_gw s) c = Some ch" and "ch_closed ch"
  shows "(\<forall>evs fs cn' g'. length (ch_buf ch) < count_list evs Receive \<and>
        stream_run l evs cn (sy_gw s) = Some (fs, cn', g') \<longrightarrow> cn_phase cn' = Finished \<and> prefix fs (ch_buf ch)) \<and>
    stream_step l Receive cn (sy_gw s) \<noteq> None \<and>
    (\<exists>t cn'. gw_step\<^sup>*\<^sup>* s t \<and> sy_conns t c = Some cn' \<and> cn_phase cn' = Gone \<and>
       c \<notin> set (gw_clients (sy_gw t)) \<and>
       ((\<forall>k. rs_ok (cn_resp cn) k) \<and> (\<forall>f \<in> set (ch_buf ch). marshal_frame l f \<noteq> None) \<longrightarrow>
          sy_taken t c = sy_taken s c @ ch_buf ch \<and>
          rs_body (cn_resp cn') = rs_body (cn_resp cn) @ map (frame_chunk l) (ch_buf ch) @ [shed_chunk l]))"
proof (intro conjI)
  have ok: "sys_ok s" by (rule reachable_ok [OF assms(1,2)])
  have client: "cn_client cn = c" by (rule sys_okD(3) [OF ok assms(3)])
  note ch = assms(5) [folded client] assms(6)
  show "\<forall>evs fs cn' g'. length (ch_buf ch) < count_list evs Receive \<and>
      stream_run l evs cn (sy_gw s) = Some (fs, cn', g') \<longrightarrow> cn_phase cn' = Finished \<and> prefix fs (ch_buf ch)"
    using closed_stream_finishes [OF ch, of _ l] assms(4) by (metis insertCI)
  show "stream_step l Receive cn (sy_gw s) \<noteq> None"
    using receive_closed [OF ch, of l] by auto
  from closed_stream_drains [OF ch assms(4), of l] obtain fs cn1 g1 where
    run: "stream_run l (replicate (Suc (length (ch_buf ch))) Receive) cn (sy_gw s) = Some (fs, cn1, g1)"
    and fin: "cn_phase cn1 = Finished"
    and out: "(\<forall>k. rs_ok (cn_resp cn) k) \<and> (\<forall>f \<in> set (ch_buf ch). marshal_frame l f \<noteq> None) \<longrightarrow>
       fs = ch_buf ch \<and>
       rs_body (cn_resp cn1) = rs_body (cn_resp cn) @ map (frame_chunk l) (ch_buf ch) @ [shed_chunk l]" by metis
  from stream_run_steps [OF run assms(3) client] obtain t where
    t: "gw_step\<^sup>*\<^sup>* s t" "sy_conns t c = Some cn1" "sy_taken t c = sy_taken s c @ fs" by metis
  have okt: "sys_ok t" by (rule gateway_runs.run_keeps [OF t(1) ok])
  obtain g2 where g2: "unregister c (sy_gw t) = Some g2" "c \<notin> set (gw_clients g2)"
    using unregister_spec [OF sys_okD(1) [OF okt] sys_okD(4) [OF okt t(2)]] by auto
  let ?u = "t\<lparr>sy_gw := g2, sy_conns := (sy_conns t)(c \<mapsto> cn1\<lparr>cn_phase := Gone\<rparr>)\<rparr>"
  have "gw_step t ?u" by (rule gw_step.leave [OF t(2) fin g2(1)])
  with t(1) have "gw_step\<^sup>*\<^sup>* s ?u" by simp
  with g2(2) t(3) out show "\<exists>t cn'. gw_step\<^sup>*\<^sup>* s t \<and> sy_conns t c = Some cn' \<and> cn_phase cn' = Gone \<and>
       c \<notin> set (gw_clients (sy_gw t)) \<and>
       ((\<forall>k. rs_ok (cn_resp cn) k) \<and> (\<forall>f \<in> set (ch_buf ch). marshal_frame l f \<noteq> None) \<longrightarrow>
          sy_taken t c = sy_taken s c @ ch_buf ch \<and>
          rs_body (cn_resp cn') = rs_body (cn_resp cn) @ map (frame_chunk l) (ch_buf ch) @ [shed_chunk l])"
    by (intro exI [of _ ?u] exI [of _ "cn1\<lparr>cn_phase := Gone\<rparr>"]) auto
qed

section \<open>A shutdown with one frame waiting\<close>

definition no_history :: history where
  "no_history = \<lparr>hs_time = (\<lambda>i. Inr (0, False)), hs_since = (\<lambda>t i n. Inr []), hs_current = None\<rparr>"

text \<open>Client 1 is streaming and holds one frame; then the gateway shuts down.\<close>

definition waiting_conn :: conn where
  "waiting_conn = resume_stream sample_lib (\<lambda>d. []) (\<lambda>t. []) two_opts no_history 0 [] [] (fresh_conn 1 Resuming)"

definition waiting :: gsys where
  "waiting = two_sent\<lparr>sy_gw := (sy_gw two_sent)\<lparr>gw_gauge := 2\<rparr>,
     sy_conns := (sy_conns two_sent)(1 \<mapsto> waiting_conn)\<rparr>"

definition shut_chan :: chan where
  "shut_chan = \<lparr>ch_buf = [zero_frame], ch_cap = 1, ch_closed = True\<rparr>"

definition shut_gw :: gateway where
  "shut_gw = two_gw\<lparr>gw_clients := [], gw_chans := [0 \<mapsto> shut_chan, 1 \<mapsto> shut_chan], gw_next := 2, gw_gauge := 0,
     gw_disconnects := [''server_shutdown'', ''server_shutdown'']\<rparr>"

lemma two_sent_gauge: "gw_step two_sent (two_sent\<lparr>sy_gw := (sy_gw two_sent)\<lparr>gw_gauge := 2\<rparr>,
    sy_conns := (sy_conns two_sent)(1 \<mapsto> fresh_conn 1 Resuming)\<rparr>)"
  using gw_step.gauge [of two_sent 1 "fresh_conn 1 (Admitted 2)" 2]
  by (simp add: two_sent_def two_state_def fresh_conn_def registered_def)

lemma waiting_reachable: "gw_step\<^sup>*\<^sup>* (gsys_start two_gw) waiting"
proof -
  let ?s = "two_sent\<lparr>sy_gw := (sy_gw two_sent)\<lparr>gw_gauge := 2\<rparr>,
    sy_conns := (sy_conns two_sent)(1 \<mapsto> fresh_conn 1 Resuming)\<rparr>"
  have "gw_step ?s (?s\<lparr>sy_conns := (sy_conns ?s)(1 \<mapsto> resume_stream sample_lib (\<lambda>d. []) (\<lambda>t. [])
      (gw_opts (sy_gw ?s)) no_history 0 [] [] (fresh_conn 1 Resuming))\<rparr>)"
    by (rule gw_step.resume) (simp_all add: fresh_conn_def)
  then have "gw_step ?s waiting"
    by (simp add: waiting_def waiting_conn_def two_sent_def two_gw_def)
  with two_sent_reachable two_sent_gauge show ?thesis by (meson rtranclp.rtrancl_into_rtrancl)
qed

lemma waiting_shutdown: "Shutdown (sy_gw waiting) = Some (False, shut_gw)"
  by (simp add: waiting_def two_sent_def two_gw_def Shutdown_def dropLocked_def remove_client_def close_chan_def
      open_chan_def shut_gw_def shut_chan_def Let_def fun_upd_twist)

lemma shut_reachable: "gw_step\<^sup>*\<^sup>* (gsys_start two_gw) (waiting\<lparr>sy_gw := shut_gw\<rparr>)"
  using waiting_reachable gw_step.stop [OF waiting_shutdown] by (rule rtranclp.rtrancl_into_rtrancl)

theorem dropped_client_let_go_witness:
  "\<exists>t cn'. gw_step\<^sup>*\<^sup>* (waiting\<lparr>sy_gw := shut_gw\<rparr>) t \<and> sy_conns t 1 = Some cn' \<and> cn_phase cn' = Gone \<and>
     sy_taken t 1 = [zero_frame] \<and> last (rs_body (cn_resp cn')) = shed_chunk sample_lib"
proof -
  have conn: "sy_conns (waiting\<lparr>sy_gw := shut_gw\<rparr>) 1 = Some waiting_conn" by (simp add: waiting_def)
  have ph: "cn_phase waiting_conn = Streaming"
    by (simp add: waiting_conn_def resume_stream_def Let_def split: prod.splits)
  have chan: "gw_chans (sy_gw (waiting\<lparr>sy_gw := shut_gw\<rparr>)) 1 = Some shut_chan" "ch_closed shut_chan"
    by (simp_all add: shut_gw_def shut_chan_def)
  have w: "\<forall>k. rs_ok (cn_resp waiting_conn) k" "\<forall>f \<in> set (ch_buf shut_chan). marshal_frame sample_lib f \<noteq> None"
    "sy_taken (waiting\<lparr>sy_gw := shut_gw\<rparr>) 1 = []" "ch_buf shut_chan = [zero_frame]"
    by (simp_all add: waiting_conn_def resume_stream_def replay_def writeFrame_def http_simps fresh_conn_def new_resp_def
        waiting_def two_sent_def two_state_def shut_chan_def marshal_frame_def frame_members_def zero_frame_def sse_headers_def member_float_ptr_def
        sample_lib_def text_time_def text_float_def Let_def)
  from dropped_client_let_go [OF two_gw_new shut_reachable conn ph chan, of sample_lib] w
  show ?thesis by force
qed

section \<open>After a shutdown\<close>

text \<open>
  \<open>Shutdown\<close> drops the clients of its moment and sets no flag: a connection that arrives before the
  listener closes is admitted, and no later step of the shutdown closes its channel.
\<close>

lemma register_after_shutdown:
  assumes "gw_ok g" and "go_max_clients (gw_opts g) \<ge> 1" and "Shutdown g = Some (b, g')"
  shows "\<exists>c n g''. register g' = (Some (c, n), g'') \<and> c \<in> set (gw_clients g'')"
proof -
  have "distinct (gw_clients g)" using assms(1) by (simp add: gw_ok_def)
  from drop_all_spec [OF assms(1) this order_refl] assms(3)
  have "gw_clients g' = []" "gw_opts g' = gw_opts g" by (auto simp: Shutdown_def)
  with assms(2) show ?thesis by (simp add: register_def Let_def)
qed

end
