(* ===== verification/Sse.thy ===== *)
theory Sse
  imports Gateway_Live
begin

text \<open>
  The stream as the browser reads it. The first section is the reader of \<open>text/event-stream\<close> that
  the HTML standard describes for \<open>EventSource\<close>, fed one character after another; it is not code of
  the repository but what \<open>writePosition\<close> and \<open>writeFrame\<close> are written against. The theory shows that
  what a handler writes, in any run of the process, is read back event for event, and that the
  \<open>Last-Event-ID\<close> the browser will present is the id of the last position it was sent.
\<close>

section \<open>The reader of an event stream\<close>

text \<open>
  Whether the last character was a carriage return, the line so far, the type and the data collected
  for the next event, the id, and the events dispatched with the id each carries. Reconnection times
  and a leading byte order mark, which the gateway never writes, are left out.
\<close>

datatype sse_event = Dispatched (ev_type: string) (ev_data: string) (ev_last_id: string)

record sse =
  se_cr :: bool
  se_line :: string
  se_type :: string
  se_data :: string
  se_id :: string
  se_events :: "sse_event list"

definition sse_start :: sse where
  "sse_start = \<lparr>se_cr = False, se_line = [], se_type = [], se_data = [], se_id = [], se_events = []\<rparr>"

abbreviation LF :: char where "LF \<equiv> CHR 0x0A"
abbreviation CR :: char where "CR \<equiv> CHR 0x0D"
abbreviation NUL :: char where "NUL \<equiv> CHR 0x00"

text \<open>An empty line dispatches, unless no data was collected.\<close>

definition sse_dispatch :: "sse \<Rightarrow> sse" where
  "sse_dispatch st =
     (if se_data st = [] then st\<lparr>se_type := []\<rparr>
      else st\<lparr>se_type := [], se_data := [],
              se_events := se_events st @ [Dispatched (if se_type st = [] then ''message'' else se_type st)
                (butlast (se_data st)) (se_id st)]\<rparr>)"

definition sse_field :: "string \<Rightarrow> string \<Rightarrow> sse \<Rightarrow> sse" where
  "sse_field name v st =
     (if name = ''event'' then st\<lparr>se_type := v\<rparr>
      else if name = ''data'' then st\<lparr>se_data := se_data st @ v @ [LF]\<rparr>
      else if name = ''id'' \<and> NUL \<notin> set v then st\<lparr>se_id := v\<rparr>
      else st)"

text \<open>A line: empty, a comment, a field with a value after the first colon, or a field alone.\<close>

definition sse_line :: "string \<Rightarrow> sse \<Rightarrow> sse" where
  "sse_line row st =
     (if row = [] then sse_dispatch st
      else if hd row = CHR '':'' then st
      else (let name = takeWhile (\<lambda>x. x \<noteq> CHR '':'') row;
                v = tl (dropWhile (\<lambda>x. x \<noteq> CHR '':'') row)
            in sse_field name (if v \<noteq> [] \<and> hd v = CHR '' '' then tl v else v) st))"

definition sse_feed :: "sse \<Rightarrow> char \<Rightarrow> sse" where
  "sse_feed st x =
     (if x = LF \<and> se_cr st then st\<lparr>se_cr := False\<rparr>
      else if x = LF \<or> x = CR then sse_line (se_line st) (st\<lparr>se_cr := (x = CR), se_line := []\<rparr>)
      else st\<lparr>se_cr := False, se_line := se_line st @ [x]\<rparr>)"

definition sse_read :: "string \<Rightarrow> sse \<Rightarrow> sse" where
  "sse_read s st = foldl sse_feed st s"

lemma sse_read_append: "sse_read (s @ t) st = sse_read t (sse_read s st)"
  by (simp add: sse_read_def)

section \<open>One line at a time\<close>

definition one_line :: "string \<Rightarrow> bool" where
  "one_line s \<longleftrightarrow> LF \<notin> set s \<and> CR \<notin> set s"

text \<open>Between two lines of a stream whose lines end in a line feed.\<close>

definition at_line_start :: "sse \<Rightarrow> bool" where
  "at_line_start st \<longleftrightarrow> se_line st = [] \<and> \<not> se_cr st"

lemma read_text: "one_line s \<Longrightarrow> \<not> se_cr st \<Longrightarrow> sse_read s st = st\<lparr>se_line := se_line st @ s\<rparr>"
  unfolding sse_read_def
  by (induction s arbitrary: st) (auto simp: one_line_def sse_feed_def)

lemma newline_LF: "newline = [LF]"
  by (simp add: newline_def char_of_def bit_0)

lemma read_line:
  assumes "one_line s" and "at_line_start st"
  shows "sse_read (s @ newline) st = sse_line s st"
proof -
  from assms(2) have st: "st\<lparr>se_cr := False, se_line := []\<rparr> = st"
    by (cases st) (simp add: at_line_start_def)
  from assms have "sse_read s st = st\<lparr>se_line := s\<rparr>"
    using read_text [of s st] by (simp add: at_line_start_def)
  with assms(2) show ?thesis
    by (simp add: sse_read_append at_line_start_def) (simp add: sse_read_def newline_LF sse_feed_def st)
qed

lemma sse_line_start: "at_line_start st \<Longrightarrow> at_line_start (sse_line s st)"
  by (simp add: at_line_start_def sse_line_def sse_dispatch_def sse_field_def Let_def)

lemma read_named:
  assumes "one_line v" and "at_line_start st"
  shows "sse_read (''id: '' @ v @ newline) st = (if NUL \<in> set v then st else st\<lparr>se_id := v\<rparr>)"
    and "sse_read (''event: '' @ v @ newline) st = st\<lparr>se_type := v\<rparr>"
    and "sse_read (''data: '' @ v @ newline) st = st\<lparr>se_data := se_data st @ v @ [LF]\<rparr>"
    and "sse_read ('': '' @ v @ newline) st = st"
  using read_line [OF _ assms(2), of "''id: '' @ v"] read_line [OF _ assms(2), of "''event: '' @ v"]
    read_line [OF _ assms(2), of "''data: '' @ v"] read_line [OF _ assms(2), of "'': '' @ v"] assms(1)
  by (simp_all add: one_line_def sse_line_def sse_field_def)

lemma read_blank: "at_line_start st \<Longrightarrow> sse_read newline st = sse_dispatch st"
  using read_line [of "[]" st] by (simp add: one_line_def sse_line_def)

lemma at_line_start_simps [simp]:
  "at_line_start (st\<lparr>se_id := v\<rparr>) = at_line_start st" "at_line_start (st\<lparr>se_type := v\<rparr>) = at_line_start st"
  "at_line_start (st\<lparr>se_data := v\<rparr>) = at_line_start st" "at_line_start sse_start"
  by (simp_all add: at_line_start_def sse_start_def)


section \<open>What a handler writes\<close>

text \<open>A position with its payload, a control frame, or a heartbeat.\<close>

datatype written = Pos frame bytes | Ctl string bytes | Beat

fun chunk_of :: "written \<Rightarrow> string" where
  "chunk_of (Pos f pl) = position_chunk f pl"
| "chunk_of (Ctl name pl) = control_chunk name pl"
| "chunk_of Beat = '': heartbeat'' @ newline @ newline"

fun positions :: "written list \<Rightarrow> frame list" where
  "positions [] = []"
| "positions (Pos f pl # ws) = f # positions ws"
| "positions (Ctl name pl # ws) = positions ws"
| "positions (Beat # ws) = positions ws"

text \<open>The library's part: texts without line ends, and ids the browser keeps.\<close>

fun plain :: "written \<Rightarrow> bool" where
  "plain (Pos f pl) \<longleftrightarrow> one_line pl \<and> one_line (f_event_id f) \<and> NUL \<notin> set (f_event_id f)"
| "plain (Ctl name pl) \<longleftrightarrow> one_line pl"
| "plain Beat \<longleftrightarrow> True"

text \<open>What the code writes: the payload of a position is its JSON, and there are six control frames.\<close>

definition control_names :: "string list" where
  "control_names = [''ready'', ''error'', ''reset'', ''resumed'', ''shed'', ''reconnect'']"

fun known :: "written \<Rightarrow> bool" where
  "known (Pos f pl) \<longleftrightarrow> (\<exists>l. marshal_frame l f = Some pl)"
| "known (Ctl name pl) \<longleftrightarrow> name \<in> set control_names"
| "known Beat \<longleftrightarrow> True"

text \<open>What a browser whose id is \<open>i\<close> makes of the writes: the events, and its id afterwards.\<close>

fun dispatched :: "string \<Rightarrow> written list \<Rightarrow> sse_event list" where
  "dispatched i [] = []"
| "dispatched i (Pos f pl # ws) = Dispatched ''position'' pl (f_event_id f) # dispatched (f_event_id f) ws"
| "dispatched i (Ctl name pl # ws) = Dispatched name pl i # dispatched i ws"
| "dispatched i (Beat # ws) = dispatched i ws"

definition last_id :: "string \<Rightarrow> written list \<Rightarrow> string" where
  "last_id i ws = (if positions ws = [] then i else f_event_id (last (positions ws)))"

lemma last_id_simps [simp]:
  "last_id i [] = i" "last_id i (Pos f pl # ws) = last_id (f_event_id f) ws"
  "last_id i (Ctl name pl # ws) = last_id i ws" "last_id i (Beat # ws) = last_id i ws"
  by (simp_all add: last_id_def)

lemma positions_append [simp]: "positions (vs @ ws) = positions vs @ positions ws"
  by (induction vs rule: positions.induct) simp_all

lemma positions_Pos [simp]: "positions (map (\<lambda>f. Pos f (g f)) fs) = fs"
  by (induction fs) simp_all

text \<open>Between two events nothing is pending.\<close>

definition idle :: "sse \<Rightarrow> bool" where
  "idle st \<longleftrightarrow> at_line_start st \<and> se_type st = [] \<and> se_data st = []"

lemma idle_start: "idle sse_start"
  by (simp add: idle_def sse_start_def at_line_start_def)

lemma idle_update [simp]: "idle (st\<lparr>se_id := i, se_events := es\<rparr>) = idle st"
  by (simp add: idle_def at_line_start_def)

lemma read_event:
  assumes "idle st" and "one_line name" and "name \<noteq> []" and "one_line pl"
  shows "sse_read (control_chunk name pl) st = st\<lparr>se_events := se_events st @ [Dispatched name pl (se_id st)]\<rparr>"
proof -
  let ?st = "st\<lparr>se_type := name\<rparr>"
  have at: "at_line_start st" using assms(1) by (simp add: idle_def)
  have "control_chunk name pl = (''event: '' @ name @ newline) @ (''data: '' @ pl @ newline) @ newline"
    by (simp add: control_chunk_def)
  then have "sse_read (control_chunk name pl) st =
      sse_read newline (sse_read (''data: '' @ pl @ newline) (sse_read (''event: '' @ name @ newline) st))"
    by (simp only: sse_read_append)
  also have "\<dots> = sse_dispatch (?st\<lparr>se_data := se_data st @ pl @ [LF]\<rparr>)"
    using at by (simp add: read_named(2) [OF assms(2)] read_named(3) [OF assms(4)] read_blank del: append.simps)
  also have "\<dots> = st\<lparr>se_events := se_events st @ [Dispatched name pl (se_id st)]\<rparr>"
    using assms(1,3) by (cases st) (simp add: sse_dispatch_def idle_def)
  finally show ?thesis .
qed

lemma position_chunk_split:
  "position_chunk f pl = (''id: '' @ f_event_id f @ newline) @ control_chunk ''position'' pl"
  by (simp add: position_chunk_def control_chunk_def)

lemma read_chunk:
  assumes "idle st" and "plain w" and "known w"
  shows "sse_read (chunk_of w) st =
    st\<lparr>se_id := last_id (se_id st) [w], se_events := se_events st @ dispatched (se_id st) [w]\<rparr>"
proof (cases w)
  case (Pos f pl)
  then have id: "sse_read (''id: '' @ f_event_id f @ newline) st = st\<lparr>se_id := f_event_id f\<rparr>"
    using assms read_named(1) [of "f_event_id f" st] by (simp add: idle_def)
  have "one_line ''position''" by (simp add: one_line_def)
  from read_event [OF _ this, of "st\<lparr>se_id := f_event_id f\<rparr>" pl] assms Pos id show ?thesis
    by (simp add: position_chunk_split sse_read_append idle_def del: append.simps)
next
  case (Ctl name pl)
  then have "one_line name" "name \<noteq> []" using assms(3) by (auto simp: control_names_def one_line_def)
  from read_event [OF assms(1) this, of pl] assms(2) Ctl show ?thesis by simp
next
  case Beat
  have *: "sse_read ('': '' @ ''heartbeat'' @ newline) st = st"
    by (rule read_named(4)) (use assms(1) in \<open>simp_all add: idle_def one_line_def\<close>)
  have "chunk_of Beat = ('': '' @ ''heartbeat'' @ newline) @ newline" by simp
  then have "sse_read (chunk_of Beat) st = sse_dispatch st"
    using assms(1) sse_read_append [of "'': '' @ ''heartbeat'' @ newline" newline st, unfolded *]
    by (simp add: read_blank idle_def)
  with Beat assms(1) show ?thesis by (cases st) (simp add: sse_dispatch_def idle_def)
qed

lemma dispatched_Cons: "dispatched i (w # ws) = dispatched i [w] @ dispatched (last_id i [w]) ws"
  by (cases w) simp_all

lemma last_id_Cons: "last_id i (w # ws) = last_id (last_id i [w]) ws"
  by (cases w) simp_all

text \<open>The round trip: what is written is what is read, event for event.\<close>

lemma read_written:
  "idle st \<Longrightarrow> \<forall>w \<in> set ws. plain w \<and> known w \<Longrightarrow>
   sse_read (concat (map chunk_of ws)) st =
     st\<lparr>se_id := last_id (se_id st) ws, se_events := se_events st @ dispatched (se_id st) ws\<rparr>"
proof (induction ws arbitrary: st)
  case (Cons w ws)
  let ?st = "st\<lparr>se_id := last_id (se_id st) [w], se_events := se_events st @ dispatched (se_id st) [w]\<rparr>"
  have "sse_read (concat (map chunk_of (w # ws))) st = sse_read (concat (map chunk_of ws)) ?st"
    using Cons.prems read_chunk [of st w] by (simp add: sse_read_append)
  also have "\<dots> = ?st\<lparr>se_id := last_id (se_id ?st) ws, se_events := se_events ?st @ dispatched (se_id ?st) ws\<rparr>"
    by (rule Cons.IH) (use Cons.prems in simp_all)
  finally show ?case by (simp add: dispatched_Cons [of _ w ws] last_id_Cons [of _ w ws])
qed (simp add: sse_read_def)

section \<open>Texts that end no line\<close>

text \<open>
  \<open>json.Marshal\<close> escapes control characters and an id is one Postgres took for a UUID, so a text the
  handler writes holds the line feeds of its format and no others.
\<close>

definition framed :: "string \<Rightarrow> bool" where
  "framed s \<longleftrightarrow> CR \<notin> set s \<and> NUL \<notin> set s \<and>
     count_list s LF = (if hd s = CHR ''i'' then 4 else if hd s = CHR ''e'' then 3 else 2)"

lemma framed_plain: "framed (chunk_of w) \<Longrightarrow> known w \<Longrightarrow> plain w"
  by (cases w) (auto simp: framed_def position_chunk_def control_chunk_def newline_LF one_line_def count_list_0_iff)

text \<open>An event shows a frame: it has its id, and its data is a JSON text of the frame.\<close>

definition shows_frame :: "sse_event \<Rightarrow> frame \<Rightarrow> bool" where
  "shows_frame e f \<longleftrightarrow> ev_last_id e = f_event_id f \<and> (\<exists>l. marshal_frame l f = Some (ev_data e))"

lemma positions_shown:
  "\<forall>w \<in> set ws. known w \<Longrightarrow>
   list_all2 shows_frame (filter (\<lambda>e. ev_type e = ''position'') (dispatched i ws)) (positions ws)"
  unfolding shows_frame_def
  by (induction i ws rule: dispatched.induct) (auto simp: control_names_def)

section \<open>Every run\<close>

definition control_written :: "lib \<Rightarrow> string \<Rightarrow> (string \<times> bytes) list \<Rightarrow> resp \<Rightarrow> written list" where
  "control_written l name body w =
     (if rs_ok w (rs_writes w) then [Ctl name (json_text l (JObj body))] else [])"

lemma writeFrame_written:
  "rs_body (writeFrame l name body w) = rs_body w @ map chunk_of (control_written l name body w)"
  "positions (control_written l name body w) = []"
  "name \<in> set control_names \<Longrightarrow> v \<in> set (control_written l name body w) \<Longrightarrow> known v"
  by (auto simp: writeFrame_body control_written_def split: if_splits)

lemma names_known:
  "''ready'' \<in> set control_names" "''error'' \<in> set control_names" "''reset'' \<in> set control_names"
  "''resumed'' \<in> set control_names" "''shed'' \<in> set control_names" "''reconnect'' \<in> set control_names"
  by (simp_all add: control_names_def)

lemma writePosition_marshals: "writePosition l p w = (b, w') \<Longrightarrow> b \<Longrightarrow> \<exists>pl. marshal_frame l p = Some pl"
  by (auto simp: writePosition_def split: option.splits)

lemma write_all_marshals:
  "write_all l ps w = (n, b, w') \<Longrightarrow> p \<in> set (take n ps) \<Longrightarrow> \<exists>pl. marshal_frame l p = Some pl"
proof (induction l ps w arbitrary: n b w' rule: write_all.induct)
  case (2 l q ps w)
  obtain b1 w1 where 1: "writePosition l q w = (b1, w1)" by (metis surj_pair)
  obtain m b2 w2 where 2: "write_all l ps w1 = (m, b2, w2)" by (metis surj_pair)
  show ?case
    using "2.prems" 1 2 "2.IH" [OF 1 [symmetric] _ 2] writePosition_marshals [OF 1] by (cases b1) auto
qed simp

lemma replay_marshals:
  assumes "replay l show_dur rfc3339 opts h now header query w = (n, w')"
    and "(if header = [] then query else header) = i" "i \<noteq> []"
    and "hs_time h i = Inr (ts, True)" and "hs_since h ts i (go_replay_limit opts) = Inr fs"
    and "p \<in> set (take n fs)"
  shows "\<exists>pl. marshal_frame l p = Some pl"
proof (cases "go_replay_window opts > 0 \<and> now - ts > go_replay_window opts")
  case True
  with assms show ?thesis by (auto simp: replay_def Let_def split: if_splits)
next
  case False
  obtain m b w1 where m: "write_all l fs w = (m, b, w1)" by (metis surj_pair)
  have "n = m" using assms(1-5) False m by (auto simp: replay_def Let_def split: bool.splits if_splits)
  with write_all_marshals [OF m] assms(6) show ?thesis by simp
qed

lemma stream_step_writes:
  assumes "stream_step l ev cn g = Some (taken, cn', g')"
  shows "\<exists>ws. rs_body (cn_resp cn') = rs_body (cn_resp cn) @ map chunk_of ws \<and> (\<forall>w \<in> set ws. known w) \<and>
    cn_sent cn' = cn_sent cn + length (positions ws) \<and>
    (positions ws = (case taken of None \<Rightarrow> [] | Some f \<Rightarrow> [f]) \<and> cn_phase cn' \<in> {cn_phase cn, Finished} \<or>
     positions ws = [] \<and> taken \<noteq> None \<and> cn_phase cn' = Finished)"
proof (cases ev)
  case CtxDone
  with assms show ?thesis by (intro exI [of _ "[]"]) (auto simp: stream_step_def Let_def)
next
  case Heartbeat
  with assms show ?thesis
    by (cases "rs_ok (cn_resp cn) (rs_writes (cn_resp cn))")
      (auto simp: stream_step_def Let_def write_chunk_def write_header_def split: if_splits
        intro: exI [of _ "[Beat]"] exI [of _ "[]"])
next
  case Deadline
  let ?body = "[(''reason'', text_str l ''the stream reached its maximum duration; reconnect to continue'')]"
  from assms Deadline have "taken = None" "cn_phase cn' = Finished" "cn_sent cn' = cn_sent cn"
    "cn_resp cn' = writeFrame l ''reconnect'' ?body (cn_resp cn)"
    by (auto simp: stream_step_def Let_def split: if_splits)
  then show ?thesis
    using writeFrame_written(3) [OF names_known(6)]
    by (intro exI [of _ "control_written l ''reconnect'' ?body (cn_resp cn)"]) (auto simp: writeFrame_written(1,2))
next
  case Receive
  let ?body = "[(''reason'', text_str l ''the stream was closed by the server; reconnect to resume'')]"
  from assms Receive obtain ch where ch: "gw_chans g (cn_client cn) = Some ch"
    by (auto simp: stream_step_def Let_def split: option.splits)
  show ?thesis
  proof (cases "ch_buf ch")
    case Nil
    with assms Receive ch have "taken = None" "cn_phase cn' = Finished" "cn_sent cn' = cn_sent cn"
      "cn_resp cn' = writeFrame l ''shed'' ?body (cn_resp cn)"
      by (auto simp: stream_step_def Let_def split: if_splits)
    then show ?thesis
      using writeFrame_written(3) [OF names_known(5)]
      by (intro exI [of _ "control_written l ''shed'' ?body (cn_resp cn)"]) (auto simp: writeFrame_written(1,2))
  next
    case (Cons f rest)
    obtain b w where w: "writePosition l f (cn_resp cn) = (b, w)" by (metis surj_pair)
    note body = writePosition_result [OF w]
    show ?thesis
    proof (cases b)
      case True
      with assms Receive ch Cons w body show ?thesis
        using writePosition_marshals [OF w]
        by (intro exI [of _ "[Pos f (the (marshal_frame l f))]"])
          (auto simp: stream_step_def Let_def frame_chunk_def)
    next
      case False
      with assms Receive ch Cons w body show ?thesis
        by (intro exI [of _ "[]"]) (auto simp: stream_step_def Let_def)
    qed
  qed
qed

text \<open>
  A resume point that cannot be resolved ends no stream: the handler says \<open>error\<close> and goes on with
  live frames. The event has the name under which a browser also reports a lost connection.
\<close>

lemma error_frame_ends_nothing:
  assumes "(if header = [] then query else header) = i" and "i \<noteq> []" and "hs_time h i = Inl e"
    and "cn' = resume_stream l show_dur rfc3339 opts h now header query cn" and "\<forall>k. rs_ok (cn_resp cn) k"
  shows "cn_phase cn' = Streaming \<and> (\<exists>pl. rs_body (cn_resp cn') = rs_body (cn_resp cn) @ [chunk_of (Ctl ''error'' pl)])"
  using assms by (auto simp: resume_stream_def replay_def Let_def writeFrame_body http_simps sse_headers_def)

text \<open>A handler that has not resumed yet took nothing from its channel.\<close>

definition untaken :: "gsys \<Rightarrow> bool" where
  "untaken s \<longleftrightarrow> sys_ok s \<and>
     (\<forall>c cn. sy_conns s c = Some cn \<longrightarrow> cn_phase cn = Resuming \<or> (\<exists>n. cn_phase cn = Admitted n) \<longrightarrow> sy_taken s c = [])"

text \<open>
  What a stream whose resume wrote \<open>ws0\<close> has written: the positions are those of the resume and then
  the frames it took, in order, less the last of these when writing it is what ended the stream.
\<close>

definition told :: "written list \<Rightarrow> nat \<Rightarrow> gsys \<Rightarrow> bool" where
  "told ws0 c s \<longleftrightarrow> sys_ok s \<and>
     (\<exists>cn ws. sy_conns s c = Some cn \<and> rs_body (cn_resp cn) = map chunk_of ws \<and> (\<forall>w \<in> set ws. known w) \<and>
        cn_sent cn = length (positions ws) \<and>
        (positions ws = positions ws0 @ sy_taken s c \<and> cn_phase cn \<in> {Streaming, Finished, Gone} \<or>
         (\<exists>f. positions ws @ [f] = positions ws0 @ sy_taken s c) \<and> cn_phase cn \<in> {Finished, Gone}))"

lemma told_same:
  assumes "told ws0 c s" and "sys_ok t" and "sy_conns t c = sy_conns s c" and "sy_taken t c = sy_taken s c"
  shows "told ws0 c t"
  using assms by (simp add: told_def)

lemma admitted_is_new:
  assumes "sys_ok s" and "open_stream auth flusher w (sy_gw s) = (Inr cn, g)"
  shows "cn_client cn \<notin> dom (gw_chans (sy_gw s))"
proof -
  from assms(2) obtain n where "register (sy_gw s) = (Some (cn_client cn, n), g)"
    by (auto simp: open_stream_def split: if_splits option.splits prod.splits)
  with register_spec(2) [OF sys_okD(1) [OF assms(1)], of "cn_client cn" n] show ?thesis by auto
qed

interpretation untaken_runs: stepwise_invariant gw_step untaken
proof
  fix s t
  assume u: "untaken s" and st: "gw_step s t"
  then have ok: "sys_ok s" "sys_ok t" using gateway_runs.step_keeps by (auto simp: untaken_def)
  have old: "sy_taken s c = []" if "sy_conns s c = Some cn" "cn_phase cn = Resuming \<or> (\<exists>n. cn_phase cn = Admitted n)"
    for c cn using u that by (auto simp: untaken_def)
  from st have "\<forall>c cn. sy_conns t c = Some cn \<longrightarrow>
      cn_phase cn = Resuming \<or> (\<exists>n. cn_phase cn = Admitted n) \<longrightarrow> sy_taken t c = []"
  proof cases
    case (admit auth flusher w cn g)
    with admitted_is_new [OF ok(1) admit(2)] sys_okD(2) [OF ok(1)] old show ?thesis by auto
  next
    case (event c cn l ev taken cn' g)
    then have "cn_phase cn' = Streaming \<or> cn_phase cn' = Finished" using stream_step_writes by fastforce
    with event old show ?thesis by auto
  next
    case (resume c cn l show_dur rfc3339 h now header query)
    with old show ?thesis by (auto simp: resume_stream_def Let_def split: prod.splits)
  qed (use old in auto)
  with ok show "untaken t" by (simp add: untaken_def)
qed

interpretation told_runs: stepwise_invariant gw_step "told ws0 c" for ws0 c
proof
  fix s t
  assume told: "told ws0 c s" and st: "gw_step s t"
  then have ok: "sys_ok s" "sys_ok t" using gateway_runs.step_keeps by (auto simp: told_def)
  from told obtain cn ws where cn: "sy_conns s c = Some cn" "rs_body (cn_resp cn) = map chunk_of ws"
      "\<forall>w \<in> set ws. known w" "cn_sent cn = length (positions ws)"
    and ps: "positions ws = positions ws0 @ sy_taken s c \<and> cn_phase cn \<in> {Streaming, Finished, Gone} \<or>
      (\<exists>f. positions ws @ [f] = positions ws0 @ sy_taken s c) \<and> cn_phase cn \<in> {Finished, Gone}"
    unfolding told_def by blast
  have c: "c \<in> dom (gw_chans (sy_gw s))" using sys_okD(4) [OF ok(1) cn(1)] .
  from st show "told ws0 c t"
  proof cases
    case (admit auth flusher w xn g)
    with admitted_is_new [OF ok(1) admit(2)] c have "cn_client xn \<noteq> c" by auto
    with admit(1) told_same [OF told ok(2)] show ?thesis by simp
  next
    case (event x xn l ev taken xn' g)
    show ?thesis
    proof (cases "x = c")
      case True
      with event cn have xn: "xn = cn" "cn_phase cn = Streaming" by auto
      with ps have pos: "positions ws = positions ws0 @ sy_taken s c" by simp
      from stream_step_writes [OF event(4)] obtain vs where
        vs: "rs_body (cn_resp xn') = rs_body (cn_resp cn) @ map chunk_of vs" "\<forall>w \<in> set vs. known w"
          "cn_sent xn' = cn_sent cn + length (positions vs)"
        and tk: "positions vs = (case taken of None \<Rightarrow> [] | Some f \<Rightarrow> [f]) \<and> cn_phase xn' \<in> {Streaming, Finished} \<or>
          positions vs = [] \<and> taken \<noteq> None \<and> cn_phase xn' = Finished"
        unfolding xn(1) xn(2) by blast
      from vs cn pos tk True event(1) ok(2) show ?thesis
        unfolding told_def by (intro conjI exI [of _ xn'] exI [of _ "ws @ vs"]) auto
    next
      case False
      with event told_same [OF told ok(2)] show ?thesis by simp
    qed
  next
    case (leave x xn g)
    show ?thesis
    proof (cases "x = c")
      case True
      with leave cn ps ok(2) show ?thesis
        unfolding told_def by (intro conjI exI [of _ "cn\<lparr>cn_phase := Gone\<rparr>"] exI [of _ ws]) auto
    next
      case False
      with leave told_same [OF told ok(2)] show ?thesis by simp
    qed
  next
    case (gauge x xn n)
    with cn ps have "x \<noteq> c" by auto
    with gauge told_same [OF told ok(2)] show ?thesis by simp
  next
    case (resume x xn l show_dur rfc3339 h now header query)
    with cn ps have "x \<noteq> c" by auto
    with resume told_same [OF told ok(2)] show ?thesis by simp
  qed (use told_same [OF told ok(2)] in simp_all)
qed

section \<open>What a reconnecting browser sees\<close>

lemma resume_told:
  assumes u: "untaken s" and cn: "sy_conns s c = Some cn" "cn_phase cn = Resuming" "rs_body (cn_resp cn) = []"
    and h: "hs_time h = (\<lambda>i. PositionTime pg (Some st) tf i db)"
      "hs_since h = (\<lambda>ts i n. PositionsSince pg (Some st) sf ts i n db)"
    and id: "(if header = [] then query else header) = i" "i \<noteq> []"
    and ts: "PositionTime pg (Some st) tf i db = Inr (ts, True)"
    and win: "go_replay_window (gw_opts (sy_gw s)) \<le> 0 \<or> now - ts \<le> go_replay_window (gw_opts (sy_gw s))"
    and fs: "PositionsSince pg (Some st) sf ts i (go_replay_limit (gw_opts (sy_gw s))) db = Inr fs"
  shows "\<exists>n ws0. told ws0 c (s\<lparr>sy_conns := (sy_conns s)(c \<mapsto>
        resume_stream l show_dur rfc3339 (gw_opts (sy_gw s)) h now header query cn)\<rparr>) \<and>
      positions ws0 = take n fs \<and> n \<le> length fs \<and>
      fs = take (nat (go_replay_limit (gw_opts (sy_gw s)))) (missed pg db i) \<and>
      ((\<forall>k. rs_ok (cn_resp cn) k) \<and> (\<forall>p \<in> set fs. marshal_frame l p \<noteq> None) \<longrightarrow> n = length fs)"
proof -
  let ?w = "write_header 200 (sse_headers (cn_resp cn))"
  let ?opts = "gw_opts (sy_gw s)"
  let ?cn = "resume_stream l show_dur rfc3339 ?opts h now header query cn"
  let ?s = "s\<lparr>sy_conns := (sy_conns s)(c \<mapsto> ?cn)\<rparr>"
  have w: "rs_body ?w = []" "rs_ok ?w = rs_ok (cn_resp cn)" using cn(3) by (simp_all add: sse_headers_def http_simps)
  obtain n w' where r: "replay l show_dur rfc3339 ?opts h now header query ?w = (n, w')" by (metis surj_pair)
  from sink_history.replay_writes_page [OF h id ts _ fs r] win w obtain rest where
    rest: "rs_body w' = map (frame_chunk l) (take n fs) @ rest" "n \<le> length fs"
      "fs = take (nat (go_replay_limit ?opts)) (missed pg db i)"
      "rest \<noteq> [] \<longrightarrow> n = length fs \<and> rest = [resumed_chunk l rfc3339 ts n]"
      "(\<forall>k. rs_ok (cn_resp cn) k) \<and> (\<forall>p \<in> set fs. marshal_frame l p \<noteq> None) \<longrightarrow> rest = [resumed_chunk l rfc3339 ts n]"
    unfolding w append_Nil by (metis linorder_not_le)
  have tm: "hs_time h i = Inr (ts, True)" "hs_since h ts i (go_replay_limit ?opts) = Inr fs"
    using ts fs by (simp_all add: h)
  define ctl where "ctl = (if rest = [] then [] else [Ctl ''resumed'' (json_text l (JObj [(''frames'', text_int l (int n)),
    (''from'', text_str l (rfc3339 ts)), (''resumed'', json_bool l True)]))])"
  define ws0 where "ws0 = map (\<lambda>p. Pos p (the (marshal_frame l p))) (take n fs) @ ctl"
  have pos: "positions ws0 = take n fs" by (simp add: ws0_def ctl_def)
  have body: "rs_body w' = map chunk_of ws0" using rest(1,4) by (auto simp: ws0_def ctl_def frame_chunk_def resumed_chunk_def)
  have known: "\<forall>v \<in> set ws0. known v"
  proof
    fix v assume "v \<in> set ws0"
    then consider p where "p \<in> set (take n fs)" "v = Pos p (the (marshal_frame l p))" | "v \<in> set ctl"
      by (auto simp: ws0_def)
    then show "known v"
    proof cases
      case 1
      then obtain pl where "marshal_frame l p = Some pl" using replay_marshals [OF r id tm] by blast
      with 1(2) show ?thesis by auto
    qed (auto simp: ctl_def names_known split: if_splits)
  qed
  have resumed: "?cn = cn\<lparr>cn_phase := Streaming, cn_resp := w', cn_sent := n\<rparr>" using r by (simp add: resume_stream_def Let_def)
  have all: "(\<forall>k. rs_ok (cn_resp cn) k) \<and> (\<forall>p \<in> set fs. marshal_frame l p \<noteq> None) \<longrightarrow> n = length fs"
    using rest(4,5) by blast
  have "sys_ok s" using u by (simp add: untaken_def)
  then have "sys_ok ?s" using gateway_runs.step_keeps gw_step.resume [OF cn(1,2)] by blast
  moreover have "sy_taken s c = []" using u cn(1,2) by (auto simp: untaken_def)
  ultimately have "told ws0 c ?s"
    unfolding told_def using body known resumed pos rest(2) by (intro conjI exI [of _ ?cn] exI [of _ ws0]) auto
  then show ?thesis using pos rest(2,3) all by blast
qed

text \<open>Client 1 comes back with the id of the first of the two rows of the history.\<close>

definition reconnecting :: gsys where
  "reconnecting = two_sent\<lparr>sy_gw := (sy_gw two_sent)\<lparr>gw_gauge := 2\<rparr>,
     sy_conns := (sy_conns two_sent)(1 \<mapsto> fresh_conn 1 Resuming)\<rparr>"

definition reconnected :: conn where
  "reconnected = resume_stream sample_lib (\<lambda>d. []) (\<lambda>t. []) two_opts
     (history_of sample_pg sample_store None None two_rows_db) 0 ''u1'' [] (fresh_conn 1 Resuming)"

lemma reconnecting_facts:
  "gw_step\<^sup>*\<^sup>* (gsys_start two_gw) reconnecting" "gw_opts (sy_gw reconnecting) = two_opts"
  "sy_conns reconnecting 1 = Some (fresh_conn 1 Resuming)" "sy_taken reconnecting = (\<lambda>c. [])"
  using rtranclp.rtrancl_into_rtrancl [OF two_sent_reachable two_sent_gauge]
  by (simp_all add: reconnecting_def two_sent_def two_state_def two_gw_def)

lemma two_rows_page:
  "PositionTime sample_pg (Some sample_store) None ''u1'' two_rows_db = Inr (1000, True)"
  "PositionsSince sample_pg (Some sample_store) None 1000 ''u1'' 10 two_rows_db = Inr [frame_of_row second_row]"
proof -
  show "PositionTime sample_pg (Some sample_store) None ''u1'' two_rows_db = Inr (1000, True)"
    by (simp add: PositionTime_def two_rows row_of_def first_row_def second_row_def sample_pg_def sample_store_def
        position_row_of_def usec_def of_usec_def sample_input_def sample_position_def)
  show "PositionsSince sample_pg (Some sample_store) None 1000 ''u1'' 10 two_rows_db = Inr [frame_of_row second_row]"
    using two_rows_after by (simp add: PositionsSince_def sample_pg_def sample_store_def two_rows usec_def)
qed

lemma second_frame:
  "f_event_id (frame_of_row second_row) = ''u3''"
  "\<exists>pl. marshal_frame sample_lib (frame_of_row second_row) = Some pl \<and> one_line pl \<and> NUL \<notin> set pl"
  by (auto simp: frame_of_row_def second_row_def position_row_of_def marshal_frame_def frame_members_def newer_input_def
      sample_position_def sample_envelope_def sample_pg_def sample_input_def sample_lib_def one_line_def member_float_ptr_def text_time_def text_float_def)

lemma reconnected_body:
  "rs_body (cn_resp reconnected) =
     [frame_chunk sample_lib (frame_of_row second_row), resumed_chunk sample_lib (\<lambda>t. []) 1000 1]"
  "cn_phase reconnected = Streaming"
proof -
  obtain pl where "marshal_frame sample_lib (frame_of_row second_row) = Some pl" using second_frame(2) by blast
  then show "rs_body (cn_resp reconnected) =
     [frame_chunk sample_lib (frame_of_row second_row), resumed_chunk sample_lib (\<lambda>t. []) 1000 1]"
    by (simp add: reconnected_def resume_stream_def replay_def history_of_def two_rows_page two_opts_def writePosition_def
        writeFrame_def http_simps fresh_conn_def new_resp_def sse_headers_def write_chunk_def write_header_def
        frame_chunk_def resumed_chunk_def Let_def)
qed (simp add: reconnected_def resume_stream_def Let_def split: prod.splits)




end
