(* ===== verification/Seam.thy ===== *)
theory Seam
  imports Gateway_Resume
begin

text \<open>
  The sink and the gateway together, across the moment at which a resumed client passes from the
  history to the live bus. A step is an Apply of any consumer or a step of the gateway; the bus
  carries a frame only of an event that is in the history, which is what the consumer guarantees
  (\<open>bus_durable_and_once\<close>).
\<close>

section \<open>The two components side by side\<close>

definition published :: "pg_lib \<Rightarrow> sink_db \<Rightarrow> frame \<Rightarrow> bool" where
  "published pg db f \<longleftrightarrow>
     (\<exists>r \<in> set (vehicle_positions db). pg_uuid pg (f_event_id f) = Some (r_event_id r))"

inductive live_step :: "pg_lib \<Rightarrow> sink_db \<times> gsys \<Rightarrow> sink_db \<times> gsys \<Rightarrow> bool" for pg where
  sink: "Apply pg s env i db = (res, db') \<Longrightarrow> live_step pg (db, g) (db', g)"
| gateway: "gw_step g g' \<Longrightarrow> (\<And>f. f \<in> set (sy_sent g') - set (sy_sent g) \<Longrightarrow> published pg db f) \<Longrightarrow>
    live_step pg (db, g) (db, g')"

definition live_ok :: "pg_lib \<Rightarrow> sink_db \<times> gsys \<Rightarrow> bool" where
  "live_ok pg x \<longleftrightarrow> sink_inv (fst x) \<and> sys_ok (snd x) \<and>
     (\<forall>f \<in> set (sy_sent (snd x)). published pg (fst x) f)"

lemma Apply_history_grows:
  assumes "sink_inv db" and "Apply pg s env i db = (res, db')"
  shows "set (vehicle_positions db) \<subseteq> set (vehicle_positions db')"
  using assms by (cases rule: Apply_cases) (auto simp: apply_effect_def)

lemma published_mono:
  "published pg db f \<Longrightarrow> set (vehicle_positions db) \<subseteq> set (vehicle_positions db') \<Longrightarrow> published pg db' f"
  by (auto simp: published_def)

text \<open>A step of the gateway extends what was sent and moves no admitted client's starting point.\<close>

lemma gw_step_grows:
  assumes "gw_step s t" and "sys_ok s"
  shows "prefix (sy_sent s) (sy_sent t) \<and>
    (c \<in> dom (gw_chans (sy_gw s)) \<longrightarrow> c \<in> dom (gw_chans (sy_gw t)) \<and> sy_from t c = sy_from s c)"
  using assms
proof (induction rule: gw_step.induct)
  case (bus cs s pos g)
  note D = sys_okD [OF bus(4)]
  from broadcast_to_spec [OF D(1) bus(2), of pos] bus(1,3) have
    out: "c \<notin> set cs \<Longrightarrow> gw_chans g c = gw_chans (sy_gw s) c"
    and inn: "\<And>ch. c \<in> set cs \<Longrightarrow> gw_chans (sy_gw s) c = Some ch \<Longrightarrow> offered pos c ch g"
    by auto
  have "c \<in> dom (gw_chans g)" if "gw_chans (sy_gw s) c = Some ch" for ch
    using that out inn [OF _ that] by (cases "c \<in> set cs") (auto simp: offered_def split: if_splits)
  then show ?case by auto
next
  case (admit auth flusher w s cn g)
  then obtain n where "register (sy_gw s) = (Some (cn_client cn, n), g)"
    by (auto simp: open_stream_def split: if_splits option.splits prod.splits)
  with register_spec(2) [OF sys_okD(1) [OF admit(2)], of "cn_client cn" n]
  show ?case by auto
next
  case (refuse auth flusher w s w' g)
  then have "gw_chans g = gw_chans (sy_gw s)"
    by (auto simp: open_stream_def register_def Let_def split: if_splits option.splits prod.splits)
  then show ?case by simp
next
  case (event s d cn l ev taken cn' g)
  from stream_step_spec [OF event(3)] show ?case by (auto split: option.splits)
next
  case (leave s d cn g)
  have "d \<in> dom (gw_chans (sy_gw s))" by (rule sys_okD(4) [OF leave(4,1)])
  from unregister_spec [OF sys_okD(1) [OF leave(4)] this] leave(3)
  show ?case by (cases "c = d") auto
next
  case (stop s b g)
  from Shutdown_spec [OF sys_okD(1) [OF stop(2)]] stop(1)
  show ?case by (cases "c \<in> set (gw_clients (sy_gw s))") auto
qed (simp_all add: registered_def)

section \<open>What every run keeps\<close>

interpretation live_runs: stepwise_invariant "live_step pg" "live_ok pg" for pg
proof
  fix x y
  assume ok: "live_ok pg x" and "live_step pg x y"
  from \<open>live_step pg x y\<close> show "live_ok pg y"
  proof cases
    case (sink s env i db res db' g)
    with ok have "sink_inv db" by (simp add: live_ok_def)
    with Apply_inv [OF this, of pg s env i] Apply_history_grows [OF this sink(3)] ok sink show ?thesis
      by (auto simp: live_ok_def intro: published_mono)
  next
    case (gateway g g' db)
    with ok have "sys_ok g" by (simp add: live_ok_def)
    with gateway have "sys_ok g'" by (blast intro: gateway_runs.step_keeps)
    with ok gateway show ?thesis by (auto simp: live_ok_def)
  qed
qed

text \<open>The states that may follow \<open>x\<close>: the history and what was sent have only grown.\<close>

definition follows :: "pg_lib \<Rightarrow> sink_db \<times> gsys \<Rightarrow> nat \<Rightarrow> sink_db \<times> gsys \<Rightarrow> bool" where
  "follows pg x c y \<longleftrightarrow> live_ok pg y \<and> set (vehicle_positions (fst x)) \<subseteq> set (vehicle_positions (fst y)) \<and>
     prefix (sy_sent (snd x)) (sy_sent (snd y)) \<and> c \<in> dom (gw_chans (sy_gw (snd y))) \<and>
     sy_from (snd y) c = sy_from (snd x) c"

interpretation later_runs: stepwise_invariant "live_step pg" "follows pg x c" for pg x c
proof
  fix y z
  assume f: "follows pg x c y" and step: "live_step pg y z"
  have ok: "live_ok pg z" using live_runs.step_keeps [of pg y z] f step by (simp add: follows_def)
  from step show "follows pg x c z"
  proof cases
    case (sink s env i db res db' g)
    with f have "sink_inv db" by (simp add: follows_def live_ok_def)
    from Apply_history_grows [OF this sink(3)] f ok sink show ?thesis by (auto simp: follows_def)
  next
    case (gateway g g' db)
    with f have "sys_ok g" by (simp add: follows_def live_ok_def)
    from gw_step_grows [OF gateway(3) this, of c] f ok gateway show ?thesis
      by (auto simp: follows_def intro: prefix_order.trans)
  qed
qed

section \<open>No gap\<close>


section \<open>A run across the seam\<close>

definition one_gw :: gateway where
  "one_gw = two_gw\<lparr>gw_clients := [0], gw_chans := [0 \<mapsto> open_chan []], gw_next := 1\<rparr>"

definition one_sys :: gsys where
  "one_sys = (gsys_start two_gw)\<lparr>sy_gw := one_gw, sy_conns := [0 \<mapsto> fresh_conn 0 (Admitted 1)]\<rparr>"

definition u3_frame :: frame where
  "u3_frame = zero_frame\<lparr>f_event_id := ''u3''\<rparr>"

definition one_sent :: gsys where
  "one_sent = one_sys\<lparr>sy_gw := one_gw\<lparr>gw_chans := [0 \<mapsto> open_chan [u3_frame]]\<rparr>, sy_sent := [u3_frame]\<rparr>"

lemma one_steps: "gw_step (gsys_start two_gw) one_sys" "gw_step one_sys one_sent"
proof -
  show "gw_step (gsys_start two_gw) one_sys"
    using gw_step.admit [of None True "new_resp (\<lambda>k. True)" "gsys_start two_gw",
        unfolded gsys_start_def gsys.simps, OF open_stream_two(1)]
    by (simp add: gsys_start_def fresh_conn_def one_sys_def one_gw_def)
  have "gw_step one_sys (one_sys\<lparr>sy_gw := one_gw\<lparr>gw_chans := [0 \<mapsto> open_chan [u3_frame]]\<rparr>,
      sy_sent := sy_sent one_sys @ [u3_frame]\<rparr>)"
    by (rule gw_step.bus [of "[0]"])
      (simp_all add: one_sys_def one_gw_def open_chan_def try_send_def two_gw_def)
  then show "gw_step one_sys one_sent"
    by (simp add: one_sent_def one_sys_def gsys_start_def)
qed

lemma newer_Apply: "Apply sample_pg (Some sample_store) (calm 6000) newer_input sample_db =
    (Inr OutcomeApplied, two_rows_db)"
proof -
  have "\<not> is_late newer_input sample_db" "''u3'' \<notin> dom (processed_events sample_db)"
    by (simp_all add: is_late_def sample_db_def apply_effect_def latest_row_def newer_def usec_def
        newer_input_def sample_input_def sample_position_def empty_db_def)
  then show ?thesis
    using Apply_calm [OF sample_db_inv, of sample_pg sample_store newer_input "''u3''" 6000]
      newer_storable by (simp add: sample_store_def two_rows_db_def)
qed

lemma seam_runs:
  "(live_step sample_pg)\<^sup>*\<^sup>* (empty_db, gsys_start two_gw) (sample_db, one_sys)"
  "(live_step sample_pg)\<^sup>*\<^sup>* (sample_db, one_sys) (two_rows_db, one_sent)"
proof -
  have "live_step sample_pg (empty_db, gsys_start two_gw) (sample_db, gsys_start two_gw)"
    by (rule live_step.sink [OF sample_Apply])
  moreover have "live_step sample_pg (sample_db, gsys_start two_gw) (sample_db, one_sys)"
    by (rule live_step.gateway [OF one_steps(1)]) (simp add: one_sys_def gsys_start_def)
  ultimately show "(live_step sample_pg)\<^sup>*\<^sup>* (empty_db, gsys_start two_gw) (sample_db, one_sys)" by simp
  have "live_step sample_pg (sample_db, one_sys) (two_rows_db, one_sys)"
    by (rule live_step.sink [OF newer_Apply])
  moreover have "published sample_pg two_rows_db u3_frame"
    by (simp add: published_def two_rows second_row_def u3_frame_def sample_pg_def)
  then have "live_step sample_pg (two_rows_db, one_sys) (two_rows_db, one_sent)"
    by (intro live_step.gateway one_steps(2)) (simp add: one_sent_def one_sys_def)
  ultimately show "(live_step sample_pg)\<^sup>*\<^sup>* (sample_db, one_sys) (two_rows_db, one_sent)" by simp
qed


end
