(* ===== verification/Replay.thy ===== *)
theory Replay
  imports DeadLetters History
begin

text \<open>
  The operator's side of the dead-letter table, \<open>internal/replay/replay.go\<close>: listing, reading,
  marking, and the replay that puts the stored bytes back on the topic they came from.

  A replay is three calls on two systems, and other processes act between them: what they do to the
  database between the read and the publish, and between the publish and the mark, is an argument of
  \<open>Replay\<close>. A uuid is compared by its canonical text, as in \<open>Store\<close>.
\<close>

section \<open>Errors and arguments\<close>

datatype rp_error =
    RpNilPool | RpNilStore | RpNilPublisher | RpUninitialized
  | RpState string
  | RpNoEventID
  | RpNoRows
  | RpQuery string pg_error
  | RpRead pg_error
  | RpNotFound string
  | RpAlready string "int option"
  | RpNoPayload string
  | RpPublish string string broker_error
  | RpMark string pg_error
  | RpNotMarked string rp_error
  | RpContext

definition StateDead :: string where "StateDead = ''dead''"
definition StateReplayed :: string where "StateReplayed = ''replayed''"

definition DefaultListLimit :: int where "DefaultListLimit = 100"

record filter_args =
  fa_state :: string
  fa_limit :: int

record rp_store =
  rs_pool :: bool

definition NewReplayStore :: "bool \<Rightarrow> rp_error + rp_store" where
  "NewReplayStore pool = (if \<not> pool then Inl RpNilPool else Inr \<lparr>rs_pool = pool\<rparr>)"

definition NormalizeState :: "string \<Rightarrow> rp_error + string" where
  "NormalizeState s =
     (if s = [] \<or> s = ''all'' then Inr []
      else if s = StateDead \<or> s = StateReplayed then Inr s
      else Inl (RpState s))"

section \<open>The store\<close>

text \<open>Rows that failed at the same instant come in the order of the table; Postgres promises none.\<close>

definition newest_failed :: "dead_row list \<Rightarrow> dead_row list" where
  "newest_failed rows = sort_key (\<lambda>r. - d_last_failed_at r) rows"

definition ListDead ::
  "rp_store option \<Rightarrow> query_fault option \<Rightarrow> filter_args \<Rightarrow> sink_db \<Rightarrow> rp_error + dead_row list" where
  "ListDead s fault f db =
     (case s of
        None \<Rightarrow> Inl RpNilStore
      | Some st \<Rightarrow>
          if \<not> rs_pool st then Inl RpNilStore
          else (case NormalizeState (fa_state f) of
                  Inl e \<Rightarrow> Inl e
                | Inr state \<Rightarrow>
                    let limit = (if fa_limit f \<le> 0 then DefaultListLimit else fa_limit f);
                        rows = (if state = [] then dead_letters db
                                else filter (\<lambda>r. d_state r = state) (dead_letters db))
                    in (case fault of
                          Some (AtQuery e) \<Rightarrow> Inl (RpQuery ''list dead letters'' e)
                        | Some (AtScan e) \<Rightarrow> Inl (RpQuery ''scan dead letter'' e)
                        | Some (AtIterate e) \<Rightarrow> Inl (RpQuery ''iterate dead letters'' e)
                        | None \<Rightarrow> Inr (take (nat limit) (newest_failed rows)))))"

definition GetDead ::
  "pg_lib \<Rightarrow> rp_store option \<Rightarrow> pg_error option \<Rightarrow> string \<Rightarrow> sink_db \<Rightarrow> rp_error + dead_row" where
  "GetDead pg s fault eventID db =
     (case s of
        None \<Rightarrow> Inl RpNilStore
      | Some st \<Rightarrow>
          if \<not> rs_pool st then Inl RpNilStore
          else if eventID = [] then Inl RpNoEventID
          else (case fault of
                  Some e \<Rightarrow> Inl (RpRead e)
                | None \<Rightarrow>
                    (case pg_uuid pg eventID of
                       None \<Rightarrow> Inl (RpRead (PgError ''22P02''))
                     | Some u \<Rightarrow>
                         (case row_of d_event_id u (dead_letters db) of
                            None \<Rightarrow> Inl RpNoRows
                          | Some r \<Rightarrow> Inr r))))"

text \<open>
  One statement, committed on its own: it is refused, or it runs and its answer may be lost. The
  result says whether the call changed a row.
\<close>

definition mark_row :: "time \<Rightarrow> string \<Rightarrow> sink_db \<Rightarrow> bool \<times> sink_db" where
  "mark_row now u db =
     (case row_of d_event_id u (dead_letters db) of
        None \<Rightarrow> (False, db)
      | Some r \<Rightarrow>
          if d_state r \<noteq> StateDead then (False, db)
          else (True, db\<lparr>dead_letters := update_row d_event_id u
                  (\<lambda>r. r\<lparr>d_state := StateReplayed, d_replayed_at := Some (usec now)\<rparr>) (dead_letters db)\<rparr>))"

definition MarkReplayed ::
  "pg_lib \<Rightarrow> rp_store option \<Rightarrow> commit_result \<Rightarrow> time \<Rightarrow> string \<Rightarrow> sink_db \<Rightarrow> (rp_error + bool) \<times> sink_db" where
  "MarkReplayed pg s ack now eventID db =
     (case s of
        None \<Rightarrow> (Inl RpNilStore, db)
      | Some st \<Rightarrow>
          if \<not> rs_pool st then (Inl RpNilStore, db)
          else (case pg_uuid pg eventID of
                  None \<Rightarrow> (Inl (RpMark eventID (PgError ''22P02'')), db)
                | Some u \<Rightarrow>
                    (case ack of
                       CommitFailed e \<Rightarrow> (Inl (RpMark eventID e), db)
                     | CommitLost e \<Rightarrow> (Inl (RpMark eventID e), snd (mark_row now u db))
                     | Committed \<Rightarrow> (case mark_row now u db of (b, db') \<Rightarrow> (Inr b, db')))))"

section \<open>The replayer\<close>

record replayer =
  rp_store :: "rp_store option"
  rp_pub :: bool

definition NewReplayer :: "rp_store option \<Rightarrow> bool \<Rightarrow> rp_error + replayer" where
  "NewReplayer s pub =
     (if s = None then Inl RpNilStore
      else if \<not> pub then Inl RpNilPublisher
      else Inr \<lparr>rp_store = s, rp_pub = pub\<rparr>)"

record rp_result =
  res_entry :: dead_row
  res_marked :: bool

definition ellipsis :: string where
  "ellipsis = map char_of [0xE2, 0x80, 0xA6 :: nat]"

definition truncate :: "string \<Rightarrow> nat \<Rightarrow> string" where
  "truncate s n = (if length s \<le> n then s else take n s @ ellipsis)"

definition replay_record :: "dead_row \<Rightarrow> brecord" where
  "replay_record e =
     \<lparr>b_key = d_event_id e, b_value = d_raw_payload e,
      b_headers = [(''x-replay'', ''true''), (''x-origin-topic'', d_topic e),
        (''x-origin-partition'', dec_int (d_partition e)), (''x-origin-offset'', dec_int (d_offset e)),
        (''x-origin-reason'', d_reason e), (''x-origin-error'', truncate (d_error e) 200)]\<rparr>"

text \<open>What one replay meets: the fault of the read, the acknowledgement, the fault of the mark, the
  instant, and what other processes do to the database after the read and after the publish.\<close>

record rp_env =
  re_read :: "pg_error option"
  re_after_read :: "sink_db \<Rightarrow> sink_db"
  re_ack :: "nat \<Rightarrow> rec_ack"
  re_after_publish :: "sink_db \<Rightarrow> sink_db"
  re_mark :: commit_result
  re_now :: time

definition Replay ::
  "pg_lib \<Rightarrow> replayer option \<Rightarrow> rp_env \<Rightarrow> string \<Rightarrow> wire_record list \<times> sink_db \<Rightarrow>
     (rp_error + rp_result) \<times> wire_record list \<times> sink_db" where
  "Replay pg rp env eventID s =
     (let (lg, db) = s in
      case rp of
        None \<Rightarrow> (Inl RpUninitialized, lg, db)
      | Some r \<Rightarrow>
          if rp_store r = None \<or> \<not> rp_pub r then (Inl RpUninitialized, lg, db)
          else
            (case GetDead pg (rp_store r) (re_read env) eventID db of
               Inl RpNoRows \<Rightarrow> (Inl (RpNotFound eventID), lg, db)
             | Inl e \<Rightarrow> (Inl e, lg, db)
             | Inr entry \<Rightarrow>
                 if d_state entry \<noteq> StateDead then (Inl (RpAlready eventID (d_replayed_at entry)), lg, db)
                 else if length (d_raw_payload entry) = 0 then (Inl (RpNoPayload eventID), lg, db)
                 else
                   let db1 = re_after_read env db in
                   (case Produce (rp_pub r) (re_ack env) (d_topic entry) [replay_record entry] lg of
                      (Some e, lg') \<Rightarrow> (Inl (RpPublish eventID (d_topic entry) e), lg', db1)
                    | (None, lg') \<Rightarrow>
                        (case MarkReplayed pg (rp_store r) (re_mark env) (re_now env) eventID
                                (re_after_publish env db1) of
                           (Inl e, db') \<Rightarrow> (Inl (RpNotMarked eventID e), lg', db')
                         | (Inr marked, db') \<Rightarrow>
                             (Inr \<lparr>res_entry = entry, res_marked = marked\<rparr>, lg', db')))))"

text \<open>
  The loop of \<open>ReplayAll\<close>: each iteration has its own environment, and may find the context
  cancelled (\<open>None\<close>). The result is the successes, the failures, and whether the run was cancelled.
\<close>

fun replay_entries ::
  "pg_lib \<Rightarrow> replayer option \<Rightarrow> (dead_row \<times> rp_env option) list \<Rightarrow> wire_record list \<times> sink_db \<Rightarrow>
     rp_result list \<times> rp_error list \<times> bool \<times> wire_record list \<times> sink_db" where
  "replay_entries pg rp [] s = ([], [], False, s)"
| "replay_entries pg rp ((e, None) # es) s = ([], [], True, s)"
| "replay_entries pg rp ((e, Some env) # es) s =
     (case Replay pg rp env (d_event_id e) s of
        (Inl err, s1) \<Rightarrow>
          (case replay_entries pg rp es s1 of (rs, errs, c, s2) \<Rightarrow> (rs, err # errs, c, s2))
      | (Inr res, s1) \<Rightarrow>
          (case replay_entries pg rp es s1 of (rs, errs, c, s2) \<Rightarrow> (res # rs, errs, c, s2)))"

definition ReplayAll ::
  "pg_lib \<Rightarrow> replayer option \<Rightarrow> query_fault option \<Rightarrow> (nat \<Rightarrow> rp_env option) \<Rightarrow> int \<Rightarrow>
     wire_record list \<times> sink_db \<Rightarrow>
     rp_result list \<times> rp_error list \<times> rp_error option \<times> wire_record list \<times> sink_db" where
  "ReplayAll pg rp fault envs limit s =
     (case rp of
        None \<Rightarrow> ([], [], Some RpUninitialized, s)
      | Some r \<Rightarrow>
          if rp_store r = None then ([], [], Some RpUninitialized, s)
          else (case ListDead (rp_store r) fault \<lparr>fa_state = StateDead, fa_limit = limit\<rparr> (snd s) of
                  Inl e \<Rightarrow> ([], [], Some e, s)
                | Inr entries \<Rightarrow>
                    (case replay_entries pg rp (zip entries (map envs [0..<length entries])) s of
                       (rs, errs, cancelled, s') \<Rightarrow>
                         (rs, errs, if cancelled then Some RpContext else None, s'))))"

end
