(* ===== verification/Replay_Props.thy ===== *)
theory Replay_Props
  imports Replay
begin

text \<open>
  What a replay guarantees: the bytes are back on their topic before the row is marked, of several
  operators at most one is told that its call marked the row, a run over the queue stops at no
  failure; and the window in which a second refusal is marked as replayed.
\<close>

section \<open>The mark\<close>

lemma mark_row_keys: "map d_event_id (dead_letters (snd (mark_row now u db))) = map d_event_id (dead_letters db)"
  by (simp add: mark_row_def map_key_update_row split: option.splits)

lemma mark_row_frame:
  "processed_events (snd (mark_row now u db)) = processed_events db"
  "vehicle_positions (snd (mark_row now u db)) = vehicle_positions db"
  by (simp_all add: mark_row_def split: option.splits)

lemma mark_row_True:
  assumes "mark_row now u db = (True, db')"
  shows "\<exists>r. row_of d_event_id u (dead_letters db) = Some r \<and> d_state r = StateDead \<and>
    row_of d_event_id u (dead_letters db') = Some (r\<lparr>d_state := StateReplayed, d_replayed_at := Some (usec now)\<rparr>)"
  using assms by (auto simp: mark_row_def row_of_update_row split: option.splits if_splits)

lemma mark_row_inv: "sink_inv db \<Longrightarrow> sink_inv (snd (mark_row now u db))"
proof -
  assume inv: "sink_inv db"
  let ?f = "\<lambda>r. r\<lparr>d_state := StateReplayed, d_replayed_at := Some (usec now)\<rparr>"
  have "distinct (map d_event_id (update_row d_event_id u ?f (dead_letters db)))"
    using sink_invD(7) [OF inv] by (simp add: map_key_update_row)
  moreover have "\<forall>d \<in> set (update_row d_event_id u ?f (dead_letters db)). dead_ok d"
    using sink_invD(8) [OF inv] by (auto simp: update_row_def dead_ok_def StateReplayed_def)
  ultimately have "sink_inv (db\<lparr>dead_letters := update_row d_event_id u ?f (dead_letters db)\<rparr>)"
    by (rule sink_inv_dead_letters [OF inv])
  with inv show ?thesis by (simp add: mark_row_def split: option.splits)
qed

definition replayed_ids :: "sink_db \<Rightarrow> string set" where
  "replayed_ids db = {u. \<exists>r. row_of d_event_id u (dead_letters db) = Some r \<and> d_state r \<noteq> StateDead}"

lemma mark_row_ids:
  "replayed_ids (snd (mark_row now u db)) = replayed_ids db \<union> (if fst (mark_row now u db) then {u} else {})"
  by (auto simp: mark_row_def replayed_ids_def row_of_update_row StateDead_def StateReplayed_def
      split: option.splits)

lemma mark_row_repeated: "u \<in> replayed_ids db \<Longrightarrow> mark_row now u db = (False, db)"
  by (auto simp: replayed_ids_def mark_row_def)

lemma MarkReplayed_cases:
  assumes "MarkReplayed pg s ack now i db = (r, db')"
  obtains (refused) e where "r = Inl e" "db' = db"
  | (ran) u where "pg_uuid pg i = Some u" "db' = snd (mark_row now u db)"
      "r = Inr (fst (mark_row now u db)) \<or> (\<exists>e. ack = CommitLost e \<and> r = Inl (RpMark i e))"
  using assms
  by (auto simp: MarkReplayed_def split: option.splits if_splits commit_result.splits prod.splits)

text \<open>The contract of the sink's \<open>Apply\<close>, met by the mark: a second call for an event does nothing.\<close>

interpretation marks: effectively_once "\<lambda>(ack, now) i db. MarkReplayed pg s ack now i db" "pg_uuid pg"
  replayed_ids sink_inv "\<lambda>r. r = Inr True" "\<lambda>r. r = Inr True" for pg s
proof
  fix e :: "commit_result \<times> time" and i k and db :: sink_db
  obtain ack now where e: "e = (ack, now)" by fastforce
  obtain r db' where m: "MarkReplayed pg s ack now i db = (r, db')" by fastforce
  have op: "(case e of (ack, now) \<Rightarrow> MarkReplayed pg s ack now) i db = (r, db')" by (simp add: e m)
  show "sink_inv db \<Longrightarrow> sink_inv (snd ((case e of (ack, now) \<Rightarrow> MarkReplayed pg s ack now) i db))"
    unfolding op by (rule MarkReplayed_cases [OF m]) (simp_all add: mark_row_inv)
  show "replayed_ids db \<subseteq> replayed_ids (snd ((case e of (ack, now) \<Rightarrow> MarkReplayed pg s ack now) i db))"
    unfolding op by (rule MarkReplayed_cases [OF m]) (auto simp: mark_row_ids)
  show "snd ((case e of (ack, now) \<Rightarrow> MarkReplayed pg s ack now) i db) = db \<and>
      fst ((case e of (ack, now) \<Rightarrow> MarkReplayed pg s ack now) i db) \<noteq> Inr True"
    if "pg_uuid pg i = Some k" "k \<in> replayed_ids db"
    unfolding op by (rule MarkReplayed_cases [OF m]) (use that in \<open>auto simp: mark_row_repeated\<close>)
  show "\<exists>k. pg_uuid pg i = Some k \<and>
      k \<in> replayed_ids (snd ((case e of (ack, now) \<Rightarrow> MarkReplayed pg s ack now) i db))"
    if "fst ((case e of (ack, now) \<Rightarrow> MarkReplayed pg s ack now) i db) = Inr True"
    using that unfolding op by - (rule MarkReplayed_cases [OF m], auto simp: mark_row_ids)
qed simp

section \<open>One replay\<close>

definition replay_wire :: "dead_row \<Rightarrow> wire_record" where
  "replay_wire e = wire_of (d_topic e) (replay_record e)"

text \<open>A replay did nothing, or failed to publish, or published and then ran the mark.\<close>

lemma GetDead_Inr:
  assumes "GetDead pg s fault i db = Inr e"
  shows "i \<noteq> [] \<and> (\<exists>st u. s = Some st \<and> rs_pool st \<and> pg_uuid pg i = Some u \<and>
    row_of d_event_id u (dead_letters db) = Some e \<and> d_event_id e = u)"
  using assms by (auto simp: GetDead_def split: option.splits if_splits dest: row_of_SomeD)

lemma Replay_cases:
  assumes "Replay pg rp env i (lg, db) = (res, lg', db')"
  obtains (nothing) e where "res = Inl e" "lg' = lg" "db' = db"
  | (unpublished) entry e where "res = Inl (RpPublish i (d_topic entry) e)"
      "\<exists>landed. lg' = lg @ landed \<and> set landed \<subseteq> {replay_wire entry}" "db' = re_after_read env db"
  | (published) r entry u m where "rp = Some r" "GetDead pg (rp_store r) (re_read env) i db = Inr entry"
      "pg_uuid pg i = Some u" "row_of d_event_id u (dead_letters db) = Some entry"
      "d_state entry = StateDead" "lg' = lg @ [replay_wire entry]"
      "MarkReplayed pg (rp_store r) (re_mark env) (re_now env) i
         (re_after_publish env (re_after_read env db)) = (m, db')"
      "res = (case m of Inl e \<Rightarrow> Inl (RpNotMarked i e) | Inr b \<Rightarrow> Inr \<lparr>res_entry = entry, res_marked = b\<rparr>)"
proof (cases "\<exists>r entry. rp = Some r \<and> rp_store r \<noteq> None \<and> rp_pub r \<and>
    GetDead pg (rp_store r) (re_read env) i db = Inr entry \<and> d_state entry = StateDead \<and>
    length (d_raw_payload entry) \<noteq> 0")
  case False
  then have "\<exists>e. res = Inl e \<and> lg' = lg \<and> db' = db"
    using assms by (auto simp: Replay_def split: option.splits if_splits sum.splits rp_error.splits)
  then obtain e where e: "res = Inl e" "lg' = lg" "db' = db" by blast
  show ?thesis using e by (rule nothing)
next
  case True
  then obtain r entry where r: "rp = Some r" "rp_store r \<noteq> None" "rp_pub r"
    and g: "GetDead pg (rp_store r) (re_read env) i db = Inr entry"
    and d: "d_state entry = StateDead" "length (d_raw_payload entry) \<noteq> 0" by blast
  from GetDead_Inr [OF g] obtain u where u: "pg_uuid pg i = Some u"
    "row_of d_event_id u (dead_letters db) = Some entry" by blast
  obtain pe lg1 where p: "Produce (rp_pub r) (re_ack env) (d_topic entry) [replay_record entry] lg = (pe, lg1)"
    by fastforce
  obtain m db1 where m: "MarkReplayed pg (rp_store r) (re_mark env) (re_now env) i
      (re_after_publish env (re_after_read env db)) = (m, db1)" by fastforce
  show ?thesis
  proof (cases pe)
    case None
    with p have "lg1 = lg @ [replay_wire entry]" using Produce_None by (fastforce simp: replay_wire_def)
    moreover have "lg' = lg1" "db' = db1"
      "res = (case m of Inl e \<Rightarrow> Inl (RpNotMarked i e) | Inr b \<Rightarrow> Inr \<lparr>res_entry = entry, res_marked = b\<rparr>)"
      using assms r g d p m None by (auto simp: Replay_def Let_def split: sum.splits)
    ultimately show ?thesis using r(1) g u d(1) m by (intro published [of r entry u m]) simp_all
  next
    case (Some e)
    have "\<exists>landed. lg1 = lg @ landed \<and> set landed \<subseteq> {replay_wire entry}"
      using Produce_log [of "rp_pub r" "re_ack env" "d_topic entry" "[replay_record entry]" lg] p
      by (auto simp: replay_wire_def dest!: subseq_set)
    moreover have "lg' = lg1" "db' = re_after_read env db" "res = Inl (RpPublish i (d_topic entry) e)"
      using assms r g d p Some by (simp_all add: Replay_def Let_def)
    ultimately show ?thesis by (intro unpublished [of entry e]) simp_all
  qed
qed

section \<open>A table with one dead letter\<close>

definition sample_row :: dead_row where
  "sample_row = \<lparr>d_event_id = ''u1'', d_raw_payload = ''x'', d_error = ''e'', d_reason = ''decode'',
     d_attempts = 1, d_first_failed_at = 1, d_last_failed_at = 1, d_topic = ''raw'', d_partition = 2,
     d_offset = 7, d_state = ''dead'', d_replayed_at = None\<rparr>"

definition dead_db :: sink_db where
  "dead_db = empty_db\<lparr>dead_letters := [sample_row]\<rparr>"

definition sample_replayer :: replayer where
  "sample_replayer = \<lparr>rp_store = Some \<lparr>rs_pool = True\<rparr>, rp_pub = True\<rparr>"

definition quiet :: rp_env where
  "quiet = \<lparr>re_read = None, re_after_read = (\<lambda>d. d), re_ack = (\<lambda>k. Acked),
     re_after_publish = (\<lambda>d. d), re_mark = Committed, re_now = 5000\<rparr>"

lemma dead_db_inv: "sink_inv dead_db"
  unfolding dead_db_def
  by (rule sink_inv_dead_letters [OF sink_inv_empty])
    (simp_all add: sample_row_def dead_ok_def dead_reasons_def)

lemma sample_Replay:
  assumes "re_read env = None" "re_ack env = (\<lambda>k. Acked)" "re_after_read env = (\<lambda>d. d)"
  shows "Replay sample_pg (Some sample_replayer) env ''u1'' ([], dead_db) =
    (case MarkReplayed sample_pg (rp_store sample_replayer) (re_mark env) (re_now env) ''u1''
        (re_after_publish env dead_db) of
      (Inl e, db') \<Rightarrow> (Inl (RpNotMarked ''u1'' e), [replay_wire sample_row], db')
    | (Inr b, db') \<Rightarrow> (Inr \<lparr>res_entry = sample_row, res_marked = b\<rparr>, [replay_wire sample_row], db'))"
proof -
  have "GetDead sample_pg (rp_store sample_replayer) None ''u1'' dead_db = Inr sample_row"
    by (simp add: GetDead_def sample_replayer_def sample_pg_def dead_db_def) (simp add: sample_row_def)
  moreover have "Produce True (\<lambda>k. Acked) (d_topic sample_row) [replay_record sample_row] [] =
      (None, [replay_wire sample_row])"
    by (simp add: Produce_def produce_sync_def ack_error_def replay_wire_def) (simp add: sample_row_def)
  moreover have "rp_store sample_replayer = Some \<lparr>rs_pool = True\<rparr>" "rp_pub sample_replayer"
    "d_state sample_row = StateDead" "length (d_raw_payload sample_row) \<noteq> 0"
    by (simp_all add: sample_replayer_def sample_row_def StateDead_def)
  ultimately show ?thesis using assms by (simp add: Replay_def Let_def)
qed

lemma sample_mark: "MarkReplayed sample_pg (rp_store sample_replayer) Committed now ''u1'' db =
    (Inr (fst (mark_row now ''u1'' db)), snd (mark_row now ''u1'' db))"
  by (simp add: MarkReplayed_def sample_replayer_def sample_pg_def split: prod.splits)

lemma quiet_sel: "re_read quiet = None" "re_ack quiet = (\<lambda>k. Acked)" "re_after_read quiet = (\<lambda>d. d)"
  "re_after_publish quiet = (\<lambda>d. d)" "re_mark quiet = Committed" "re_now quiet = 5000"
  by (simp_all add: quiet_def)

section \<open>Properties\<close>



text \<open>
  C27. Of all the calls that try to mark one dead letter, in any order, from any operators and with
  lost acknowledgements, at most one is told that it marked the row, as long as the event is not
  refused again in between; and if one was, the row reads \<open>replayed\<close> from then on.
\<close>

theorem marked_at_most_once:
  assumes "sink_inv db" and "deliveries (\<lambda>(ack, now) i db. MarkReplayed pg s ack now i db) calls db = (results, db')"
  shows "length (filter (\<lambda>(i, r). pg_uuid pg i = Some u \<and> r = Inr True) results) \<le> 1 \<and>
    (\<forall>i. (i, Inr True) \<in> set results \<longrightarrow> (\<exists>u. pg_uuid pg i = Some u \<and> u \<in> replayed_ids db'))"
  using marks.fresh_at_most_once [OF assms(1), of pg u s calls]
    marks.success_recorded [OF assms(1), of _ "Inr True" pg s calls] assms(2)
  by (auto split: if_splits)

theorem marked_at_most_once_witness:
  "\<exists>results db'. deliveries (\<lambda>(ack, now) i db. MarkReplayed sample_pg (Some \<lparr>rs_pool = True\<rparr>) ack now i db)
      [((CommitLost ConnError, 5), ''u1''), ((Committed, 6), ''u1''), ((Committed, 7), ''u1'')] dead_db = (results, db') \<and>
    length (filter (\<lambda>(i, r). pg_uuid sample_pg i = Some ''u1'' \<and> r = Inr True) results) \<le> 1"
proof -
  obtain results db' where r: "deliveries (\<lambda>(ack, now) i db. MarkReplayed sample_pg (Some \<lparr>rs_pool = True\<rparr>) ack now i db)
      [((CommitLost ConnError, 5), ''u1''), ((Committed, 6), ''u1''), ((Committed, 7), ''u1'')] dead_db = (results, db')"
    by (metis surj_pair)
  with marked_at_most_once [OF dead_db_inv r, of "''u1''"] show ?thesis by blast
qed

text \<open>A refusal leaves its row dead, failed last at the instant of the refusal.\<close>

lemma RecordDeadLetter_row:
  assumes "RecordDeadLetter pg s te dl db = (None, db')" and "pg_uuid pg (dl_event_id dl) = Some u"
  shows "\<exists>r. row_of d_event_id u (dead_letters db') = Some r \<and> d_state r = StateDead \<and>
    d_last_failed_at r = usec (tx_now te)"
proof -
  from RecordDeadLetter_live [OF assms(1)] obtain first reason x where
    "upsert_dead pg (tx_now te) first reason dl db = Inr (x, db')" by auto
  with assms(2) show ?thesis
    by (auto simp: upsert_dead_def row_of_append row_of_update_row StateDead_def
        split: option.splits if_splits)
qed

text \<open>
  C28. The window of publish-then-mark. When the consumer refuses the republished event again before
  the row is marked, the mark covers that second refusal: the call reports success and the row reads
  \<open>replayed\<close> with the time of a failure nobody has replayed, so neither the list of dead letters nor
  \<open>replay --all\<close> will show it again.
\<close>

theorem second_refusal_marked_replayed:
  assumes "Replay pg rp env i (lg, db) = (Inr x, lg', db')"
    and "re_after_publish env = (\<lambda>d. snd (RecordDeadLetter pg s te dl d))"
    and "fst (RecordDeadLetter pg s te dl (re_after_read env db)) = None"
    and "pg_uuid pg (dl_event_id dl) = pg_uuid pg i"
  shows "res_marked x \<and> (\<exists>u r. pg_uuid pg i = Some u \<and> row_of d_event_id u (dead_letters db') = Some r \<and>
    d_state r = StateReplayed \<and> d_last_failed_at r = usec (tx_now te))"
  using assms(1)
proof (cases rule: Replay_cases)
  case (published r entry u m)
  let ?mid = "re_after_publish env (re_after_read env db)"
  have "RecordDeadLetter pg s te dl (re_after_read env db) = (None, ?mid)"
    using assms(2,3) by (metis prod.collapse)
  from RecordDeadLetter_row [OF this] published(3) assms(4) obtain row where
    row: "row_of d_event_id u (dead_letters ?mid) = Some row" "d_state row = StateDead"
      "d_last_failed_at row = usec (tx_now te)" by auto
  from published(8) obtain b where b: "m = Inr b" "res_marked x = b" by (cases m) auto
  from published(7) show ?thesis
  proof (cases rule: MarkReplayed_cases)
    case (ran u')
    with published(3) have "u' = u" "db' = snd (mark_row (re_now env) u ?mid)"
      "b = fst (mark_row (re_now env) u ?mid)" using b by auto
    with row published(3) b(2) show ?thesis
      by (auto simp: mark_row_def row_of_update_row)
  qed (use b in simp)
qed auto

definition again :: dead_letter where
  "again = \<lparr>dl_event_id = ''u1'', dl_key = ''v1'', dl_payload = Some ''x'', dl_error = ''e2'',
     dl_reason = ''decode'', dl_attempts = 1, dl_topic = ''raw'', dl_partition = 2, dl_offset = 9,
     dl_first_seen = 0\<rparr>"

definition racing :: rp_env where
  "racing = quiet\<lparr>re_after_publish := (\<lambda>d. snd (RecordDeadLetter sample_pg (Some sample_store) (calm 9000) again d))\<rparr>"

lemma again_recorded: "RecordDeadLetter sample_pg (Some sample_store) (calm 9000) again dead_db =
    (None, dead_db\<lparr>dead_letters := [sample_row\<lparr>d_error := ''e2'', d_attempts := 2, d_last_failed_at := 9\<rparr>]\<rparr>)"
  by (simp add: RecordDeadLetter_def InTx_def Exec_def calm_def again_def sample_store_def upsert_dead_def
      sample_pg_def pg_text_ok_def dead_reasons_def dead_db_def update_row_def usec_def)
    (simp add: sample_row_def)

theorem second_refusal_marked_replayed_witness:
  "\<exists>x lg' db'. Replay sample_pg (Some sample_replayer) racing ''u1'' ([], dead_db) = (Inr x, lg', db') \<and>
     res_marked x \<and> (\<exists>r. row_of d_event_id ''u1'' (dead_letters db') = Some r \<and>
       d_state r = StateReplayed \<and> d_last_failed_at r = 9)"
proof -
  have sel: "re_read racing = None" "re_ack racing = (\<lambda>k. Acked)" "re_after_read racing = (\<lambda>d. d)"
    "re_mark racing = Committed"
    "re_after_publish racing = (\<lambda>d. snd (RecordDeadLetter sample_pg (Some sample_store) (calm 9000) again d))"
    by (simp_all add: racing_def quiet_sel)
  have "\<exists>x lg' db'. Replay sample_pg (Some sample_replayer) racing ''u1'' ([], dead_db) = (Inr x, lg', db')"
    by (simp add: sample_Replay sel sample_mark)
  then obtain x lg' db' where r: "Replay sample_pg (Some sample_replayer) racing ''u1'' ([], dead_db) = (Inr x, lg', db')"
    by blast
  have "res_marked x \<and> (\<exists>u r. pg_uuid sample_pg ''u1'' = Some u \<and> row_of d_event_id u (dead_letters db') = Some r \<and>
      d_state r = StateReplayed \<and> d_last_failed_at r = usec (tx_now (calm 9000)))"
  proof (rule second_refusal_marked_replayed [OF r sel(5)])
    show "fst (RecordDeadLetter sample_pg (Some sample_store) (calm 9000) again (re_after_read racing dead_db)) = None"
      by (simp add: sel again_recorded)
    show "pg_uuid sample_pg (dl_event_id again) = pg_uuid sample_pg ''u1''" by (simp add: again_def)
  qed
  with r show ?thesis by (auto simp: sample_pg_def usec_def)
qed

lemma replay_entries_counts:
  "replay_entries pg rp (zip es (map (\<lambda>k. Some (envs k)) ks)) s = (rs, errs, c, s') \<Longrightarrow> length ks = length es \<Longrightarrow>
   \<not> c \<and> length rs + length errs = length es"
proof (induction es arbitrary: ks s rs errs c s')
  case (Cons e es)
  then obtain k ks' where ks: "ks = k # ks'" by (cases ks) auto
  obtain res s1 where 1: "Replay pg rp (envs k) (d_event_id e) s = (res, s1)" by (metis surj_pair)
  obtain rs2 errs2 c2 s2 where 2: "replay_entries pg rp (zip es (map (\<lambda>k. Some (envs k)) ks')) s1 = (rs2, errs2, c2, s2)"
    by (metis prod.exhaust)
  from Cons.IH [OF 2] Cons.prems ks 1 2 show ?case by (cases res) auto
qed simp



end
