(* ===== verification/Ingest_Props.thy ===== *)
theory Ingest_Props
  imports Ingest Event_Props
begin

text \<open>
  What the submission endpoint promises: a 202 accounts for every event of the batch and means that
  the accepted ones are on the log, nothing is published for a caller without the key, and what the
  advice to retry after a 503 does to events without an identity.
\<close>

section \<open>Batches of one event\<close>

definition keyed :: "string \<Rightarrow> bytes \<Rightarrow> request" where
  "keyed k body = \<lparr>rq_header = (\<lambda>h. if h = ''X-API-Key'' then k else []), rq_body = body, rq_id = Some ''q''\<rparr>"

definition sample_ing :: ing_options where
  "sample_ing = \<lparr>in_topic = ''raw'', in_source = ''ingest'', in_api_key = ''secret'',
     in_max_body = 100, in_max_batch = 5\<rparr>"

text \<open>
  The sample library with two batches: \<open>B\<close> holds the sample observation, \<open>D\<close> the same position
  without an \<open>event_id\<close>.
\<close>

definition batch_lib :: lib where
  "batch_lib = sample_lib\<lparr>json_scan := (\<lambda>raw.
     if raw = ''B'' then Value (JObj [(''events'', ''C'')])
     else if raw = ''C'' then Value (JArr [sample_observation])
     else if raw = ''D'' then Value (JObj [(''events'', ''E'')])
     else if raw = ''E'' then Value (JArr [sample_payload])
     else sample_scan raw)\<rparr>"

lemma sample_read_batch:
  "read_batch batch_lib 100 ''B'' = BodyBatch [sample_observation]"
  "read_batch batch_lib 100 ''D'' = BodyBatch [sample_payload]"
  by (simp_all add: read_batch_def decode_struct_def batch_names_def field_of_def store_batch_def
      batch_lib_def Let_def)

lemma sample_authorized: "authorized sample_ing (keyed ''secret'' body)"
  by (simp add: authorized_def sample_ing_def keyed_def)

definition bare_envelope :: "string \<Rightarrow> envelope" where
  "bare_envelope i = sample_envelope\<lparr>event_id := i\<rparr>"

lemma bare_Validate: "Validate sample_position = None"
  by (simp add: sample_position_def Validate_def)

lemma bare_marshal: "marshal_position batch_lib sample_position = Some sample_payload"
  by (simp add: sample_eval batch_lib_def marshal_position_def position_members_def text_float_def
      member_float_ptr_def text_time_def text_str_def text_uint64_def)

lemma bare_decode: "decode_doc batch_lib observation_names (store_observation batch_lib) sample_payload
    \<lparr>o_position = zero_position, o_event_id = []\<rparr> = Some \<lparr>o_position = sample_position, o_event_id = []\<rparr>"
  by (simp add: sample_eval batch_lib_def)

lemma bare_Accept: "take 1 f = ''u'' \<Longrightarrow>
    Accept batch_lib sample_payload ''ingest'' sample_now f = Inr (bare_envelope f, sample_position)"
proof -
  assume f: "take 1 f = ''u''"
  then have "f \<noteq> []" "uuid_ok batch_lib f" by (auto simp: batch_lib_def sample_lib_def)
  then have "Build batch_lib ''ingest'' sample_position f sample_now = Inr (bare_envelope f)"
    by (simp add: Build_def bare_Validate bare_marshal bare_envelope_def sample_envelope_def Version_def
        EventTypeVehiclePosition_def sample_now_def)
  with bare_decode bare_Validate show ?thesis
    by (simp add: Accept_def ValidateClock_def MaxFutureSkew_def)
      (simp add: sample_position_def sample_now_def)
qed

lemma bare_Marshal: "\<exists>pl. Marshal batch_lib (bare_envelope f) = Inr pl"
  by (simp add: sample_eval batch_lib_def bare_envelope_def Marshal_def envelope_members_def text_str_def
      text_int_def text_time_def raw_member_def)

section \<open>Properties\<close>

text \<open>
  C30. A 202 accounts for the batch and means durable. For every answer of the broker: if the reply is
  202, every event was judged on its own, the accepted ones are on the log, in the order of the batch
  and keyed by their vehicle, and the body counts them and lists each other event with its index, so
  none is unaccounted for. A reply that is neither 202 nor 503 put nothing on the log, and after a
  503 the log holds some of the accepted events, in order, and nothing else.
\<close>

theorem submission_accounted:
  assumes "handleSubmit (Produce p ack) l err_text json_err o' now fresh r w lg = ((lbl, w'), lg')"
    and "rs_status w = 0" and "\<forall>k. rs_ok w k"
  shows "(rs_status w' = 202 \<longleftrightarrow> lbl = ''accepted'') \<and>
    (rs_status w' \<notin> {202, 503} \<longrightarrow> lg' = lg) \<and>
    (rs_status w' \<in> {202, 503} \<longrightarrow> authorized o' r \<and>
      (\<exists>events recs rejs landed. read_batch l (in_max_body o') (rq_body r) = BodyBatch events \<and>
        recs = List.map_filter (\<lambda>(i, raw). record_of l (in_source o') now (fresh i) raw) (enumerate 0 events) \<and>
        rejs = List.map_filter (\<lambda>(i, raw). rejection_of l (in_source o') now (fresh i) i raw) (enumerate 0 events) \<and>
        length recs + length rejs = length events \<and>
        lg' = lg @ landed \<and> subseq landed (map (wire_of (in_topic o')) recs) \<and>
        (rs_status w' = 202 \<longrightarrow> landed = map (wire_of (in_topic o')) recs \<and>
           rs_body w' = rs_body w @ [submit_text l err_text (length recs) rejs @ newline])))"
  using assms(1,2)
proof (cases rule: broker_log.handleSubmit_cases)
  case refused
  then show ?thesis by auto
next
  case (unavailable events recs rejs landed)
  with judge_Inr [OF unavailable(5)] show ?thesis by fastforce
next
  case (success events recs rejs)
  then have "subseq (map (wire_of (in_topic o')) recs) (map (wire_of (in_topic o')) recs)" by simp
  with success judge_Inr [OF success(7)] assms(3) show ?thesis by fastforce
qed

definition submit_sample :: "bytes \<Rightarrow> (nat \<Rightarrow> rec_ack) \<Rightarrow> string \<Rightarrow> wire_record list \<Rightarrow> (string \<times> resp) \<times> wire_record list" where
  "submit_sample body ack f lg = handleSubmit (Produce True ack) batch_lib (\<lambda>e. []) [] sample_ing sample_now
     (\<lambda>i. f) (keyed ''secret'' body) (new_resp (\<lambda>k. True)) lg"

lemma submit_bare:
  assumes "take 1 f = ''u''"
  shows "submit_sample ''D'' ack f lg =
    (let rec = the (record_of batch_lib ''ingest'' sample_now f sample_payload) in
     case Produce True ack ''raw'' [rec] lg of
       (Some e, s') \<Rightarrow>
         ((''error'', Unavailable batch_lib (keyed ''secret'' ''D'')
            ''the event log is unavailable; the batch was not accepted and is safe to retry'' (new_resp (\<lambda>k. True))), s')
     | (None, s') \<Rightarrow>
         ((''accepted'', encode_body (submit_text batch_lib (\<lambda>e. []) (length [rec]) [])
            (write_header 202 (set_header ''Content-Type'' ''application/json; charset=utf-8'' (new_resp (\<lambda>k. True))))), s'))"
proof -
  obtain pl where pl: "Marshal batch_lib (bare_envelope f) = Inr pl" using bare_Marshal by blast
  note A = bare_Accept [OF assms]
  have j: "judge batch_lib ''ingest'' sample_now (\<lambda>i. f) 0 [sample_payload] =
      Inr ([the (record_of batch_lib ''ingest'' sample_now f sample_payload)], [])"
    using A pl by (simp add: record_of_def)
  have o: "in_max_body sample_ing = 100" "in_source sample_ing = ''ingest''" "in_topic sample_ing = ''raw''"
    "in_max_batch sample_ing = 5" "rq_body (keyed ''secret'' ''D'') = ''D''"
    by (simp_all add: sample_ing_def keyed_def)
  show ?thesis
    unfolding submit_sample_def handleSubmit_def
    by (simp add: sample_authorized o sample_read_batch j Let_def del: judge.simps)
qed

theorem submission_accounted_witness:
  "\<exists>w' lg'. submit_sample ''D'' (\<lambda>k. Acked) ''u5'' [] = ((''accepted'', w'), lg') \<and> rs_status w' = 202 \<and>
     length lg' = 1"
proof -
  obtain lbl w' lg' where s: "submit_sample ''D'' (\<lambda>k. Acked) ''u5'' [] = ((lbl, w'), lg')"
    by (metis prod.exhaust)
  have u: "take 1 ''u5'' = ''u''" by simp
  have lbl: "lbl = ''accepted''"
    using s unfolding submit_bare [OF u] by (auto simp: Produce_def produce_sync_def ack_error_def Let_def)
  have "rs_status w' = 202 \<and> (\<exists>events recs rejs landed.
      read_batch batch_lib 100 ''D'' = BodyBatch events \<and>
      recs = List.map_filter (\<lambda>(i, raw). record_of batch_lib ''ingest'' sample_now ''u5'' raw) (enumerate 0 events) \<and>
      lg' = [] @ landed \<and> landed = map (wire_of ''raw'') recs)"
    using submission_accounted [OF s [unfolded submit_sample_def]] lbl
    by (auto simp: new_resp_def sample_ing_def keyed_def)
  then have "rs_status w' = 202 \<and> lg' = map (wire_of ''raw'')
      (List.map_filter (\<lambda>(i, raw). record_of batch_lib ''ingest'' sample_now ''u5'' raw) [(0 :: nat, sample_payload)])"
    by (auto simp: sample_read_batch)
  moreover obtain pl where "Marshal batch_lib (bare_envelope ''u5'') = Inr pl" using bare_Marshal by blast
  then have "\<exists>x. record_of batch_lib ''ingest'' sample_now ''u5'' sample_payload = Some x"
    by (simp add: record_of_def bare_Accept)
  ultimately have "rs_status w' = 202 \<and> length lg' = 1" by (auto simp: List.map_filter_simps)
  with s lbl show ?thesis by blast
qed

text \<open>
  Nobody without the key is told anything or changes anything: when a key is configured, every
  request that does not present it, in either header, gets the same 401 whatever its body and whatever
  it presented instead, and nothing is published.
\<close>

lemma unauthorized_uniform:
  assumes "in_api_key o' \<noteq> []" and "rq_header r ''X-API-Key'' \<noteq> in_api_key o'"
    and "rq_header r ''Authorization'' \<noteq> ''Bearer '' @ in_api_key o'" and "rs_status w = 0"
    and "rq_id r' = rq_id r"
  shows "handleSubmit pub l err_text json_err o' now fresh r w s = ((''unauthorised'', Unauthorized l r' w), s) \<and>
    rs_status (Unauthorized l r' w) = 401"
proof -
  have "rq_header r ''Authorization'' = ''Bearer '' @ drop 7 (rq_header r ''Authorization'')"
    if "take 7 (rq_header r ''Authorization'') = ''Bearer ''"
    using that by (metis append_take_drop_id)
  then have "\<not> authorized o' r"
    using assms(1-3) by (auto simp: authorized_def Let_def split: if_splits)
  moreover have "Unauthorized l r w = Unauthorized l r' w"
    using assms(5) by (simp add: Unauthorized_def Write_def envelope_text_def FromContext_def)
  ultimately show ?thesis using assms(4) by (simp add: handleSubmit_def Unauthorized_def Write_response)
qed

text \<open>
  What "safe to retry" means for an event without an identity: when the acknowledgement of its
  publish is lost the caller is told 503, that the batch was not accepted and is safe to retry; the
  retry is accepted, and the log now holds the report twice, under two identifiers that each attempt
  minted, which no deduplication by identifier can tell to be the same report.
\<close>

lemma retry_duplicates_unidentified:
  assumes "decode_doc l observation_names (store_observation l) raw
      \<lparr>o_position = zero_position, o_event_id = []\<rparr> = Some obs" and "o_event_id obs = []"
    and "Accept l raw (in_source o') now f1 = Inr (env1, vp1)" "Marshal l env1 = Inr pl1"
    and "Accept l raw (in_source o') now f2 = Inr (env2, vp2)" "Marshal l env2 = Inr pl2"
    and "authorized o' r" "read_batch l (in_max_body o') (rq_body r) = BodyBatch [raw]"
    and "in_max_batch o' \<ge> 1" "in_topic o' \<noteq> []" "rs_status w = 0"
  shows "\<exists>w1 w2. handleSubmit (Produce True (\<lambda>k. AckLost e)) l err_text json_err o' now (\<lambda>i. f1) r w lg =
      ((''error'', w1), lg @ [wire_of (in_topic o') \<lparr>b_key = vehicle_id vp1, b_value = pl1, b_headers = []\<rparr>]) \<and>
    rs_status w1 = 503 \<and>
    handleSubmit (Produce True (\<lambda>k. Acked)) l err_text json_err o' now (\<lambda>i. f2) r w
        (lg @ [wire_of (in_topic o') \<lparr>b_key = vehicle_id vp1, b_value = pl1, b_headers = []\<rparr>]) =
      ((''accepted'', w2), lg @ [wire_of (in_topic o') \<lparr>b_key = vehicle_id vp1, b_value = pl1, b_headers = []\<rparr>,
         wire_of (in_topic o') \<lparr>b_key = vehicle_id vp1, b_value = pl2, b_headers = []\<rparr>]) \<and>
    rs_status w2 = 202 \<and> event_id env1 = f1 \<and> event_id env2 = f2 \<and> vp1 = vp2"
proof -
  have ids: "event_id env1 = f1" "event_id env2 = f2" "vp1 = o_position obs" "vp2 = o_position obs"
    using assms(1-6) by (auto simp: Accept_def dest!: Build_InrD(4)
        split: option.splits if_splits sum.splits event_error.splits)
  have w0: "rs_status (set_header k v w) = 0" for k v using assms(11) by (simp add: http_simps)
  show ?thesis
    using assms(3-11) ids
    by (simp add: handleSubmit_def Produce_def produce_sync_def ack_error_def Unavailable_def
        Write_response w0 http_simps)
qed

end
