(* ===== verification/Migrations.thy ===== *)
theory Migrations
  imports Sink
begin

text \<open>
  The schema migrations, \<open>internal/platform/migrations/migrations.go\<close>: reading and ordering the
  embedded files, the bookkeeping table, \<open>Status\<close> and \<open>Up\<close>.

  What the SQL of a file does to the schema \<open>'d\<close> is \<open>exec\<close>, a parameter; it does not touch the
  bookkeeping table, which none of the files does. The files are part of the binary, so that
  reading them cannot fail. Each call to the database has a fault of its own.
\<close>

section \<open>The files\<close>

record embedded =
  em_name :: string
  em_dir :: bool
  em_body :: string

record migration =
  mg_version :: string
  mg_name :: string
  mg_body :: string

datatype mig_error =
    BadFileName string | NoneEmbedded | MigFail string pg_error | MigrationFailed string string sink_error

definition sql_suffix :: string where
  "sql_suffix = ''.sql''"

definition trim_suffix :: "string \<Rightarrow> string \<Rightarrow> string" where
  "trim_suffix s suf = (if suffix suf s then take (length s - length suf) s else s)"

definition migration_of :: "embedded \<Rightarrow> migration" where
  "migration_of e =
     (let v = takeWhile (\<lambda>c. c \<noteq> CHR ''_'') (em_name e) in
      \<lparr>mg_version = v, mg_name = trim_suffix (drop (length v + 1) (em_name e)) sql_suffix,
       mg_body = em_body e\<rparr>)"

fun load_files :: "embedded list \<Rightarrow> mig_error + migration list" where
  "load_files [] = Inr []"
| "load_files (e # es) =
     (if em_dir e \<or> \<not> suffix sql_suffix (em_name e) then load_files es
      else if CHR ''_'' \<notin> set (em_name e) \<or> takeWhile (\<lambda>c. c \<noteq> CHR ''_'') (em_name e) = [] then
        Inl (BadFileName (em_name e))
      else (case load_files es of Inl x \<Rightarrow> Inl x | Inr ms \<Rightarrow> Inr (migration_of e # ms)))"

text \<open>\<open>sort.Slice\<close> keeps the order of equal versions for so few files: it is an insertion sort there.\<close>

definition load :: "embedded list \<Rightarrow> mig_error + migration list" where
  "load es =
     (case load_files es of
        Inl x \<Rightarrow> Inl x
      | Inr ms \<Rightarrow> if length ms = 0 then Inl NoneEmbedded else Inr (sort_key mg_version ms))"

section \<open>The database\<close>

record mig_row =
  mr_name :: string
  mr_checksum :: string
  mr_applied_at :: int

text \<open>The bookkeeping table is absent before the first run.\<close>

record 'd mig_db =
  md_table :: "(string \<rightharpoonup> mig_row) option"
  md_schema :: 'd

record applied =
  ap_version :: string
  ap_name :: string
  ap_bytes :: nat
  ap_at :: time

record pending =
  pe_version :: string
  pe_name :: string
  pe_bytes :: nat

text \<open>
  The faults of one run: the two creations of the table, the query of \<open>Status\<close>, and the transaction
  of the \<open>k\<close>-th pending migration, whose clock also stands for the \<open>time.Now\<close> of the result.
\<close>

record mig_env =
  me_create :: "pg_error option"
  me_create_status :: "pg_error option"
  me_query :: "pg_error option"
  me_tx :: "nat \<Rightarrow> tx_env"

definition mig_rows :: "'d mig_db \<Rightarrow> string \<rightharpoonup> mig_row" where
  "mig_rows db = (case md_table db of None \<Rightarrow> Map.empty | Some t \<Rightarrow> t)"

definition ensureTable :: "pg_error option \<Rightarrow> 'd mig_db \<Rightarrow> mig_error + 'd mig_db" where
  "ensureTable fault db =
     (case fault of
        Some e \<Rightarrow> Inl (MigFail ''create schema_migrations'' e)
      | None \<Rightarrow> Inr (db\<lparr>md_table := Some (mig_rows db)\<rparr>))"

definition applied_row :: "(string \<rightharpoonup> mig_row) \<Rightarrow> migration \<Rightarrow> applied" where
  "applied_row t m =
     \<lparr>ap_version = mg_version m, ap_name = mr_name (the (t (mg_version m))), ap_bytes = length (mg_body m),
      ap_at = of_usec (mr_applied_at (the (t (mg_version m))))\<rparr>"

definition pending_row :: "migration \<Rightarrow> pending" where
  "pending_row m = \<lparr>pe_version = mg_version m, pe_name = mg_name m, pe_bytes = length (mg_body m)\<rparr>"

definition Status ::
  "embedded list \<Rightarrow> pg_error option \<Rightarrow> pg_error option \<Rightarrow> 'd mig_db \<Rightarrow>
     (mig_error + applied list \<times> pending list) \<times> 'd mig_db" where
  "Status files create query db =
     (case ensureTable create db of
        Inl e \<Rightarrow> (Inl e, db)
      | Inr db1 \<Rightarrow>
          (case load files of
             Inl e \<Rightarrow> (Inl e, db1)
           | Inr ms \<Rightarrow>
               (case query of
                  Some e \<Rightarrow> (Inl (MigFail ''query applied'' e), db1)
                | None \<Rightarrow>
                    (Inr (map (applied_row (mig_rows db1)) (filter (\<lambda>m. mg_version m \<in> dom (mig_rows db1)) ms),
                          map pending_row (filter (\<lambda>m. mg_version m \<notin> dom (mig_rows db1)) ms)), db1))))"

section \<open>Up\<close>

text \<open>The body of one transaction: the SQL of the file, then its record.\<close>

definition apply_migration ::
  "(string \<Rightarrow> 'd \<Rightarrow> pg_error + 'd) \<Rightarrow> tx_env \<Rightarrow> migration \<Rightarrow> 'd mig_db \<Rightarrow> sink_error + unit \<times> 'd mig_db" where
  "apply_migration exec env m db =
     (case Exec env 1 ''apply'' (exec (mg_body m) (md_schema db)) of
        Inl e \<Rightarrow> Inl e
      | Inr d \<Rightarrow>
          (case Exec env 2 ''record''
                  (if md_table db = None then Inl (PgError ''42P01'')
                   else if mg_version m \<in> dom (mig_rows db) then Inl (PgError ''23505'')
                   else Inr (db\<lparr>md_schema := d, md_table := Some ((mig_rows db)(mg_version m \<mapsto>
                          \<lparr>mr_name = mg_name m, mr_checksum = [], mr_applied_at = usec (tx_now env)\<rparr>))\<rparr>)) of
             Inl e \<Rightarrow> Inl e
           | Inr db1 \<Rightarrow> Inr ((), db1)))"

fun up_loop ::
  "(string \<Rightarrow> 'd \<Rightarrow> pg_error + 'd) \<Rightarrow> (nat \<Rightarrow> tx_env) \<Rightarrow> string set \<Rightarrow> nat \<Rightarrow> migration list \<Rightarrow>
     applied list \<Rightarrow> 'd mig_db \<Rightarrow> (applied list \<times> mig_error option) \<times> 'd mig_db" where
  "up_loop exec envs done_versions k [] res db = ((res, None), db)"
| "up_loop exec envs done_versions k (m # ms) res db =
     (if mg_version m \<in> done_versions then up_loop exec envs done_versions k ms res db
      else (case InTx (envs k) (apply_migration exec (envs k) m) db of
              (Inl e, db1) \<Rightarrow> ((res, Some (MigrationFailed (mg_version m) (mg_name m) e)), db1)
            | (Inr _, db1) \<Rightarrow>
                up_loop exec envs done_versions (Suc k) ms
                  (res @ [\<lparr>ap_version = mg_version m, ap_name = mg_name m, ap_bytes = length (mg_body m),
                           ap_at = tx_now (envs k)\<rparr>]) db1))"

text \<open>\<open>Up\<close> returns the migrations it applied and, separately, the error it stopped at.\<close>

definition Up ::
  "(string \<Rightarrow> 'd \<Rightarrow> pg_error + 'd) \<Rightarrow> embedded list \<Rightarrow> mig_env \<Rightarrow> 'd mig_db \<Rightarrow>
     (applied list \<times> mig_error option) \<times> 'd mig_db" where
  "Up exec files env db =
     (case ensureTable (me_create env) db of
        Inl e \<Rightarrow> (([], Some e), db)
      | Inr db1 \<Rightarrow>
          (case load files of
             Inl e \<Rightarrow> (([], Some e), db1)
           | Inr ms \<Rightarrow>
               (case Status files (me_create_status env) (me_query env) db1 of
                  (Inl e, db2) \<Rightarrow> (([], Some e), db2)
                | (Inr (appl, _), db2) \<Rightarrow>
                    up_loop exec (me_tx env) (set (map ap_version appl)) 0 ms [] db2)))"

end
