(* ===== verification/Migrations_Props.thy ===== *)
theory Migrations_Props
  imports Migrations
begin

text \<open>
  What the migrations guarantee: whatever fails, the database is at the end of a prefix of the
  files, in order, with exactly that prefix recorded; and what they do not, when two files carry
  one version.
\<close>

section \<open>Being at a version\<close>

text \<open>The schema the bodies make of \<open>d\<close>, if each of them succeeds.\<close>

fun bodies_run :: "(string \<Rightarrow> 'd \<Rightarrow> pg_error + 'd) \<Rightarrow> migration list \<Rightarrow> 'd \<Rightarrow> 'd option" where
  "bodies_run exec [] d = Some d"
| "bodies_run exec (m # ms) d = (case exec (mg_body m) d of Inl e \<Rightarrow> None | Inr d1 \<Rightarrow> bodies_run exec ms d1)"

definition at_version :: "(string \<Rightarrow> 'd \<Rightarrow> pg_error + 'd) \<Rightarrow> 'd \<Rightarrow> migration list \<Rightarrow> nat \<Rightarrow> 'd mig_db \<Rightarrow> bool" where
  "at_version exec d0 ms n db \<longleftrightarrow> n \<le> length ms \<and>
     dom (mig_rows db) = mg_version ` set (take n ms) \<and> bodies_run exec (take n ms) d0 = Some (md_schema db)"

lemma bodies_run_snoc:
  "bodies_run exec (xs @ [m]) d =
     (case bodies_run exec xs d of None \<Rightarrow> None
      | Some d1 \<Rightarrow> (case exec (mg_body m) d1 of Inl e \<Rightarrow> None | Inr d2 \<Rightarrow> Some d2))"
  by (induction xs arbitrary: d) (auto split: sum.splits)

lemma mig_rows_table [simp]: "mig_rows (db\<lparr>md_table := Some (mig_rows db)\<rparr>) = mig_rows db"
  by (simp add: mig_rows_def)

lemma at_version_table [simp]:
  "at_version exec d0 ms n (db\<lparr>md_table := Some (mig_rows db)\<rparr>) \<longleftrightarrow> at_version exec d0 ms n db"
  by (simp add: at_version_def)

text \<open>One transaction is all or nothing, and it records what it did.\<close>

lemma apply_migration_Inr:
  assumes "apply_migration exec env m db = Inr (x, db')"
  shows "\<exists>d. exec (mg_body m) (md_schema db) = Inr d \<and> md_schema db' = d \<and>
    mg_version m \<notin> dom (mig_rows db) \<and> dom (mig_rows db') = insert (mg_version m) (dom (mig_rows db))"
  using assms
  by (auto simp: apply_migration_def mig_rows_def split: sum.splits if_splits)

lemma transaction_step:
  assumes "at_version exec d0 ms n db" and "n < length ms"
    and "InTx env (apply_migration exec env (ms ! n)) db = (r, db')"
  shows "(\<exists>e. r = Inl e) \<and> db' = db \<or> at_version exec d0 ms (Suc n) db'"
  using assms(3)
proof (cases rule: InTx_cases)
  case (committed x)
  from apply_migration_Inr [OF committed(1)] assms(1,2) show ?thesis
    by (auto simp: at_version_def take_Suc_conv_app_nth bodies_run_snoc)
qed auto

lemma up_loop_skip:
  "\<forall>m \<in> set xs. mg_version m \<in> vs \<Longrightarrow> up_loop exec envs vs k (xs @ ys) res db = up_loop exec envs vs k ys res db"
  by (induction xs) auto

lemma up_loop_at:
  assumes "at_version exec d0 ms n db" and "rest = drop n ms" and "\<forall>m \<in> set rest. mg_version m \<notin> vs"
    and "up_loop exec envs vs k rest res db = ((res', err), db')"
  shows "\<exists>j. n + j \<le> length ms \<and> map ap_version res' = map ap_version res @ map mg_version (take j rest) \<and>
    (err = None \<and> j = length rest \<and> at_version exec d0 ms (n + j) db' \<or>
     err \<noteq> None \<and> (at_version exec d0 ms (n + j) db' \<or> at_version exec d0 ms (Suc (n + j)) db'))"
  using assms
proof (induction rest arbitrary: n k res db)
  case Nil
  then show ?case by (auto simp: at_version_def)
next
  case (Cons m rest)
  have n: "n < length ms" "m = ms ! n" "rest = drop (Suc n) ms"
  proof -
    show "n < length ms" using Cons.prems(2) by (metis drop_all list.distinct(1) not_le)
    with Cons.prems(2) show "m = ms ! n" "rest = drop (Suc n) ms"
      by (simp_all add: Cons_nth_drop_Suc [symmetric])
  qed
  obtain r db1 where tx: "InTx (envs k) (apply_migration exec (envs k) m) db = (r, db1)" by (metis surj_pair)
  note step = transaction_step [OF Cons.prems(1) n(1) tx [unfolded n(2)]]
  show ?case
  proof (cases r)
    case (Inl e)
    with tx Cons.prems(3,4) step Cons.prems(1) n(1) show ?thesis
      by (intro exI [of _ 0]) auto
  next
    case (Inr x)
    with step have at: "at_version exec d0 ms (Suc n) db1" by simp
    from Cons.prems(3,4) tx Inr
    have run: "up_loop exec envs vs (Suc k) rest (res @ [\<lparr>ap_version = mg_version m, ap_name = mg_name m,
        ap_bytes = length (mg_body m), ap_at = tx_now (envs k)\<rparr>]) db1 = ((res', err), db')" by simp
    from Cons.IH [OF at n(3) _ run] Cons.prems(3) obtain j where
      "Suc n + j \<le> length ms" "map ap_version res' = map ap_version res @ mg_version m # map mg_version (take j rest)"
      "err = None \<and> j = length rest \<and> at_version exec d0 ms (Suc n + j) db' \<or>
       err \<noteq> None \<and> (at_version exec d0 ms (Suc n + j) db' \<or> at_version exec d0 ms (Suc (Suc n + j)) db')"
      by auto
    then show ?thesis by (intro exI [of _ "Suc j"]) simp
  qed
qed

lemma versions_disjoint:
  assumes "distinct (map mg_version ms)" and "m \<in> set (drop n ms)"
  shows "mg_version m \<notin> mg_version ` set (take n ms)"
proof -
  have "distinct (map mg_version (take n ms @ drop n ms))" using assms(1) by simp
  with assms(2) show ?thesis unfolding map_append distinct_append set_map by blast
qed

lemma Up_calm:
  assumes "me_create env = None" "me_create_status env = None" "me_query env = None" and "load files = Inr ms"
  shows "Up exec files env db =
    up_loop exec (me_tx env) (set (map mg_version (filter (\<lambda>m. mg_version m \<in> dom (mig_rows db)) ms))) 0 ms []
      (db\<lparr>md_table := Some (mig_rows db)\<rparr>)"
proof -
  have "ap_version (applied_row t m) = mg_version m" for t m by (simp add: applied_row_def)
  then show ?thesis using assms by (simp add: Up_def ensureTable_def Status_def image_image)
qed

lemma Up_at:
  assumes "load files = Inr ms" and "distinct (map mg_version ms)" and "at_version exec d0 ms n db"
    and "Up exec files env db = ((res, err), db')"
  shows "\<exists>j n'. n + j \<le> n' \<and> at_version exec d0 ms n' db' \<and> map ap_version res = map mg_version (take j (drop n ms)) \<and>
    (err = None \<longrightarrow> n' = length ms \<and> n + j = length ms)"
proof (cases "\<exists>e. err = Some e \<and> res = [] \<and> (db' = db \<or> db' = db\<lparr>md_table := Some (mig_rows db)\<rparr>)")
  case True
  with assms(3) show ?thesis by (intro exI [of _ 0] exI [of _ n]) auto
next
  case False
  let ?db1 = "db\<lparr>md_table := Some (mig_rows db)\<rparr>" and ?vs = "mg_version ` set (take n ms)"
  have db1: "at_version exec d0 ms n ?db1" using assms(3) by simp
  have calm: "me_create env = None" "me_create_status env = None" "me_query env = None"
    using False assms(1,4) by (auto simp: Up_def ensureTable_def Status_def mig_rows_def split: option.splits)
  have vs: "set (map mg_version (filter (\<lambda>m. mg_version m \<in> dom (mig_rows db)) ms)) = ?vs"
    using assms(3) by (auto simp: at_version_def dest: in_set_takeD)
  have run: "up_loop exec (me_tx env) ?vs 0 ms [] ?db1 = ((res, err), db')"
    using Up_calm [OF calm assms(1), of exec db] assms(4) unfolding vs by simp
  have "up_loop exec (me_tx env) ?vs 0 (take n ms @ drop n ms) [] ?db1 = ((res, err), db')"
    using run by simp
  then have "up_loop exec (me_tx env) ?vs 0 (drop n ms) [] ?db1 = ((res, err), db')"
    by (subst (asm) up_loop_skip) auto
  from up_loop_at [OF db1 refl _ this] versions_disjoint [OF assms(2)] obtain j where
    "n + j \<le> length ms" "map ap_version res = map mg_version (take j (drop n ms))"
    "err = None \<and> j = length (drop n ms) \<and> at_version exec d0 ms (n + j) db' \<or>
     err \<noteq> None \<and> (at_version exec d0 ms (n + j) db' \<or> at_version exec d0 ms (Suc (n + j)) db')" by auto
  then show ?thesis
    by (intro exI [of _ j] exI [of _ "if at_version exec d0 ms (n + j) db' then n + j else Suc (n + j)"]) auto
qed

section \<open>Every sequence of runs\<close>

fun ups ::
  "(string \<Rightarrow> 'd \<Rightarrow> pg_error + 'd) \<Rightarrow> embedded list \<Rightarrow> mig_env list \<Rightarrow> 'd mig_db \<Rightarrow>
     (applied list \<times> mig_error option) list \<times> 'd mig_db" where
  "ups exec files [] db = ([], db)"
| "ups exec files (env # envs) db =
     (let (r, db1) = Up exec files env db; (rs, db2) = ups exec files envs db1 in (r # rs, db2))"

lemma versions_at:
  assumes "distinct (map mg_version ms)" and "at_version exec d0 ms n db" and "at_version exec d0 ms n db'"
  shows "md_schema db' = md_schema db \<and> dom (mig_rows db') = dom (mig_rows db)"
  using assms by (simp add: at_version_def)

lemma ups_at:
  assumes "load files = Inr ms" and "distinct (map mg_version ms)"
  shows "at_version exec d0 ms n db \<Longrightarrow> ups exec files envs db = (rs, db') \<Longrightarrow>
    \<exists>n' \<ge> n. at_version exec d0 ms n' db' \<and>
      (\<forall>r \<in> set rs. snd r = None \<longrightarrow> n' = length ms) \<and>
      subseq (concat (map (\<lambda>r. map ap_version (fst r)) rs)) (map mg_version (drop n ms))"
proof (induction envs arbitrary: n db rs)
  case Nil
  then show ?case by auto
next
  case (Cons env envs)
  obtain res err db1 where 1: "Up exec files env db = ((res, err), db1)" by (metis prod.exhaust)
  obtain rs1 where 2: "ups exec files envs db1 = (rs1, db')" "rs = (res, err) # rs1"
    using Cons.prems(2) 1 by (auto simp: Let_def split: prod.splits)
  from Up_at [OF assms Cons.prems(1) 1] obtain j n1 where
    j: "n + j \<le> n1" "at_version exec d0 ms n1 db1" "map ap_version res = map mg_version (take j (drop n ms))"
      "err = None \<longrightarrow> n1 = length ms" by blast
  from Cons.IH [OF j(2) 2(1)] obtain n' where n': "n1 \<le> n'" "at_version exec d0 ms n' db'"
    "\<forall>r \<in> set rs1. snd r = None \<longrightarrow> n' = length ms"
    "subseq (concat (map (\<lambda>r. map ap_version (fst r)) rs1)) (map mg_version (drop n1 ms))" by blast
  have "drop n ms = take j (drop n ms) @ drop j (drop n ms)" by (rule append_take_drop_id [symmetric])
  moreover have "drop n1 ms = drop (n1 - (n + j)) (drop j (drop n ms))" using j(1) by (simp add: add.commute)
  ultimately have "subseq (map mg_version (take j (drop n ms)) @ map mg_version (drop n1 ms)) (map mg_version (drop n ms))"
    by (metis list_emb_append_mono map_append suffix_drop suffix_imp_subseq subseq_map subseq_order.order_refl)
  moreover have "subseq (map ap_version res @ concat (map (\<lambda>r. map ap_version (fst r)) rs1))
      (map mg_version (take j (drop n ms)) @ map mg_version (drop n1 ms))"
    using n'(4) j(3) by (simp add: list_emb_append_mono)
  ultimately have "subseq (concat (map (\<lambda>r. map ap_version (fst r)) rs)) (map mg_version (drop n ms))"
    unfolding 2(2) using subseq_order.order_trans by fastforce
  moreover have "err = None \<longrightarrow> n' = length ms"
    using j(4) n'(1,2) by (auto simp: at_version_def)
  ultimately show ?case using n' j(1) 2(2) by (intro exI [of _ n']) auto
qed

text \<open>
  C33. Migrations are applied in order, whole and once. Whatever sequence of runs of \<open>Up\<close> a fresh
  database goes through, with whatever faults of the connection and of the commits, its schema is
  what the bodies of the first \<open>n\<close> files make of the empty one, exactly those files are recorded, and
  no file is reported as applied twice or out of order. After a run that reported no error all of
  them are, and a further run applies nothing.
\<close>

theorem migrations_in_order:
  assumes "load files = Inr ms" and "distinct (map mg_version ms)"
    and "ups exec files envs \<lparr>md_table = None, md_schema = d0\<rparr> = (rs, db)"
  shows "\<exists>n \<le> length ms. bodies_run exec (take n ms) d0 = Some (md_schema db) \<and>
    dom (mig_rows db) = mg_version ` set (take n ms) \<and>
    subseq (concat (map (\<lambda>r. map ap_version (fst r)) rs)) (map mg_version ms) \<and>
    ((\<exists>r \<in> set rs. snd r = None) \<longrightarrow> n = length ms \<and>
       (\<forall>env. fst (fst (Up exec files env db)) = [] \<and> md_schema (snd (Up exec files env db)) = md_schema db))"
proof -
  have "at_version exec d0 ms 0 \<lparr>md_table = None, md_schema = d0\<rparr>"
    by (simp add: at_version_def mig_rows_def)
  from ups_at [OF assms(1,2) this assms(3)] obtain n where
    n: "at_version exec d0 ms n db" "\<forall>r \<in> set rs. snd r = None \<longrightarrow> n = length ms"
    "subseq (concat (map (\<lambda>r. map ap_version (fst r)) rs)) (map mg_version ms)" by auto
  have "fst (fst (Up exec files env db)) = [] \<and> md_schema (snd (Up exec files env db)) = md_schema db"
    if "n = length ms" for env
  proof -
    obtain res err db1 where 1: "Up exec files env db = ((res, err), db1)" by (metis prod.exhaust)
    from Up_at [OF assms(1,2) n(1) 1] that obtain j n' where
      "n + j \<le> n'" "at_version exec d0 ms n' db1" "map ap_version res = map mg_version (take j (drop n ms))" by blast
    then have "n \<le> n'" "map ap_version res = []" using that by simp_all
    have "n' = n" using that \<open>n \<le> n'\<close> \<open>at_version exec d0 ms n' db1\<close> by (simp add: at_version_def)
    with \<open>at_version exec d0 ms n' db1\<close> n(1) 1 \<open>map ap_version res = []\<close> show ?thesis
      by (simp add: at_version_def)
  qed
  with n show ?thesis by (intro exI [of _ n]) (auto simp: at_version_def)
qed

text \<open>Two files; the first run loses the acknowledgement of the first commit.\<close>

definition two_files :: "embedded list" where
  "two_files = [\<lparr>em_name = ''2_b.sql'', em_dir = False, em_body = ''b''\<rparr>,
     \<lparr>em_name = ''1_a.sql'', em_dir = False, em_body = ''a''\<rparr>]"

definition two_migrations :: "migration list" where
  "two_migrations = [\<lparr>mg_version = ''1'', mg_name = ''a'', mg_body = ''a''\<rparr>,
     \<lparr>mg_version = ''2'', mg_name = ''b'', mg_body = ''b''\<rparr>]"

definition appending :: "string \<Rightarrow> string \<Rightarrow> pg_error + string" where
  "appending body d = Inr (d @ body)"

definition run_env :: "commit_result \<Rightarrow> mig_env" where
  "run_env c = \<lparr>me_create = None, me_create_status = None, me_query = None,
     me_tx = (\<lambda>k. \<lparr>tx_fault = (\<lambda>i. None), tx_commit = c, tx_now = 0\<rparr>)\<rparr>"

lemma two_load: "load two_files = Inr two_migrations"
  by (simp add: load_def two_files_def two_migrations_def migration_of_def sql_suffix_def trim_suffix_def
      suffix_def Let_def)

theorem migrations_in_order_witness:
  "\<exists>rs db. ups appending two_files [run_env (CommitLost ConnError), run_env Committed]
      \<lparr>md_table = None, md_schema = []\<rparr> = (rs, db) \<and> md_schema db = ''ab'' \<and> dom (mig_rows db) = {''1'', ''2''}"
proof -
  obtain rs db where r: "ups appending two_files [run_env (CommitLost ConnError), run_env Committed]
      \<lparr>md_table = None, md_schema = []\<rparr> = (rs, db)" by (metis surj_pair)
  have "\<exists>r \<in> set rs. snd r = None"
    using r by (auto simp: Up_calm [OF _ _ _ two_load] two_load run_env_def two_migrations_def appending_def InTx_def
        apply_migration_def Exec_def mig_rows_def Let_def)
  with migrations_in_order [OF two_load _ r] have "bodies_run appending two_migrations [] = Some (md_schema db)"
    "dom (mig_rows db) = mg_version ` set two_migrations"
    by (auto simp: two_migrations_def)
  with r show ?thesis by (auto simp: two_migrations_def appending_def)
qed

section \<open>Two files of one version\<close>

text \<open>
  The version of a file is what precedes its first underscore, and nothing checks that no two files
  share it. The first run stops at the second of them, because its record collides; the second run
  reports that everything is applied, though the second body never was.
\<close>

definition same_files :: "embedded list" where
  "same_files = [\<lparr>em_name = ''1_a.sql'', em_dir = False, em_body = ''a''\<rparr>,
     \<lparr>em_name = ''1_b.sql'', em_dir = False, em_body = ''b''\<rparr>]"

lemma same_load: "load same_files = Inr [\<lparr>mg_version = ''1'', mg_name = ''a'', mg_body = ''a''\<rparr>,
     \<lparr>mg_version = ''1'', mg_name = ''b'', mg_body = ''b''\<rparr>]"
  by (simp add: load_def same_files_def migration_of_def sql_suffix_def trim_suffix_def suffix_def Let_def)

lemma same_version_skipped:
  "\<exists>rs db. ups appending same_files [run_env Committed, run_env Committed]
      \<lparr>md_table = None, md_schema = []\<rparr> = (rs, db) \<and>
     snd (rs ! 0) \<noteq> None \<and> rs ! 1 = ([], None) \<and> md_schema db = ''a''"
  by (simp add: Up_calm [OF _ _ _ same_load] run_env_def appending_def InTx_def apply_migration_def Exec_def
      mig_rows_def)

end
