(* ===== verification/Migrate.thy ===== *)
theory Migrate
  imports Migrations_Props Broker Config
begin

text \<open>
  The command that prepares a deployment, \<open>cmd/migrate/main.go\<close>: the topics, with their bounded retry
  and the check of the partition counts, and the schema. What a command prints is its result; log
  lines are left out. Opening the database is the argument \<open>opened\<close>.
\<close>

section \<open>Topics\<close>

text \<open>What the broker answers during one attempt.\<close>

record attempt =
  at_created :: bool
  at_pinged :: bool
  at_listed :: bool
  at_reply :: "string \<Rightarrow> create_reply"
  at_details :: "cluster \<Rightarrow> (string \<times> bool \<times> nat) list option"

datatype topic_error = BrokerError broker_error | WrongPartitions string nat int

datatype migrate_error =
    ConfigInvalid "cfg_error list" | UnknownCommand string | CtxCancelled
  | TopicsNotEnsured nat topic_error | OpenFailed | Migrating mig_error | MigrationsPending

definition topic_specs :: "broker_cfg \<Rightarrow> topic_spec list" where
  "topic_specs b =
     [\<lparr>t_name = cb_raw_topic b, t_partitions = cb_raw_parts b, t_retention = cb_retention b\<rparr>,
      \<lparr>t_name = cb_dlq_topic b, t_partitions = cb_dlq_parts b, t_retention = cb_dlq_retention b\<rparr>]"

text \<open>A topic that is not in the map reads as zero partitions.\<close>

definition partitions_in :: "(string \<rightharpoonup> nat) \<Rightarrow> string \<Rightarrow> nat" where
  "partitions_in got t = (case got t of None \<Rightarrow> 0 | Some n \<Rightarrow> n)"

definition tryEnsureTopics :: "broker_cfg \<Rightarrow> attempt \<Rightarrow> cluster \<Rightarrow> topic_error option \<times> cluster" where
  "tryEnsureTopics b a c =
     (case NewClient (cb_seeds b) ''esp-migrate'' (at_created a) (at_pinged a) of
        Inl e \<Rightarrow> (Some (BrokerError e), c)
      | Inr _ \<Rightarrow>
          (case EnsureTopics True (at_listed a) (at_reply a) (topic_specs b) c of
             (_, Some e, c1) \<Rightarrow> (Some (BrokerError e), c1)
           | (_, None, c1) \<Rightarrow>
               (case DescribeTopics True (at_details a c1) of
                  Inl e \<Rightarrow> (Some (BrokerError e), c1)
                | Inr got \<Rightarrow>
                    if int (partitions_in got (cb_raw_topic b)) \<noteq> cb_raw_parts b then
                      (Some (WrongPartitions (cb_raw_topic b) (partitions_in got (cb_raw_topic b)) (cb_raw_parts b)), c1)
                    else if int (partitions_in got (cb_dlq_topic b)) \<noteq> cb_dlq_parts b then
                      (Some (WrongPartitions (cb_dlq_topic b) (partitions_in got (cb_dlq_topic b)) (cb_dlq_parts b)), c1)
                    else (None, c1))))"

definition attempts :: nat where
  "attempts = 10"

text \<open>
  The loop from attempt \<open>i\<close> with \<open>n\<close> left; \<open>stopped i\<close> and \<open>interrupted i\<close> say whether the context was
  done before attempt \<open>i\<close> or during the wait after it. The waits are part of the result.
\<close>

fun topics_loop ::
  "broker_cfg \<Rightarrow> (nat \<Rightarrow> bool) \<Rightarrow> (nat \<Rightarrow> bool) \<Rightarrow> (nat \<Rightarrow> attempt) \<Rightarrow> nat \<Rightarrow> nat \<Rightarrow> topic_error \<Rightarrow> cluster \<Rightarrow>
     migrate_error option \<times> duration list \<times> cluster" where
  "topics_loop b stopped interrupted tries 0 i lastErr c = (Some (TopicsNotEnsured attempts lastErr), [], c)"
| "topics_loop b stopped interrupted tries (Suc n) i lastErr c =
     (if stopped i then (Some CtxCancelled, [], c)
      else (case tryEnsureTopics b (tries i) c of
              (None, c1) \<Rightarrow> (None, [], c1)
            | (Some e, c1) \<Rightarrow>
                if interrupted i then (Some CtxCancelled, [int i * 10 ^ 9], c1)
                else (case topics_loop b stopped interrupted tries n (Suc i) e c1 of
                        (r, waits, c2) \<Rightarrow> (r, int i * 10 ^ 9 # waits, c2))))"

definition ensureTopics ::
  "broker_cfg \<Rightarrow> (nat \<Rightarrow> bool) \<Rightarrow> (nat \<Rightarrow> bool) \<Rightarrow> (nat \<Rightarrow> attempt) \<Rightarrow> cluster \<Rightarrow>
     migrate_error option \<times> duration list \<times> cluster" where
  "ensureTopics b stopped interrupted tries c =
     topics_loop b stopped interrupted tries attempts 1 (BrokerError NilClient) c"

section \<open>The schema\<close>

datatype migrate_report =
    NoReport | StatusReport "applied list" "pending list" | UpReport "applied list"

definition runMigrations ::
  "(string \<Rightarrow> 'd \<Rightarrow> pg_error + 'd) \<Rightarrow> embedded list \<Rightarrow> bool \<Rightarrow> mig_env \<Rightarrow> string \<Rightarrow> 'd mig_db \<Rightarrow>
     migrate_error option \<times> migrate_report \<times> 'd mig_db" where
  "runMigrations exec files opened env cmd db =
     (if \<not> opened then (Some OpenFailed, NoReport, db)
      else if cmd = ''status'' then
        (case Status files (me_create_status env) (me_query env) db of
           (Inl e, db1) \<Rightarrow> (Some (Migrating e), NoReport, db1)
         | (Inr (appl, pend), db1) \<Rightarrow>
             (if length pend > 0 then Some MigrationsPending else None, StatusReport appl pend, db1))
      else
        (case Up exec files env db of
           ((_, Some e), db1) \<Rightarrow> (Some (Migrating e), NoReport, db1)
         | ((appl, None), db1) \<Rightarrow> (None, UpReport appl, db1)))"

section \<open>The command\<close>

record 'd deployment =
  dp_topics :: cluster
  dp_db :: "'d mig_db"

definition migrate_commands :: "string list" where
  "migrate_commands = [''all'', ''up'', ''status'', ''topics'']"

text \<open>\<open>args\<close> are the arguments after the name of the program, \<open>loaded\<close> the result of \<open>config.Load\<close>.\<close>

definition run_migrate ::
  "(string \<Rightarrow> 'd \<Rightarrow> pg_error + 'd) \<Rightarrow> embedded list \<Rightarrow> cfg_error list + config \<Rightarrow> string list \<Rightarrow>
     (nat \<Rightarrow> bool) \<Rightarrow> (nat \<Rightarrow> bool) \<Rightarrow> (nat \<Rightarrow> attempt) \<Rightarrow> bool \<Rightarrow> mig_env \<Rightarrow> 'd deployment \<Rightarrow>
     migrate_error option \<times> migrate_report \<times> 'd deployment" where
  "run_migrate exec files loaded args stopped interrupted tries opened env s =
     (case loaded of
        Inl es \<Rightarrow> (Some (ConfigInvalid es), NoReport, s)
      | Inr cfg \<Rightarrow>
          let cmd = (case args of [] \<Rightarrow> ''all'' | a # _ \<Rightarrow> a) in
          if cmd \<notin> set migrate_commands then (Some (UnknownCommand cmd), NoReport, s)
          else
            let (te, _, c1) = (if cmd = ''all'' \<or> cmd = ''topics''
                               then ensureTopics (cf_broker cfg) stopped interrupted tries (dp_topics s)
                               else (None, [], dp_topics s));
                s1 = s\<lparr>dp_topics := c1\<rparr> in
            (case te of
               Some e \<Rightarrow> (Some e, NoReport, s1)
             | None \<Rightarrow>
                 if cmd = ''topics'' then (None, NoReport, s1)
                 else (case runMigrations exec files opened env cmd (dp_db s1) of
                         (r, rep, db1) \<Rightarrow> (r, rep, s1\<lparr>dp_db := db1\<rparr>))))"

section \<open>What it guarantees\<close>

text \<open>An attempt that succeeds left both topics in place, with the partitions the broker confirmed.\<close>

lemma tryEnsureTopics_None:
  assumes "tryEnsureTopics b a c = (None, c1)"
  shows "cb_raw_topic b \<in> dom c1 \<and> cb_dlq_topic b \<in> dom c1 \<and>
    (\<exists>got. DescribeTopics True (at_details a c1) = Inr got \<and>
       int (partitions_in got (cb_raw_topic b)) = cb_raw_parts b \<and>
       int (partitions_in got (cb_dlq_topic b)) = cb_dlq_parts b)"
proof -
  from assms obtain created where en: "EnsureTopics True (at_listed a) (at_reply a) (topic_specs b) c = (created, None, c1)"
    by (auto simp: tryEnsureTopics_def split: sum.splits prod.splits option.splits if_splits)
  with assms have got: "\<exists>got. DescribeTopics True (at_details a c1) = Inr got \<and>
       int (partitions_in got (cb_raw_topic b)) = cb_raw_parts b \<and>
       int (partitions_in got (cb_dlq_topic b)) = cb_dlq_parts b"
    by (auto simp: tryEnsureTopics_def split: sum.splits if_splits)
  have spec: "t_name spec \<in> dom c1" if "spec \<in> set (topic_specs b)" for spec
    using create_missing_all [of c "at_reply a" "topic_specs b" "[]" c spec] en that
    by (auto simp: EnsureTopics_def split: if_splits)
  from spec [of "topic_specs b ! 0"] spec [of "topic_specs b ! 1"]
  have "cb_raw_topic b \<in> dom c1" "cb_dlq_topic b \<in> dom c1" by (simp_all add: topic_specs_def domIff)
  with got show ?thesis by blast
qed

lemma topics_loop_bounded:
  "topics_loop b stopped interrupted tries n i lastErr c = (r, waits, c') \<Longrightarrow>
   length waits \<le> n \<and> sum_list waits \<le> (\<Sum>k<n. int (i + k) * 10 ^ 9)"
proof (induction n arbitrary: i lastErr c r waits c')
  case (Suc n)
  have shift: "(\<Sum>k<Suc n. int (i + k) * 10 ^ 9) = int i * 10 ^ 9 + (\<Sum>k<n. int (Suc i + k) * 10 ^ 9)"
    by (simp add: sum.lessThan_Suc_shift add_ac del: sum.lessThan_Suc)
  have pos: "0 \<le> (\<Sum>k<n. int (Suc i + k) * 10 ^ 9)" by (intro sum_nonneg) simp
  from Suc.prems consider "waits = []" | "waits = [int i * 10 ^ 9]"
    | e r2 waits2 c1 c2 where "topics_loop b stopped interrupted tries n (Suc i) e c1 = (r2, waits2, c2)"
        "waits = int i * 10 ^ 9 # waits2"
    by (auto split: if_splits prod.splits option.splits)
  then show ?case
  proof cases
    case 1
    then show ?thesis using pos by (subst shift) simp
  next
    case 2
    then show ?thesis using pos by (subst shift) simp
  next
    case 3
    with Suc.IH [OF 3(1)] show ?thesis by (subst shift) simp
  qed
qed simp

lemma ensureTopics_bounded:
  assumes "ensureTopics b stopped interrupted tries c = (r, waits, c')"
  shows "length waits \<le> 10 \<and> sum_list waits \<le> 55 * 10 ^ 9"
  using topics_loop_bounded [of b stopped interrupted tries 10 1 "BrokerError NilClient" c r waits c'] assms
  by (simp add: ensureTopics_def attempts_def sum.lessThan_Suc numeral_eq_Suc)

lemma topics_loop_None:
  "topics_loop b stopped interrupted tries n i lastErr c = (None, waits, c') \<Longrightarrow>
   cb_raw_topic b \<in> dom c' \<and> cb_dlq_topic b \<in> dom c'"
proof (induction n arbitrary: i lastErr c waits)
  case (Suc n)
  then show ?case
    by (auto split: if_splits prod.splits option.splits dest: tryEnsureTopics_None)
qed simp

text \<open>\<open>status\<close> changes nothing that is recorded, and fails exactly when a file is not recorded.\<close>

lemma status_pending:
  assumes "load files = Inr ms" and "me_create_status env = None" and "me_query env = None"
  shows "\<exists>appl pend db'. runMigrations exec files True env ''status'' db =
      (if \<exists>m \<in> set ms. mg_version m \<notin> dom (mig_rows db) then Some MigrationsPending else None,
       StatusReport appl pend, db') \<and> mig_rows db' = mig_rows db \<and> md_schema db' = md_schema db"
  using assms
  by (simp add: runMigrations_def Status_def ensureTable_def filter_empty_conv)

end
