(* ===== verification/Interpolation.thy ===== *)
theory Interpolation
  imports Fleet
begin

text \<open>
  The binary search of \<open>Route.At\<close> against the linear walk it replaces. The only laws of the arithmetic
  that are used are that comparisons order the numbers that occur and that adding a distance does not
  decrease a number; they are the hypotheses \<open>fops_order\<close> and \<open>distances_ok\<close>, which leave NaN out.
\<close>

section \<open>The laws used\<close>

definition fops_order :: "'f fops \<Rightarrow> ('f \<Rightarrow> 'v :: linorder) \<Rightarrow> ('f \<Rightarrow> bool) \<Rightarrow> bool" where
  "fops_order F val num \<longleftrightarrow>
     (\<forall>x y. num x \<and> num y \<longrightarrow> (fo_le F x y \<longleftrightarrow> val x \<le> val y)) \<and> num (fo_of F 0) \<and>
     (\<forall>a d. num a \<and> num d \<and> val (fo_of F 0) \<le> val d \<longrightarrow> num (fo_add F a d) \<and> val a \<le> val (fo_add F a d))"

definition distances_ok :: "'f fops \<Rightarrow> ('f \<Rightarrow> 'v :: linorder) \<Rightarrow> ('f \<Rightarrow> bool) \<Rightarrow> 'f point list \<Rightarrow> bool" where
  "distances_ok F val num pts \<longleftrightarrow>
     (\<forall>p \<in> set pts. \<forall>q \<in> set pts. num (Haversine F p q) \<and> val (fo_of F 0) \<le> val (Haversine F p q))"

section \<open>The running totals\<close>

lemma prepare_loop_sorted:
  assumes "fops_order F val num"
  shows "prepare_loop F acc pts = (segs, cums, final) \<Longrightarrow> distances_ok F val num pts \<Longrightarrow> num acc \<Longrightarrow>
    sorted (map val (acc # cums)) \<and> list_all num (acc # cums) \<and> final = last (acc # cums)"
  using assms
proof (induction F acc pts arbitrary: segs cums final rule: prepare_loop.induct)
  case (1 F acc a b ps)
  let ?acc1 = "fo_add F acc (Haversine F a b)"
  have add_law: "num x \<Longrightarrow> num d \<Longrightarrow> val (fo_of F 0) \<le> val d \<Longrightarrow> num (fo_add F x d) \<and> val x \<le> val (fo_add F x d)" for x d
    using 1(5) unfolding fops_order_def by blast
  obtain segs1 cums1 final1 where rest: "prepare_loop F ?acc1 (b # ps) = (segs1, cums1, final1)" by (metis surj_pair)
  have "num (Haversine F a b) \<and> val (fo_of F 0) \<le> val (Haversine F a b)"
    using 1(3) by (simp add: distances_ok_def)
  then have law: "num ?acc1 \<and> val acc \<le> val ?acc1"
    using 1(4) add_law by blast
  have "distances_ok F val num (b # ps)" using 1(3) by (simp add: distances_ok_def)
  from "1.IH" [OF refl refl rest this _ 1(5)] law have
    "sorted (map val (?acc1 # cums1)) \<and> list_all num (?acc1 # cums1) \<and> final1 = last (?acc1 # cums1)" by blast
  moreover have "cums = ?acc1 # cums1" "final = final1" using 1(2) rest by (auto simp: Let_def)
  ultimately show ?case using law 1(4) by (auto intro: order_trans)
qed auto

lemma prepare_sorted:
  assumes "fops_order F val num" and "distances_ok F val num pts" and "prepare F rid pts = Inr r"
  shows "sorted (map val (ro_cumulative r)) \<and> list_all num (ro_cumulative r) \<and>
    ro_length r = last (ro_cumulative r) \<and> ro_cumulative r ! 0 = fo_of F 0"
proof -
  obtain segs cums acc where p: "prepare_loop F (fo_of F 0) pts = (segs, cums, acc)" by (metis surj_pair)
  from prepare_loop_sorted [OF assms(1) p assms(2)] p assms(1,3) show ?thesis
    by (auto simp: prepare_def fops_order_def split: if_splits)
qed

section \<open>The search\<close>

text \<open>The walk over the totals: the position of the first that is not below the offset.\<close>

fun walk :: "'f fops \<Rightarrow> 'f list \<Rightarrow> 'f \<Rightarrow> nat" where
  "walk F [] x = 0"
| "walk F (c # cs) x = (if fo_le F x c then 0 else Suc (walk F cs x))"

text \<open>For a test that never turns false again, \<open>sort.Search\<close> finds where it turns true.\<close>

lemma search_spec:
  "(\<And>a b. a \<le> b \<Longrightarrow> b < j \<Longrightarrow> f a \<Longrightarrow> f b) \<Longrightarrow> i \<le> j \<Longrightarrow>
   (\<forall>k. i \<le> k \<and> k < search f i j \<longrightarrow> \<not> f k) \<and> (search f i j < j \<longrightarrow> f (search f i j))"
proof (induction f i j rule: search.induct)
  case (1 f i j)
  show ?case
  proof (cases "i < j")
    case True
    let ?h = "(i + j) div 2"
    have h: "i \<le> ?h" "?h < j" using True by auto
    show ?thesis
    proof (cases "f ?h")
      case fh: True
      have s: "search f i j = search f i ?h" using True fh by (subst search.simps) (simp add: Let_def)
      have "\<And>a b. a \<le> b \<Longrightarrow> b < ?h \<Longrightarrow> f a \<Longrightarrow> f b" using 1(3) h(2) by (meson less_trans)
      from "1.IH"(2) [OF True refl _ this h(1)] fh have
        ih: "\<forall>k. i \<le> k \<and> k < search f i ?h \<longrightarrow> \<not> f k" "search f i ?h < ?h \<longrightarrow> f (search f i ?h)" by auto
      have "search f i ?h \<le> ?h" using search_bounds [OF h(1)] by simp
      with ih fh show ?thesis unfolding s by (cases "search f i ?h = ?h") auto
    next
      case False
      have s: "search f i j = search f (?h + 1) j" using True False by (subst search.simps) (simp add: Let_def)
      have below: "\<not> f k" if "k \<le> ?h" for k using 1(3) [of k ?h] that h(2) False by blast
      from "1.IH"(1) [OF True refl False 1(3)] h have
        "(\<forall>k. ?h + 1 \<le> k \<and> k < search f (?h + 1) j \<longrightarrow> \<not> f k) \<and> (search f (?h + 1) j < j \<longrightarrow> f (search f (?h + 1) j))"
        by simp
      with below show ?thesis unfolding s by (metis Suc_eq_plus1 not_less_eq_eq)
    qed
  next
    case False
    with 1(4) have "search f i j = i" "i = j" by (simp_all add: search.simps)
    then show ?thesis by auto
  qed
qed

lemma walk_spec:
  "walk F cs x \<le> length cs \<and> (\<forall>k < walk F cs x. \<not> fo_le F x (cs ! k)) \<and>
   (walk F cs x < length cs \<longrightarrow> fo_le F x (cs ! walk F cs x))"
proof (induction cs)
  case (Cons c cs)
  then show ?case by (auto simp: nth_Cons split: nat.split)
qed simp

lemma search_is_walk:
  assumes "fops_order F val num" and "sorted (map val cs)" and "list_all num cs" and "num x"
  shows "SearchFloat64s F cs x = walk F cs x"
proof -
  have le: "fo_le F x (cs ! k) \<longleftrightarrow> val x \<le> val (cs ! k)" if "k < length cs" for k
    using assms that by (auto simp: fops_order_def list_all_length)
  have mono: "fo_le F x (cs ! b)" if "a \<le> b" "b < length cs" "fo_le F x (cs ! a)" for a b
    using that le sorted_nth_mono [OF assms(2) that(1)] by auto
  let ?s = "search (\<lambda>i. fo_le F x (cs ! i)) 0 (length cs)"
  have spec: "\<forall>k < ?s. \<not> fo_le F x (cs ! k)" "?s < length cs \<longrightarrow> fo_le F x (cs ! ?s)"
    using search_spec [of "length cs" "\<lambda>i. fo_le F x (cs ! i)" 0] mono by auto
  have "?s \<le> length cs" using search_bounds [of 0 "length cs"] by simp
  with spec walk_spec [of F cs x] have "?s = walk F cs x"
    by (metis linorder_neqE_nat order.strict_trans2)
  then show ?thesis by (simp add: SearchFloat64s_def)
qed

section \<open>The segment found\<close>

text \<open>
  C40. The binary search of \<open>At\<close> finds the segment the offset lies on. For every route that was prepared
  and every offset, the search gives what a walk along the running totals gives, and the index derived
  from it is one of a segment; for an offset from zero to the length of the route the segment starts at or
  below the offset and ends at or above it, and it is the only one that starts strictly below.
\<close>

theorem segment_of_offset:
  assumes "fops_order F val num" and "distances_ok F val num pts" and "prepare F rid pts = Inr r"
    and "2 \<le> length pts" and "num off"
  shows "SearchFloat64s F (ro_cumulative r) off = walk F (ro_cumulative r) off \<and>
    (\<exists>i. segment_index F r off = int i \<and> i < length (ro_segments r) \<and>
      (val (fo_of F 0) \<le> val off \<and> val off \<le> val (ro_length r) \<longrightarrow>
         val (ro_cumulative r ! i) \<le> val off \<and> val off \<le> val (ro_cumulative r ! (i + 1)) \<and>
         (\<forall>j < length (ro_segments r).
            val (ro_cumulative r ! j) < val off \<and> val off \<le> val (ro_cumulative r ! (j + 1)) \<longrightarrow> j = i)))"
proof -
  let ?c = "ro_cumulative r"
  note S = prepare_sorted [OF assms(1-3)]
  have ok: "route_ok r" using prepare_ok [OF assms(3,4)] by simp
  have eq: "SearchFloat64s F ?c off = walk F ?c off"
    by (rule search_is_walk [OF assms(1)]) (use S assms(5) in auto)
  let ?n = "walk F ?c off"
  have len: "length ?c = Suc (length (ro_segments r))" "ro_segments r \<noteq> []"
    using ok by (auto simp: route_ok_def)
  have le: "fo_le F off (?c ! k) \<longleftrightarrow> val off \<le> val (?c ! k)" if "k < length ?c" for k
    using assms(1,5) S that by (auto simp: fops_order_def list_all_length)
  define i where "i = min (?n - 1) (length (ro_segments r) - 1)"
  have idx: "segment_index F r off = int i"
    using len(2) unfolding segment_index_def Let_def eq i_def
    by (cases "ro_segments r"; cases ?n) (auto simp: min_def)
  have small: "i < length (ro_segments r)" using len(2) by (cases "ro_segments r") (auto simp: i_def)
  moreover have "val (?c ! i) \<le> val off \<and> val off \<le> val (?c ! (i + 1)) \<and>
      (\<forall>j < length (ro_segments r). val (?c ! j) < val off \<and> val off \<le> val (?c ! (j + 1)) \<longrightarrow> j = i)"
    if range: "val (fo_of F 0) \<le> val off" "val off \<le> val (ro_length r)"
  proof -
    have last: "val off \<le> val (?c ! length (ro_segments r))"
      using S range(2) len by (metis diff_Suc_1 last_conv_nth length_0_conv nat.simps(3))
    then have n: "?n < length ?c"
      using walk_spec [of F ?c off] le len(1) by (metis lessI linorder_neqE_nat not_less_eq not_le)
    have below: "val (?c ! k) < val off" if "k < ?n" for k
      using walk_spec [of F ?c off] le that n by (metis less_trans not_le)
    have above: "val off \<le> val (?c ! ?n)" using walk_spec [of F ?c off] le n by auto
    have up: "val off \<le> val (?c ! k)" if "?n \<le> k" "k < length ?c" for k
      using above sorted_nth_mono [of "map val ?c" ?n k] S that by (auto intro: order_trans)
    have start: "val (?c ! 0) \<le> val off" using S range(1) by simp
    have i: "i = ?n - 1" using n len(1) by (simp add: i_def)
    show ?thesis
    proof (intro conjI allI impI)
      show "val (?c ! i) \<le> val off" using below [of i] start by (cases ?n) (auto simp: i)
      show "val off \<le> val (?c ! (i + 1))" using up [of "i + 1"] small len(1) by (simp add: i)
      fix j assume j: "j < length (ro_segments r)" "val (?c ! j) < val off \<and> val off \<le> val (?c ! (j + 1))"
      have "j < ?n"
      proof (rule ccontr)
        assume "\<not> j < ?n"
        with up [of j] j len(1) show False by (simp add: leD)
      qed
      moreover have "\<not> j + 1 < ?n" using below [of "j + 1"] j(2) by auto
      ultimately show "j = i" by (simp add: i)
    qed
  qed
  ultimately show ?thesis using eq idx by blast
qed

text \<open>Four points, each at a distance of one from the next: the offset 5/2 lies on the third segment.\<close>

definition line_ops :: "rat fops" where
  "line_ops = rat_ops\<lparr>fo_asin := (\<lambda>x. 10 / 127420176)\<rparr>"

definition line_points :: "rat point list" where
  "line_points = map (\<lambda>x. \<lparr>pt_lat = x, pt_lon = 0\<rparr>) [0, 1, 2, 3]"

lemma line_distance: "Haversine line_ops p q = 1"
  by (simp add: Haversine_def Let_def line_ops_def rat_ops_def)

theorem segment_of_offset_witness:
  "\<exists>r. prepare line_ops ''a'' line_points = Inr r \<and> segment_index line_ops r (5 / 2) = 2"
proof -
  have order: "fops_order line_ops id (\<lambda>x. True)" by (simp add: fops_order_def line_ops_def rat_ops_def)
  have dist: "distances_ok line_ops id (\<lambda>x. True) line_points"
    by (simp add: distances_ok_def line_distance) (simp add: line_ops_def rat_ops_def)
  have loop: "prepare_loop line_ops (fo_of line_ops 0) line_points = ([1, 1, 1], [1, 2, 3], 3)"
    by (simp add: line_points_def line_distance) (simp add: line_ops_def rat_ops_def Let_def)
  then obtain r where r: "prepare line_ops ''a'' line_points = Inr r" "ro_cumulative r = [0, 1, 2, 3]"
      "ro_segments r = [1, 1, 1]" "ro_length r = 3"
    by (simp add: prepare_def) (simp add: line_ops_def rat_ops_def)
  have "2 \<le> length line_points" by (simp add: line_points_def)
  note P = segment_of_offset [OF order dist r(1) this, of "5 / 2", OF TrueI, THEN conjunct2, unfolded r id_apply]
  then obtain i where
    i: "segment_index line_ops r (5 / 2) = int i" "i < length [1 :: rat, 1, 1]"
    and on: "fo_of line_ops 0 \<le> 5 / 2 \<and> 5 / 2 \<le> (3 :: rat) \<longrightarrow>
      [0, 1, 2, 3] ! i \<le> (5 / 2 :: rat) \<and> (5 / 2 :: rat) \<le> [0, 1, 2, 3] ! (i + 1)"
    by blast
  have "fo_of line_ops 0 = 0" by (simp add: line_ops_def rat_ops_def)
  moreover have "i = 0 \<or> i = 1 \<or> i = 2" using i(2) by auto
  ultimately have "i = 2" using on by auto
  with r(1) i(1) show ?thesis by auto
qed

end
