(* ===== verification/Submission.thy ===== *)
theory Submission
  imports Producer Ingest_Props Event_Props
begin

text \<open>
  The seam between the fleet producer and the ingest endpoint: the request \<open>producer.post\<close> makes, read
  by \<open>handleSubmit\<close>, published on the log, and the reply read back by the producer.
\<close>

section \<open>One exchange\<close>

text \<open>The request of \<open>post\<close>: the key is only set when there is one. \<open>rid\<close> is what the middleware assigned.\<close>

definition producer_request :: "string \<Rightarrow> string \<Rightarrow> bytes \<Rightarrow> request" where
  "producer_request key rid body =
     \<lparr>rq_header = (\<lambda>h. if h = ''Content-Type'' then ''application/json''
                       else if h = ''X-API-Key'' \<and> key \<noteq> [] then key else []),
      rq_body = body, rq_id = Some rid\<rparr>"

definition ingest_answer ::
  "(nat \<Rightarrow> rec_ack) \<Rightarrow> lib \<Rightarrow> (event_error \<Rightarrow> string) \<Rightarrow> string \<Rightarrow> ing_options \<Rightarrow> time \<Rightarrow> (nat \<Rightarrow> string) \<Rightarrow>
     string \<Rightarrow> string \<Rightarrow> wire_record list \<Rightarrow> bytes \<Rightarrow> http_answer \<times> wire_record list" where
  "ingest_answer ack l err_text json_err o' now fresh key rid lg body =
     (case handleSubmit (Produce True ack) l err_text json_err o' now fresh (producer_request key rid body)
             (new_resp (\<lambda>k. True)) lg of
        ((lbl, w), lg') \<Rightarrow> (Answered (rs_status w) (concat (rs_body w)), lg'))"

section \<open>Events that survive the way\<close>

definition envelope_for :: "string \<Rightarrow> time \<Rightarrow> string \<Rightarrow> bytes \<Rightarrow> envelope" where
  "envelope_for src now eid p =
     \<lparr>schema_version = Version, event_id = eid, event_type = EventTypeVehiclePosition, produced_at = now,
      source = src, payload = p\<rparr>"

text \<open>The library reads back what it writes for this event, and the event is valid.\<close>

definition sendable :: "lib \<Rightarrow> string \<Rightarrow> time \<Rightarrow> string \<Rightarrow> time \<Rightarrow> sim_obs \<Rightarrow> bool" where
  "sendable l src now eid ts ob \<longleftrightarrow>
     wire_codec l eid ts ob \<and> position_codec l (position_of ts ob) \<and> Validate (position_of ts ob) = None \<and>
     ts \<le> now + MaxFutureSkew \<and> now \<noteq> 0 \<and> eid \<noteq> [] \<and> uuid_ok l eid \<and>
     (case marshal_position l (position_of ts ob) of
        None \<Rightarrow> False
      | Some p \<Rightarrow> p \<noteq> [] \<and> envelope_codec l (envelope_for src now eid p))"

text \<open>What the log holds of it: its vehicle as the key, and a value the consumer decodes to the report.\<close>

definition carries :: "lib \<Rightarrow> string \<Rightarrow> time \<Rightarrow> sim_obs \<Rightarrow> brecord \<Rightarrow> bool" where
  "carries l eid ts ob r \<longleftrightarrow> b_key r = so_vehicle ob \<and> b_headers r = [] \<and>
     (\<exists>env. Decode l (b_value r) = Inr env \<and> event_id env = eid \<and> AsVehiclePosition l env = Inr (position_of ts ob))"

lemma sendable_read:
  assumes "sendable l src now eid ts ob"
  shows "\<exists>raw env pl. wire_event l eid ts ob = Some raw \<and> Accept l raw src now fresh = Inr (env, position_of ts ob) \<and>
    Marshal l env = Inr pl \<and> carries l eid ts ob \<lparr>b_key = so_vehicle ob, b_value = pl, b_headers = []\<rparr>"
proof -
  from assms obtain p where p: "marshal_position l (position_of ts ob) = Some p" "p \<noteq> []"
    "envelope_codec l (envelope_for src now eid p)" by (auto simp: sendable_def split: option.splits)
  note c = assms [unfolded sendable_def]
  from wire_event_read [of l eid ts ob] c obtain raw where
    raw: "wire_event l eid ts ob = Some raw"
    "decode_doc l observation_names (store_observation l) raw \<lparr>o_position = zero_position, o_event_id = []\<rparr> =
      Some \<lparr>o_position = position_of ts ob, o_event_id = eid\<rparr>" by blast
  let ?env = "envelope_for src now eid p"
  have "Build l src (position_of ts ob) eid now = Inr ?env"
    using c p(1) by (simp add: Build_def envelope_for_def)
  moreover have "ValidateClock (position_of ts ob) now = None"
    using c by (simp add: ValidateClock_def position_of_def)
  ultimately have acc: "Accept l raw src now fresh = Inr (?env, position_of ts ob)"
    using raw(2) c by (simp add: Accept_def)
  have "validateHeader l ?env = None"
    using c p(2) by (simp add: validateHeader_def envelope_for_def Version_def EventTypeVehiclePosition_def)
  from envelope_roundtrip [OF p(3) this] obtain pl where pl: "Marshal l ?env = Inr pl" "Decode l pl = Inr ?env" by blast
  from position_roundtrip [of l "position_of ts ob"] c p(1)
  have "AsVehiclePosition l ?env = Inr (position_of ts ob)"
    by (simp add: AsVehiclePosition_def envelope_for_def)
  with raw(1) acc pl show ?thesis
    by (intro exI [of _ raw] exI [of _ ?env] exI [of _ pl]) (simp add: carries_def envelope_for_def)
qed

section \<open>The batch\<close>

lemma batch_read:
  assumes "\<forall>k < length obs. sendable l src now (ids (i + k)) (clock (i + k)) (obs ! k)"
  shows "\<exists>raws recs. wire_batch l ids clock i obs = Some raws \<and> length raws = length obs \<and>
    judge l src now fresh i raws = Inr (recs, []) \<and> length recs = length obs \<and>
    (\<forall>k < length obs. carries l (ids (i + k)) (clock (i + k)) (obs ! k) (recs ! k))"
  using assms
proof (induction obs arbitrary: i)
  case (Cons ob obs)
  have "sendable l src now (ids i) (clock i) ob" using Cons.prems [rule_format, of 0] by simp
  from sendable_read [OF this, of "fresh i"] obtain raw env pl where
    one: "wire_event l (ids i) (clock i) ob = Some raw" "Accept l raw src now (fresh i) = Inr (env, position_of (clock i) ob)"
    "Marshal l env = Inr pl" "carries l (ids i) (clock i) ob \<lparr>b_key = so_vehicle ob, b_value = pl, b_headers = []\<rparr>" by blast
  have "\<forall>k < length obs. sendable l src now (ids (Suc i + k)) (clock (Suc i + k)) (obs ! k)"
    using Cons.prems by (metis Suc_less_eq add_Suc_right add_Suc length_Cons nth_Cons_Suc)
  from Cons.IH [OF this] obtain raws recs where
    rest: "wire_batch l ids clock (Suc i) obs = Some raws" "length raws = length obs"
    "judge l src now fresh (Suc i) raws = Inr (recs, [])" "length recs = length obs"
    "\<forall>k < length obs. carries l (ids (Suc i + k)) (clock (Suc i + k)) (obs ! k) (recs ! k)" by blast
  let ?r = "\<lparr>b_key = so_vehicle ob, b_value = pl, b_headers = []\<rparr>"
  have "judge l src now fresh i (raw # raws) = Inr (?r # recs, [])"
    using one(2,3) rest(3) by (simp add: position_of_def)
  moreover have "carries l (ids (i + k)) (clock (i + k)) ((ob # obs) ! k) ((?r # recs) ! k)"
    if "k < length (ob # obs)" for k
    using that one(4) rest(5) by (cases k) auto
  ultimately show ?case
    using one(1) rest(1,2,4) by (intro exI [of _ "raw # raws"] exI [of _ "?r # recs"]) simp
qed simp

text \<open>The documents around the events: the body of the request and the body of the reply.\<close>

definition request_codec :: "lib \<Rightarrow> bytes list \<Rightarrow> bool" where
  "request_codec l raws \<longleftrightarrow> faithful l (JArr raws) \<and> faithful l (JObj [(''events'', json_text l (JArr raws))])"

definition reply_codec :: "lib \<Rightarrow> nat \<Rightarrow> bool" where
  "reply_codec l n \<longleftrightarrow>
     (let t = json_text l (JObj [(''accepted'', text_int l (int n))]) @ newline in
      json_valid l t \<and> json_scan l t = Value (JObj [(''accepted'', text_int l (int n))]) \<and>
      faithful l (JNum (dec_int (int n))) \<and> length t \<le> 2 ^ 20)"

lemma read_request:
  assumes "request_codec l raws" and "int (length (request_body l raws)) \<le> limit"
  shows "read_batch l limit (request_body l raws) = BodyBatch raws"
  using assms
  by (simp add: request_codec_def faithful_def read_batch_def request_body_def decode_struct_def batch_names_def
      field_of_def store_batch_def Let_def)

lemma read_reply:
  assumes "reply_codec l n" and "n < 2 ^ 63"
  shows "unmarshal l reply_names (store_reply l) (take (2 ^ 20) (submit_text l err_text n [] @ newline))
    \<lparr>sr_accepted = 0, sr_rejected = 0\<rparr> = Some \<lparr>sr_accepted = int n, sr_rejected = 0\<rparr>"
proof -
  let ?t = "json_text l (JObj [(''accepted'', text_int l (int n))]) @ newline"
  have n: "- (2 ^ 63) \<le> int n" "int n < 2 ^ 63" using assms(2) by simp_all
  have t: "submit_text l err_text n [] @ newline = ?t" by (simp add: submit_text_def)
  have "take (2 ^ 20) ?t = ?t" using assms(1) unfolding reply_codec_def Let_def by (intro take_all) blast
  moreover have "json_valid l ?t" "json_scan l ?t = Value (JObj [(''accepted'', text_int l (int n))])"
    "faithful l (JNum (dec_int (int n)))"
    using assms(1) unfolding reply_codec_def Let_def by blast+
  ultimately show ?thesis
    unfolding t unmarshal_def using read_int_text [OF _ n]
    by (simp add: reply_names_def field_of_def store_reply_def)
qed

section \<open>Properties\<close>


section \<open>A concrete exchange\<close>

text \<open>One report of one vehicle, and a printer that is injective on the documents it leads to.\<close>

fun wire_text :: "node \<Rightarrow> bytes" where
  "wire_text JNull = ''n''"
| "wire_text (JBool b) = (if b then ''t'' else ''f'')"
| "wire_text (JNum s) = s"
| "wire_text (JStr s) = CHR 0x22 # take 2 s"
| "wire_text (JArr xs) = CHR ''['' # map (\<lambda>x. CHR ''x'') xs"
| "wire_text (JObj ms) = CHR ''{'' # map (\<lambda>m. hd (fst m)) ms"

definition wire_ob :: sim_obs where
  "wire_ob = \<lparr>so_vehicle = ''v1'', so_route = ''r1'', so_lat = Finite 12, so_lon = Finite 77, so_speed = Finite 30,
     so_bearing = Finite 90, so_sequence = 7\<rparr>"

definition wire_position_members :: "(string \<times> bytes) list" where
  "wire_position_members =
     [(''vehicle_id'', wire_text (JStr ''v1'')), (''route_id'', wire_text (JStr ''r1'')), (''lat'', ''12''), (''lon'', ''77''),
      (''speed_kph'', ''30''), (''bearing_deg'', ''90''), (''event_ts'', wire_text (JStr ''1000'')), (''sequence'', ''7'')]"

definition wire_raw :: bytes where
  "wire_raw = wire_text (JObj ((''event_id'', wire_text (JStr ''u1'')) # wire_position_members))"

definition wire_envelope_members :: "(string \<times> bytes) list" where
  "wire_envelope_members =
     [(''schema_version'', ''1''), (''event_id'', wire_text (JStr ''u1'')), (''event_type'', wire_text (JStr ''vehicle.position'')),
      (''produced_at'', wire_text (JStr ''2000'')), (''source'', wire_text (JStr ''ingest'')),
      (''payload'', wire_text (JObj wire_position_members))]"

definition wire_nodes :: "node list" where
  "wire_nodes = [JNum ''1'', JNum ''7'', JNum ''12'', JNum ''30'', JNum ''77'', JNum ''90'', JStr ''v1'', JStr ''r1'', JStr ''1000'',
     JStr ''2000'', JStr ''ingest'', JStr ''vehicle.position'', JStr ''u1'', JObj wire_position_members,
     JObj ((''event_id'', wire_text (JStr ''u1'')) # wire_position_members), JObj wire_envelope_members,
     JArr [wire_raw], JObj [(''events'', wire_text (JArr [wire_raw]))], JObj [(''accepted'', ''1'')]]"

definition wire_scan :: "bytes \<Rightarrow> scan" where
  "wire_scan raw =
     (case find (\<lambda>n. wire_text n = raw \<or> wire_text n @ newline = raw) wire_nodes of
        Some n \<Rightarrow> Value n
      | None \<Rightarrow> SyntaxError)"

definition wire_lib :: lib where
  "wire_lib = sample_lib\<lparr>json_scan := wire_scan, json_text := wire_text, json_valid := (\<lambda>x. True)\<rparr>"

lemmas wire_simps = wire_lib_def wire_scan_def wire_nodes_def wire_envelope_members_def wire_position_members_def
  wire_raw_def wire_ob_def sample_lib_def newline_def

lemma wire_scans: "list_all (\<lambda>n. wire_scan (wire_text n) = Value n) wire_nodes"
  by code_simp

lemma wire_faithful: "n \<in> set wire_nodes \<Longrightarrow> faithful wire_lib n"
  using wire_scans by (simp add: faithful_def wire_lib_def list_all_iff)

lemma wire_fields:
  "float_lit wire_lib r = dec_int \<lfloor>r\<rfloor>" "lit_float wire_lib s = map_option (\<lambda>i. Finite (of_int i)) (lit_int s)"
  "time_text wire_lib t = Some (dec_int t)" "time_parse wire_lib s = lit_int s" "json_text wire_lib = wire_text"
  "json_compact wire_lib p = p" "uuid_ok wire_lib s \<longleftrightarrow> take 1 s = ''u''" "json_valid wire_lib p"
  by (simp_all add: wire_lib_def sample_lib_def)

lemma wire_numbers:
  "dec_int 1 = ''1''" "dec_int 12 = ''12''" "dec_int 77 = ''77''" "dec_int 30 = ''30''" "dec_int 90 = ''90''"
  "dec_int 1000 = ''1000''" "dec_int 2000 = ''2000''" "dec_nat (Suc 0) = ''1''" "dec_nat 7 = ''7''"
  by (simp_all add: dec_int_def dec_nat.simps digit_chars)

lemmas wire_literals =
  lit_int_dec_int [of 12, unfolded wire_numbers] lit_int_dec_int [of 77, unfolded wire_numbers]
  lit_int_dec_int [of 30, unfolded wire_numbers] lit_int_dec_int [of 90, unfolded wire_numbers]
  lit_int_dec_int [of 1000, unfolded wire_numbers] lit_int_dec_int [of 2000, unfolded wire_numbers]

lemma wire_floats:
  "float_codec wire_lib (Finite 12)" "float_codec wire_lib (Finite 77)" "float_codec wire_lib (Finite 30)"
  "float_codec wire_lib (Finite 90)"
  by (simp_all add: float_codec_def wire_fields wire_numbers wire_literals wire_faithful wire_nodes_def
      del: lit_int.simps)

lemma wire_times: "time_codec wire_lib 1000" "time_codec wire_lib 2000"
  by (simp_all add: time_codec_def wire_fields wire_numbers wire_literals wire_faithful wire_nodes_def
      del: lit_int.simps)

lemma wire_documents:
  "wire_members wire_lib ''u1'' 1000 wire_ob = Some ((''event_id'', wire_text (JStr ''u1'')) # wire_position_members)"
  "position_members wire_lib (position_of 1000 wire_ob) = Some wire_position_members"
  "envelope_members wire_lib (envelope_for ''ingest'' 2000 ''u1'' (wire_text (JObj wire_position_members))) = Some wire_envelope_members"
proof -
  show "wire_members wire_lib ''u1'' 1000 wire_ob = Some ((''event_id'', wire_text (JStr ''u1'')) # wire_position_members)"
    by (simp add: wire_members_def wire_ob_def text_float_def text_time_def text_str_def text_uint64_def wire_fields
        wire_numbers wire_position_members_def)
  show "position_members wire_lib (position_of 1000 wire_ob) = Some wire_position_members"
    by (simp add: position_members_def position_of_def wire_ob_def text_float_def text_time_def text_str_def text_uint64_def
        member_float_ptr_def wire_fields wire_numbers wire_position_members_def)
  have "json_scan wire_lib (wire_text (JObj wire_position_members)) = Value (JObj wire_position_members)"
    using wire_faithful [of "JObj wire_position_members"] by (simp add: faithful_def wire_fields wire_nodes_def)
  then show "envelope_members wire_lib (envelope_for ''ingest'' 2000 ''u1'' (wire_text (JObj wire_position_members))) = Some wire_envelope_members"
    by (simp add: envelope_members_def envelope_for_def raw_member_def text_time_def text_str_def text_int_def wire_fields
        wire_numbers wire_envelope_members_def Version_def EventTypeVehiclePosition_def)
qed

lemma wire_sendable: "sendable wire_lib ''ingest'' 2000 ''u1'' 1000 wire_ob"
proof -
  have "wire_codec wire_lib ''u1'' 1000 wire_ob"
    unfolding wire_codec_def wire_documents
    by (simp add: wire_ob_def wire_floats wire_times wire_faithful wire_nodes_def wire_numbers)
  moreover have "position_codec wire_lib (position_of 1000 wire_ob)"
    unfolding position_codec_def wire_documents
    by (simp add: position_of_def wire_ob_def wire_floats wire_times wire_faithful wire_nodes_def wire_numbers)
  moreover have "Validate (position_of 1000 wire_ob) = None"
    by (simp add: position_of_def wire_ob_def Validate_def f_le_Finite_left)
  moreover have "envelope_codec wire_lib (envelope_for ''ingest'' 2000 ''u1'' (wire_text (JObj wire_position_members)))"
    unfolding envelope_codec_def wire_documents
    by (simp add: envelope_for_def wire_times wire_faithful wire_nodes_def wire_numbers wire_fields Version_def
        EventTypeVehiclePosition_def)
  moreover have "marshal_position wire_lib (position_of 1000 wire_ob) = Some (wire_text (JObj wire_position_members))"
    by (simp add: marshal_position_def wire_documents wire_fields)
  ultimately show ?thesis by (simp add: sendable_def wire_fields MaxFutureSkew_def)
qed

definition wire_ing :: ing_options where
  "wire_ing = \<lparr>in_topic = ''raw'', in_source = ''ingest'', in_api_key = ''secret'', in_max_body = 100, in_max_batch = 5\<rparr>"

definition no_counts :: counters where
  "no_counts = \<lparr>pc_offered = 1, pc_accepted = 0, pc_rejected = 0, pc_batches = 0, pc_failed = 0, pc_bytes = 0\<rparr>"


end
