(* ===== verification/Producer_Run.thy ===== *)
theory Producer_Run
  imports Producer "HOL-Library.Multiset"
begin

text \<open>
  \<open>producer.run\<close> of \<open>cmd/simulate/main.go\<close>: the workers that take batches from the channel and post
  them, beside the generator that fills it, until the channel is closed and drained.

  A step is one operation on the channel or one post. The counters are atomic and are only added to, so
  that a post adds to them at once. What each post sends and is answered is arbitrary. The batches the
  generator hands over are \<open>pl_todo\<close>, the first component of a run of \<open>generate\<close>.
\<close>

section \<open>The pool\<close>

datatype worker = Idle | Posting "sim_obs list" | Exited

record pool =
  pl_todo :: "sim_obs list list"
  pl_queue :: "sim_obs list list"
  pl_cap :: nat
  pl_closed :: bool
  pl_workers :: "worker list"
  pl_counters :: counters
  pl_posted :: "sim_obs list list"

definition zero_counters :: "int \<Rightarrow> counters" where
  "zero_counters offered =
     \<lparr>pc_offered = offered, pc_accepted = 0, pc_rejected = 0, pc_batches = 0, pc_failed = 0, pc_bytes = 0\<rparr>"

definition pool_start :: "nat \<Rightarrow> int \<Rightarrow> sim_obs list list \<Rightarrow> pool" where
  "pool_start n offered batches =
     \<lparr>pl_todo = batches, pl_queue = [], pl_cap = n * 2, pl_closed = False, pl_workers = replicate n Idle,
      pl_counters = zero_counters offered, pl_posted = []\<rparr>"

inductive pool_step :: "pool \<Rightarrow> pool \<Rightarrow> bool" where
  send: "pl_todo s = b # bs \<Longrightarrow> length (pl_queue s) < pl_cap s \<Longrightarrow>
    pool_step s (s\<lparr>pl_todo := bs, pl_queue := pl_queue s @ [b]\<rparr>)"
| close: "pl_todo s = [] \<Longrightarrow> \<not> pl_closed s \<Longrightarrow> pool_step s (s\<lparr>pl_closed := True\<rparr>)"
| take: "i < length (pl_workers s) \<Longrightarrow> pl_workers s ! i = Idle \<Longrightarrow> pl_queue s = b # q \<Longrightarrow>
    pool_step s (s\<lparr>pl_queue := q, pl_workers := (pl_workers s)[i := Posting b]\<rparr>)"
| posted: "i < length (pl_workers s) \<Longrightarrow> pl_workers s ! i = Posting b \<Longrightarrow>
    post l ids clock built answer b (pl_counters s) = (sent, c) \<Longrightarrow>
    pool_step s (s\<lparr>pl_workers := (pl_workers s)[i := Idle], pl_counters := c, pl_posted := pl_posted s @ [b]\<rparr>)"
| exit: "i < length (pl_workers s) \<Longrightarrow> pl_workers s ! i = Idle \<Longrightarrow> pl_queue s = [] \<Longrightarrow> pl_closed s \<Longrightarrow>
    pool_step s (s\<lparr>pl_workers := (pl_workers s)[i := Exited]\<rparr>)"

text \<open>\<open>wg.Wait\<close> returns, and \<open>run\<close> with it, when the channel is closed and every worker left its loop.\<close>

definition run_over :: "pool \<Rightarrow> bool" where
  "run_over s \<longleftrightarrow> pl_closed s \<and> (\<forall>w \<in> set (pl_workers s). w = Exited)"

section \<open>What is where\<close>

fun in_hand :: "worker \<Rightarrow> sim_obs list list" where
  "in_hand (Posting b) = [b]"
| "in_hand w = []"

definition held :: "worker list \<Rightarrow> sim_obs list list" where
  "held ws = concat (map in_hand ws)"

lemma held_update:
  "i < length ws \<Longrightarrow> mset (held (ws[i := w])) + mset (in_hand (ws ! i)) = mset (held ws) + mset (in_hand w)"
proof (induction ws arbitrary: i)
  case (Cons v vs)
  then show ?case by (cases i) (auto simp: held_def ac_simps)
qed simp

text \<open>
  The batches of the run are those still to be sent, queued, in the hands of a worker, or posted; each
  posted one was counted as sent or failed; and no worker has left while a batch may still come.
\<close>

definition pool_ok :: "nat \<Rightarrow> sim_obs list list \<Rightarrow> pool \<Rightarrow> bool" where
  "pool_ok n batches s \<longleftrightarrow>
     mset (pl_todo s) + mset (pl_queue s) + mset (held (pl_workers s)) + mset (pl_posted s) = mset batches \<and>
     length (pl_workers s) = n \<and> pl_cap s = n * 2 \<and>
     (pl_closed s \<longrightarrow> pl_todo s = []) \<and>
     (Exited \<in> set (pl_workers s) \<longrightarrow> pl_closed s \<and> pl_queue s = []) \<and>
     0 \<le> pc_failed (pl_counters s) \<and> pc_failed (pl_counters s) \<le> int (length (pl_posted s)) \<and>
     0 \<le> pc_batches (pl_counters s) \<and> pc_batches (pl_counters s) \<le> int (length (pl_posted s)) \<and>
     int (length (pl_posted s)) \<le> pc_batches (pl_counters s) + pc_failed (pl_counters s)"

lemma in_set_update: "i < length ws \<Longrightarrow> x \<in> set (ws[i := w]) \<Longrightarrow> x = w \<or> x \<in> set ws"
  using set_update_subset_insert by fastforce

lemma pool_step_ok: "pool_step s t \<Longrightarrow> pool_ok n batches s \<Longrightarrow> pool_ok n batches t"
proof (induction rule: pool_step.induct)
  case (take i s b q)
  then have "mset (held ((pl_workers s)[i := Posting b])) = mset (held (pl_workers s)) + {#b#}"
    using held_update [of i "pl_workers s" "Posting b"] by simp
  moreover have "Exited \<notin> set (pl_workers s)" using take by (auto simp: pool_ok_def)
  then have "Exited \<notin> set ((pl_workers s)[i := Posting b])" using in_set_update [OF take(1)] by blast
  ultimately show ?case using take by (simp add: pool_ok_def)
next
  case (posted i s b l ids clock built answer sent c)
  then have h: "mset (held ((pl_workers s)[i := Idle])) + {#b#} = mset (held (pl_workers s))"
    using held_update [of i "pl_workers s" Idle] by simp
  have "Exited \<in> set ((pl_workers s)[i := Idle]) \<Longrightarrow> Exited \<in> set (pl_workers s)"
    using in_set_update [OF posted(1)] by blast
  moreover note post_accounted [OF posted(3)]
  moreover have "mset (pl_todo s) + mset (pl_queue s) + mset (held ((pl_workers s)[i := Idle])) + mset (pl_posted s @ [b]) =
      mset batches"
    using posted(4) unfolding pool_ok_def h [symmetric] by (simp add: ac_simps)
  ultimately show ?case using posted(4) unfolding pool_ok_def by (auto split: if_splits)
next
  case (exit i s)
  then have "mset (held ((pl_workers s)[i := Exited])) = mset (held (pl_workers s))"
    using held_update [of i "pl_workers s" Exited] by simp
  moreover have "pl_todo s = []" using exit(4,5) by (simp add: pool_ok_def)
  ultimately show ?case using exit by (simp add: pool_ok_def)
qed (auto simp: pool_ok_def)

interpretation pool_runs: stepwise_invariant pool_step "pool_ok n batches" for n batches
  by unfold_locales (rule pool_step_ok)

lemma pool_start_ok: "pool_ok n batches (pool_start n offered batches)"
  by (auto simp: pool_ok_def pool_start_def held_def zero_counters_def)

section \<open>Progress\<close>

text \<open>What is left to do: four steps for a batch that is to be sent, and so on down to a worker's exit.\<close>

fun weight :: "worker \<Rightarrow> nat" where
  "weight Idle = 1"
| "weight (Posting b) = 2"
| "weight Exited = 0"

definition work_left :: "pool \<Rightarrow> nat" where
  "work_left s = 3 * length (pl_todo s) + 2 * length (pl_queue s) + sum_list (map weight (pl_workers s)) +
     (if pl_closed s then 0 else 1)"

lemma weight_update:
  "i < length ws \<Longrightarrow> sum_list (map weight (ws[i := w])) + weight (ws ! i) = sum_list (map weight ws) + weight w"
proof (induction ws arbitrary: i)
  case (Cons v vs)
  then show ?case by (cases i) auto
qed simp

lemma step_works: "pool_step s t \<Longrightarrow> work_left t < work_left s"
proof (induction rule: pool_step.induct)
  case (take i s b q)
  then show ?case using weight_update [of i "pl_workers s" "Posting b"] by (simp add: work_left_def)
next
  case (posted i s b l ids clock built answer sent c)
  then show ?case using weight_update [of i "pl_workers s" Idle] by (simp add: work_left_def)
next
  case (exit i s)
  then show ?case using weight_update [of i "pl_workers s" Exited] by (simp add: work_left_def)
qed (simp_all add: work_left_def)

lemma never_stuck:
  assumes ok: "pool_ok n batches s" and n: "1 \<le> n" and going: "\<not> run_over s"
  shows "\<exists>t. pool_step s t"
proof (cases "\<exists>i < length (pl_workers s). pl_workers s ! i \<noteq> Exited")
  case True
  then obtain i where i: "i < length (pl_workers s)" "pl_workers s ! i \<noteq> Exited" by blast
  show ?thesis
  proof (cases "pl_workers s ! i")
    case (Posting b)
    then show ?thesis using pool_step.posted [OF i(1) Posting] by (metis surj_pair)
  next
    case Idle
    show ?thesis
    proof (cases "pl_queue s")
      case (Cons b q)
      then show ?thesis using pool_step.take [OF i(1) Idle] by blast
    next
      case Nil
      show ?thesis
      proof (cases "pl_todo s")
        case (Cons b bs)
        then show ?thesis using pool_step.send [OF Cons] Nil ok n by (auto simp: pool_ok_def)
      next
        case todo: Nil
        then show ?thesis
          using pool_step.close [OF todo] pool_step.exit [OF i(1) Idle Nil] by (cases "pl_closed s") blast+
      qed
    qed
  qed (use i(2) in simp)
next
  case False
  then have all: "\<forall>w \<in> set (pl_workers s). w = Exited" by (metis in_set_conv_nth)
  moreover have "pl_workers s \<noteq> []" using ok n by (auto simp: pool_ok_def)
  ultimately have "Exited \<in> set (pl_workers s)" by (metis list.set_intros(1) neq_Nil_conv)
  then have "pl_closed s" using ok by (simp add: pool_ok_def)
  with all going show ?thesis by (simp add: run_over_def)
qed

text \<open>A run as the list of its states, each a step from the one before.\<close>

lemma run_bounded:
  assumes "\<forall>k < m. pool_step (f k) (f (Suc k))"
  shows "m + work_left (f m) \<le> work_left (f 0)"
  using assms
proof (induction m)
  case (Suc m)
  then have "m + work_left (f m) \<le> work_left (f 0)" "work_left (f (Suc m)) < work_left (f m)"
    using step_works by auto
  then show ?case by simp
qed simp

lemma work_at_start: "work_left (pool_start n offered batches) = 3 * length batches + n + 1"
  by (simp add: work_left_def pool_start_def sum_list_replicate)

lemma work_only_falls: "pool_step\<^sup>*\<^sup>* s t \<Longrightarrow> work_left t \<le> work_left s"
  by (induction rule: rtranclp_induct) (auto dest: step_works)

lemma reaches_end:
  "pool_ok n batches s \<Longrightarrow> 1 \<le> n \<Longrightarrow> \<exists>t. pool_step\<^sup>*\<^sup>* s t \<and> run_over t"
proof (induction "work_left s" arbitrary: s rule: less_induct)
  case less
  show ?case
  proof (cases "run_over s")
    case False
    with never_stuck [OF less.prems] obtain t where t: "pool_step s t" by blast
    from less.hyps [OF step_works [OF t] pool_step_ok [OF t less.prems(1)] less.prems(2)] t
    show ?thesis by (meson converse_rtranclp_into_rtranclp)
  qed blast
qed

section \<open>The run drains\<close>

text \<open>
  C39. A run with at least one worker drains what the generator handed over. However the generator and
  the workers interleave and whatever the server answers, no state of the run is stuck before the end;
  no run takes more than three steps for each batch and one for each worker and for closing the channel;
  at the end every batch was posted exactly once and no counter lost one; and \<open>run\<close> returns without an
  error exactly when no batch failed, in which case every batch was sent.
\<close>

theorem run_drains:
  assumes "1 \<le> n" and "pool_step\<^sup>*\<^sup>* (pool_start n offered batches) s"
  shows "(run_over s \<or> (\<exists>t. pool_step s t)) \<and>
    (\<forall>m f. f 0 = s \<and> (\<forall>k < m. pool_step (f k) (f (Suc k))) \<longrightarrow> m \<le> 3 * length batches + n + 1) \<and>
    (run_over s \<longrightarrow> mset (pl_posted s) = mset batches \<and>
       int (length batches) \<le> pc_batches (pl_counters s) + pc_failed (pl_counters s) \<and>
       (run_result (pl_counters s) = None \<longleftrightarrow> pc_failed (pl_counters s) = 0) \<and>
       (run_result (pl_counters s) = None \<longrightarrow> pc_batches (pl_counters s) = int (length batches)))"
proof (intro conjI allI impI)
  have ok: "pool_ok n batches s"
    using pool_runs.run_keeps_from_start [OF pool_start_ok assms(2)] .
  show "run_over s \<or> (\<exists>t. pool_step s t)" using never_stuck [OF ok assms(1)] by blast
  show "m \<le> 3 * length batches + n + 1" if "f 0 = s \<and> (\<forall>k < m. pool_step (f k) (f (Suc k)))" for m f
    using run_bounded [of m f] work_only_falls [OF assms(2)] that by (simp add: work_at_start)
  assume over: "run_over s"
  then have "Exited \<in> set (pl_workers s)" using ok assms(1) by (cases "pl_workers s") (auto simp: pool_ok_def run_over_def)
  moreover have "held (pl_workers s) = []" using over unfolding held_def run_over_def by force
  ultimately have all: "mset (pl_posted s) = mset batches" using ok unfolding pool_ok_def by auto
  then show "mset (pl_posted s) = mset batches" .
  have "length (pl_posted s) = length batches" using all by (metis size_mset)
  with ok show "int (length batches) \<le> pc_batches (pl_counters s) + pc_failed (pl_counters s)"
    and "run_result (pl_counters s) = None \<longleftrightarrow> pc_failed (pl_counters s) = 0"
    and "run_result (pl_counters s) = None \<Longrightarrow> pc_batches (pl_counters s) = int (length batches)"
    by (auto simp: pool_ok_def run_result_def split: if_splits)
qed

theorem run_drains_witness:
  "\<exists>s. pool_step\<^sup>*\<^sup>* (pool_start 2 3 [[], [], []]) s \<and> run_over s \<and> length (pl_posted s) = 3"
proof -
  obtain s where s: "pool_step\<^sup>*\<^sup>* (pool_start 2 3 [[], [], []]) s" "run_over s"
    using reaches_end [OF pool_start_ok, of 2] by auto
  from run_drains [OF _ s(1)] s(2) have "mset (pl_posted s) = mset [[], [], []]" by simp
  then have "length (pl_posted s) = 3" by (metis length_Cons list.size(3) numeral_3_eq_3 size_mset)
  with s show ?thesis by blast
qed

text \<open>Without a worker nothing is ever posted: the flag is not checked after it was parsed.\<close>

lemma no_workers_no_posts:
  assumes "pool_step\<^sup>*\<^sup>* (pool_start 0 offered batches) s"
  shows "pl_posted s = []"
  using assms
proof (induction rule: rtranclp_induct)
  case (step s t)
  from pool_runs.run_keeps_from_start [OF pool_start_ok step(1)] have "pl_workers s = []" by (simp add: pool_ok_def)
  with step(2,3) show ?case by (auto elim: pool_step.cases)
qed (simp add: pool_start_def)

end
