(* ===== verification/Replay_Cli.thy ===== *)
theory Replay_Cli
  imports Replay_Props Config
begin

text \<open>
  The operator's command, \<open>cmd/replay/main.go\<close>: the dispatch, the three subcommands with everything
  they print and their exit codes, and the table they print entries in.

  Flag parsing is \<open>flag\<close>: the parsed values, or none when it refused, are arguments, as are the
  texts of errors, of instants, of quoted strings and of indented JSON. The text of the usage is the
  constructor \<open>Usage\<close>. Texts read from the database are UTF-8, as its encoding promises.
\<close>

section \<open>Printing\<close>

datatype printed = Out string | Err string | Usage

record cli_text =
  ct_error :: "rp_error \<Rightarrow> string"
  ct_broker :: "broker_error \<Rightarrow> string"
  ct_config :: "cfg_error list \<Rightarrow> string"
  ct_time :: "int \<Rightarrow> string"
  ct_quote :: "string \<Rightarrow> string"
  ct_indent :: "bytes \<Rightarrow> string option"

definition firstLine :: "string \<Rightarrow> nat \<Rightarrow> string" where
  "firstLine s0 n =
     (let s = takeWhile (\<lambda>c. [c] \<noteq> newline) s0
      in if length s > n then take n s @ ellipsis else s)"

definition plural :: "nat \<Rightarrow> string" where
  "plural n = (if n = 1 then ''y'' else ''ies'')"

text \<open>The columns are as wide as their longest cell in bytes; \<open>fmt\<close> pads by characters.\<close>

record table =
  tb_header :: "string list option"
  tb_rows :: "string list list"
  tb_widths :: "nat list"

definition newTableWriter :: table where
  "newTableWriter = \<lparr>tb_header = None, tb_rows = [], tb_widths = []\<rparr>"

definition table_row :: "string list \<Rightarrow> table \<Rightarrow> table" where
  "table_row cells t =
     (case tb_header t of
        None \<Rightarrow> t\<lparr>tb_header := Some cells, tb_widths := tb_widths t @ map length cells\<rparr>
      | Some h \<Rightarrow>
          t\<lparr>tb_rows := tb_rows t @ [cells],
            tb_widths := map (\<lambda>i. if i < length cells \<and> length (cells ! i) > tb_widths t ! i
                                  then length (cells ! i) else tb_widths t ! i) [0..<length (tb_widths t)]\<rparr>)"

definition rune_count :: "string \<Rightarrow> nat" where
  "rune_count s = length (filter (\<lambda>c. code_of c < 128 \<or> code_of c \<ge> 192) s)"

definition pad_cell :: "nat \<Rightarrow> string \<Rightarrow> string" where
  "pad_cell w c = c @ replicate (w - rune_count c) (CHR '' '') @ ''  ''"

text \<open>\<open>None\<close> for the panic of a row with more cells than the header.\<close>

definition print_row :: "nat list \<Rightarrow> string list \<Rightarrow> string option" where
  "print_row widths cells =
     (if cells = [] then Some newline
      else if length cells - 1 > length widths then None
      else Some (concat (map (\<lambda>(w, c). pad_cell w c) (zip widths (butlast cells))) @ last cells @ newline))"

definition table_flush :: "table \<Rightarrow> string list option" where
  "table_flush t =
     those (map (print_row (tb_widths t)) ((case tb_header t of None \<Rightarrow> [] | Some h \<Rightarrow> h) # tb_rows t))"

section \<open>The subcommands\<close>

definition entry_row :: "cli_text \<Rightarrow> dead_row \<Rightarrow> string list" where
  "entry_row x e =
     [d_event_id e, d_reason e, dec_int (d_attempts e), ct_time x (d_last_failed_at e),
      d_topic e @ ''/'' @ dec_int (d_partition e) @ ''/'' @ dec_int (d_offset e), firstLine (d_error e) 60]"

definition list_header :: "string list" where
  "list_header = [''EVENT ID'', ''REASON'', ''ATTEMPTS'', ''LAST FAILED'', ''ORIGIN'', ''ERROR'']"

definition error_line :: "cli_text \<Rightarrow> rp_error \<Rightarrow> printed" where
  "error_line x e = Err (''replay: '' @ ct_error x e @ newline)"

definition cmdList ::
  "cli_text \<Rightarrow> (string \<times> int) option \<Rightarrow> rp_store \<Rightarrow> query_fault option \<Rightarrow> sink_db \<Rightarrow> (nat \<times> printed list) option" where
  "cmdList x flags st fault db =
     (case flags of
        None \<Rightarrow> Some (2, [])
      | Some (state, limit) \<Rightarrow>
          (case ListDead (Some st) fault \<lparr>fa_state = state, fa_limit = limit\<rparr> db of
             Inl e \<Rightarrow> Some (1, [error_line x e])
           | Inr entries \<Rightarrow>
               if length entries = 0 then
                 Some (0, [Out (''no dead letters in state '' @ ct_quote x state @ newline)])
               else
                 map_option (\<lambda>ls. (0, map Out ls @
                     [Out (newline @ dec_nat (length entries) @ '' entr'' @ plural (length entries) @ newline)]))
                   (table_flush (foldl (\<lambda>t e. table_row (entry_row x e) t) (table_row list_header newTableWriter) entries))))"

definition show_lines :: "cli_text \<Rightarrow> dead_row \<Rightarrow> string list" where
  "show_lines x e =
     [''event_id        '' @ d_event_id e @ newline, ''state           '' @ d_state e @ newline,
      ''reason          '' @ d_reason e @ newline, ''attempts        '' @ dec_int (d_attempts e) @ newline,
      ''origin          '' @ d_topic e @ '' partition '' @ dec_int (d_partition e) @ '' offset '' @
        dec_int (d_offset e) @ newline,
      ''first failed    '' @ ct_time x (d_first_failed_at e) @ newline,
      ''last failed     '' @ ct_time x (d_last_failed_at e) @ newline] @
     (case d_replayed_at e of None \<Rightarrow> [] | Some t \<Rightarrow> [''replayed at     '' @ ct_time x t @ newline]) @
     [''error           '' @ d_error e @ newline,
      newline @ ''payload ('' @ dec_nat (length (d_raw_payload e)) @ '' bytes)'' @ newline,
      (case ct_indent x (d_raw_payload e) of Some out \<Rightarrow> out | None \<Rightarrow> d_raw_payload e) @ newline]"

definition cmdShow ::
  "cli_text \<Rightarrow> string option \<Rightarrow> pg_lib \<Rightarrow> rp_store \<Rightarrow> pg_error option \<Rightarrow> sink_db \<Rightarrow> nat \<times> printed list" where
  "cmdShow x flags pg st fault db =
     (case flags of
        None \<Rightarrow> (2, [])
      | Some eventID \<Rightarrow>
          if eventID = [] then (2, [Err (''replay show: --event-id is required'' @ newline)])
          else (case GetDead pg (Some st) fault eventID db of
                  Inl e \<Rightarrow> (1, [error_line x e])
                | Inr e \<Rightarrow> (0, map Out (show_lines x e))))"

record replay_flags =
  rf_event_id :: string
  rf_all :: bool
  rf_limit :: int

text \<open>\<open>created\<close> and \<open>pinged\<close> are the answers of the broker, \<open>env\<close> and \<open>envs\<close> those of the replays.\<close>

definition cmdReplay ::
  "cli_text \<Rightarrow> replay_flags option \<Rightarrow> pg_lib \<Rightarrow> broker_cfg \<Rightarrow> bool \<Rightarrow> bool \<Rightarrow> rp_store \<Rightarrow> rp_env \<Rightarrow>
     query_fault option \<Rightarrow> (nat \<Rightarrow> rp_env option) \<Rightarrow> wire_record list \<times> sink_db \<Rightarrow>
     (nat \<times> printed list) \<times> wire_record list \<times> sink_db" where
  "cmdReplay x flags pg b created pinged st env fault envs s =
     (case flags of
        None \<Rightarrow> ((2, []), s)
      | Some f \<Rightarrow>
          if rf_event_id f = [] \<and> \<not> rf_all f then
            ((2, [Err (''replay replay: give either --event-id or --all'' @ newline)]), s)
          else if rf_event_id f \<noteq> [] \<and> rf_all f then
            ((2, [Err (''replay replay: --event-id and --all are mutually exclusive'' @ newline)]), s)
          else (case NewProducer (cb_seeds b) ''esp-replay'' created pinged of
                  Inl e \<Rightarrow> ((1, [Err (''replay: '' @ ct_broker x e @ newline)]), s)
                | Inr _ \<Rightarrow>
                    (case NewReplayer (Some st) True of
                       Inl e \<Rightarrow> ((1, [error_line x e]), s)
                     | Inr rp \<Rightarrow>
                         if rf_event_id f \<noteq> [] then
                           (case Replay pg (Some rp) env (rf_event_id f) s of
                              (Inl e, s1) \<Rightarrow> ((1, [error_line x e]), s1)
                            | (Inr r, s1) \<Rightarrow>
                                ((0, [Out (''republished '' @ d_event_id (res_entry r) @ '' to '' @ d_topic (res_entry r) @
                                       '' (origin partition '' @ dec_int (d_partition (res_entry r)) @ '' offset '' @
                                       dec_int (d_offset (res_entry r)) @ '')'' @ newline),
                                     Out (''the consumer will process it again; a previously applied event is absorbed by its deduplication key'' @ newline)]), s1))
                         else
                           (case ReplayAll pg (Some rp) fault envs (rf_limit f) s of
                              (rs, errs, Some e, s1) \<Rightarrow> ((1, [error_line x e]), s1)
                            | (rs, errs, None, s1) \<Rightarrow>
                                ((if length errs > 0 then 1 else 0,
                                  map (\<lambda>r. Out (''republished '' @ d_event_id (res_entry r) @ '' (was '' @
                                      dec_int (d_attempts (res_entry r)) @ '' attempts, reason '' @
                                      d_reason (res_entry r) @ '')'' @ newline)) rs @
                                  map (\<lambda>e. Err (''  failed: '' @ ct_error x e @ newline)) errs @
                                  [Out (newline @ dec_nat (length rs) @ '' republished, '' @ dec_nat (length errs) @
                                     '' failed'' @ newline)]), s1)))))"

section \<open>The command\<close>

text \<open>
  \<open>run\<close> up to the subcommand: \<open>opened\<close> is the answer of \<open>db.Open\<close>, with its text when it failed; the
  subcommand is named by its constructor.
\<close>

datatype dispatched = Exit nat "printed list" | ListCmd rp_store | ShowCmd rp_store | ReplayCmd rp_store config

definition run_replay :: "cli_text \<Rightarrow> string list \<Rightarrow> cfg_error list + config \<Rightarrow> string + unit \<Rightarrow> dispatched" where
  "run_replay x args loaded opened =
     (case args of
        [] \<Rightarrow> Exit 2 [Usage]
      | cmd # rest \<Rightarrow>
          if cmd = ''help'' \<or> cmd = ''-h'' \<or> cmd = ''--help'' then Exit 0 [Usage]
          else (case loaded of
                  Inl es \<Rightarrow> Exit 1 [Err (''replay: '' @ ct_config x es @ newline)]
                | Inr cfg \<Rightarrow>
                    (case opened of
                       Inl e \<Rightarrow> Exit 1 [Err (''replay: '' @ e @ newline)]
                     | Inr _ \<Rightarrow>
                         (case NewReplayStore True of
                            Inl e \<Rightarrow> Exit 1 [error_line x e]
                          | Inr st \<Rightarrow>
                              if cmd = ''list'' then ListCmd st
                              else if cmd = ''show'' then ShowCmd st
                              else if cmd = ''replay'' then ReplayCmd st cfg
                              else Exit 2 [Err (''replay: unknown command '' @ ct_quote x cmd @ newline @ newline), Usage]))))"

section \<open>Exit codes\<close>

lemma table_row_widths:
  "tb_header t \<noteq> None \<Longrightarrow> tb_header (table_row cells t) = tb_header t \<and>
   length (tb_widths (table_row cells t)) = length (tb_widths t) \<and> tb_rows (table_row cells t) = tb_rows t @ [cells]"
  by (auto simp: table_row_def)

lemma table_of_entries:
  "tb_header t \<noteq> None \<Longrightarrow>
   tb_header (foldl (\<lambda>t e. table_row (entry_row x e) t) t es) = tb_header t \<and>
   length (tb_widths (foldl (\<lambda>t e. table_row (entry_row x e) t) t es)) = length (tb_widths t) \<and>
   tb_rows (foldl (\<lambda>t e. table_row (entry_row x e) t) t es) = tb_rows t @ map (entry_row x) es"
proof (induction es arbitrary: t)
  case (Cons e es)
  have "tb_header (table_row (entry_row x e) t) \<noteq> None"
    using table_row_widths [OF Cons.prems] Cons.prems by simp
  from Cons.IH [OF this] table_row_widths [OF Cons.prems, of "entry_row x e"] show ?case by simp
qed simp

lemma those_Some: "(\<forall>y \<in> set ys. y \<noteq> None) \<Longrightarrow> \<exists>xs. those ys = Some xs \<and> length xs = length ys"
proof (induction ys)
  case (Cons y ys)
  then obtain xs where "those ys = Some xs" "length xs = length ys" by auto
  with Cons.prems show ?case by (cases y) auto
qed simp

text \<open>Listing never panics and exits with 0, 1 for a failed read, or 2 for flags it cannot parse.\<close>

lemma cmdList_total:
  "\<exists>code out. cmdList x flags st fault db = Some (code, out) \<and> code \<le> 2 \<and> (code = 2 \<longleftrightarrow> flags = None) \<and>
     (code = 0 \<longrightarrow> out \<noteq> [])"
proof (cases flags)
  case None
  then show ?thesis by (simp add: cmdList_def)
next
  case (Some sl)
  obtain state limit where sl: "sl = (state, limit)" by (metis surj_pair)
  show ?thesis
  proof (cases "ListDead (Some st) fault \<lparr>fa_state = state, fa_limit = limit\<rparr> db")
    case (Inl e)
    with Some sl show ?thesis by (simp add: cmdList_def)
  next
    case (Inr entries)
    let ?hd = "table_row list_header newTableWriter"
    let ?t = "foldl (\<lambda>t e. table_row (entry_row x e) t) ?hd entries"
    have t0: "tb_header ?hd = Some list_header" "length (tb_widths ?hd) = 6" "tb_rows ?hd = []"
      by (simp_all add: table_row_def newTableWriter_def list_header_def)
    with table_of_entries [of ?hd x entries]
    have t: "tb_header ?t = Some list_header" "length (tb_widths ?t) = 6" "tb_rows ?t = map (entry_row x) entries"
      by simp_all
    have "\<exists>ls. table_flush ?t = Some ls \<and> length ls = Suc (length entries)"
      using those_Some [of "map (print_row (tb_widths ?t)) (list_header # map (entry_row x) entries)"] t
      by (auto simp: table_flush_def print_row_def list_header_def entry_row_def)
    with Some sl Inr show ?thesis by (auto simp: cmdList_def)
  qed
qed

text \<open>
  What the operator is told about a drain: exit code 0 exactly when it ran to its end and no entry
  failed. A drain that was cancelled prints its error alone, whatever it republished before.
\<close>

lemma drain_exit_code:
  assumes "rf_all f" and "rf_event_id f = []" and "NewProducer (cb_seeds b) ''esp-replay'' created pinged = Inr cl"
    and "ReplayAll pg (Some \<lparr>rp_store = Some st, rp_pub = True\<rparr>) fault envs (rf_limit f) s = (rs, errs, err, s1)"
  shows "\<exists>code out. cmdReplay x (Some f) pg b created pinged st env fault envs s = ((code, out), s1) \<and>
    (code = 0 \<longleftrightarrow> err = None \<and> errs = []) \<and> code \<le> 1 \<and>
    (\<forall>e. err = Some e \<longrightarrow> out = [error_line x e])"
  using assms by (cases err) (auto simp: cmdReplay_def NewReplayer_def)

text \<open>
  The comments say that a usage error needs no working deployment and exits with 2. An unknown
  command on a host without the database exits with 1, and so does a state that is none.
\<close>

lemma unknown_command_needs_database:
  "run_replay x [''bogus''] (Inr cfg) (Inl e) = Exit 1 [Err (''replay: '' @ e @ newline)]"
  "cmdList x (Some (''bogus'', 10)) \<lparr>rs_pool = True\<rparr> None db = Some (1, [error_line x (RpState ''bogus'')])"
  by (simp_all add: run_replay_def cmdList_def ListDead_def NormalizeState_def StateDead_def StateReplayed_def)

end
