(* ===== verification/Logging.thy ===== *)
theory Logging
  imports Config "HOL-Library.Sublist"
begin

text \<open>
  The logger every binary shares, \<open>internal/platform/logging/logging.go\<close>: the keys it redacts, the
  filter of one attribute, and the handler that wraps the JSON handler of \<open>log/slog\<close>.

  Of \<open>log/slog\<close> the model has what a call of the logger reaches: the level test, the attributes and
  groups a derived logger carries, and the attributes of one line as they are written, a value that
  computes itself (\<open>LogValuer\<close>) resolved at that point. Values are the texts they are written as. The
  instant and the source position pass through and are left out.
\<close>

section \<open>Levels\<close>

text \<open>The levels are the integers -4, 0, 4 and 8 of \<open>log/slog\<close>.\<close>

definition level_num :: "level \<Rightarrow> int" where
  "level_num l = (case l of LevelDebug \<Rightarrow> -4 | LevelInfo \<Rightarrow> 0 | LevelWarn \<Rightarrow> 4 | LevelError \<Rightarrow> 8)"

lemma level_num_inj: "level_num a = level_num b \<longleftrightarrow> a = b"
  by (cases a; cases b) (simp_all add: level_num_def)

instantiation level :: linorder
begin

definition less_eq_level :: "level \<Rightarrow> level \<Rightarrow> bool" where
  "less_eq_level a b \<longleftrightarrow> level_num a \<le> level_num b"

definition less_level :: "level \<Rightarrow> level \<Rightarrow> bool" where
  "less_level a b \<longleftrightarrow> level_num a < level_num b"

instance
  by standard (auto simp: less_eq_level_def less_level_def level_num_inj)

end

section \<open>Attributes\<close>

datatype log_value = LText string | LGroup "log_attr list" | LLater log_value
  and log_attr = LAttr string log_value

definition redactedKeys :: "string list" where
  "redactedKeys = [''password'', ''passwd'', ''secret'', ''token'', ''authorization'', ''api_key'', ''apikey'',
     ''cookie'', ''credential'', ''private_key'', ''dsn'', ''database_url'', ''redis_url'', ''payload'', ''body'']"

definition redacted :: string where
  "redacted = ''[REDACTED]''"

definition shouldRedact :: "string \<Rightarrow> bool" where
  "shouldRedact key = (let k = to_lower key in list_ex (\<lambda>r. sublist r k) redactedKeys)"

fun filterAttr :: "log_attr \<Rightarrow> log_attr" where
  "filterAttr (LAttr k v) =
     (if shouldRedact k then LAttr k (LText redacted)
      else (case v of
              LGroup members \<Rightarrow> LAttr k (LGroup (map filterAttr members))
            | _ \<Rightarrow> LAttr k v))"

section \<open>The JSON handler\<close>

text \<open>What a derived handler carries, in the order of the derivations.\<close>

datatype scope_op = OpAttrs "log_attr list" | OpGroup string

record json_handler =
  jh_level :: level
  jh_scope :: "scope_op list"

record log_record =
  lr_level :: level
  lr_message :: string
  lr_attrs :: "log_attr list"

fun rendered :: "scope_op list \<Rightarrow> log_attr list \<Rightarrow> log_attr list" where
  "rendered [] attrs = attrs"
| "rendered (OpAttrs pre # ops) attrs = pre @ rendered ops attrs"
| "rendered (OpGroup g # ops) attrs = [LAttr g (LGroup (rendered ops attrs))]"

definition json_handle :: "json_handler \<Rightarrow> log_record \<Rightarrow> log_record" where
  "json_handle h r = r\<lparr>lr_attrs := rendered (jh_scope h) (lr_attrs r)\<rparr>"

section \<open>The redacting handler\<close>

record redactingHandler =
  rh_inner :: json_handler

definition NewLogger :: "level \<Rightarrow> redactingHandler" where
  "NewLogger l = \<lparr>rh_inner = \<lparr>jh_level = l, jh_scope = []\<rparr>\<rparr>"

definition Enabled :: "redactingHandler \<Rightarrow> level \<Rightarrow> bool" where
  "Enabled h l \<longleftrightarrow> jh_level (rh_inner h) \<le> l"

definition Handle :: "redactingHandler \<Rightarrow> log_record \<Rightarrow> log_record" where
  "Handle h r = json_handle (rh_inner h) (r\<lparr>lr_attrs := map filterAttr (lr_attrs r)\<rparr>)"

definition WithAttrs :: "log_attr list \<Rightarrow> redactingHandler \<Rightarrow> redactingHandler" where
  "WithAttrs attrs h =
     h\<lparr>rh_inner := (rh_inner h)\<lparr>jh_scope := jh_scope (rh_inner h) @ [OpAttrs (map filterAttr attrs)]\<rparr>\<rparr>"

definition WithGroup :: "string \<Rightarrow> redactingHandler \<Rightarrow> redactingHandler" where
  "WithGroup g h = h\<lparr>rh_inner := (rh_inner h)\<lparr>jh_scope := jh_scope (rh_inner h) @ [OpGroup g]\<rparr>\<rparr>"

text \<open>A logger derived by calls of \<open>With\<close> and \<open>WithGroup\<close>, and one call of it: the line, if it is written.\<close>

fun derived :: "scope_op list \<Rightarrow> redactingHandler \<Rightarrow> redactingHandler" where
  "derived [] h = h"
| "derived (OpAttrs attrs # ds) h = derived ds (WithAttrs attrs h)"
| "derived (OpGroup g # ds) h = derived ds (WithGroup g h)"

definition logged :: "redactingHandler \<Rightarrow> log_record \<Rightarrow> log_record option" where
  "logged h r = (if Enabled h (lr_level r) then Some (Handle h r) else None)"

section \<open>What a line exposes\<close>

text \<open>The texts of an attribute as they are written, with the keys on the way to them.\<close>

fun leaves :: "log_attr \<Rightarrow> (string list \<times> string) list" where
  "leaves (LAttr k (LText t)) = [([k], t)]"
| "leaves (LAttr k (LGroup as)) = map (\<lambda>(p, t). (k # p, t)) (concat (map leaves as))"
| "leaves (LAttr k (LLater v)) = leaves (LAttr k v)"

definition all_leaves :: "log_attr list \<Rightarrow> (string list \<times> string) set" where
  "all_leaves as = (\<Union>a \<in> set as. set (leaves a))"

definition sensitive :: "string list \<Rightarrow> bool" where
  "sensitive p \<longleftrightarrow> (\<exists>k \<in> set p. shouldRedact k)"

text \<open>No value in it computes itself.\<close>

fun eager :: "log_attr \<Rightarrow> bool" where
  "eager (LAttr k (LText t)) = True"
| "eager (LAttr k (LGroup as)) = list_all eager as"
| "eager (LAttr k (LLater v)) = False"

fun eager_op :: "scope_op \<Rightarrow> bool" where
  "eager_op (OpAttrs as) = list_all eager as"
| "eager_op (OpGroup g) = (\<not> shouldRedact g)"

lemma all_leaves_simps [simp]:
  "all_leaves [] = {}" "all_leaves (a # as) = set (leaves a) \<union> all_leaves as"
  "all_leaves (as @ bs) = all_leaves as \<union> all_leaves bs"
  by (auto simp: all_leaves_def)

lemma leaves_group [simp]:
  "(p, t) \<in> set (leaves (LAttr k (LGroup as))) \<longleftrightarrow> (\<exists>q. p = k # q \<and> (q, t) \<in> all_leaves as)"
  by (auto simp: all_leaves_def)

declare leaves.simps(2) [simp del]

lemma sensitive_simps [simp]:
  "\<not> sensitive []" "sensitive (k # p) \<longleftrightarrow> shouldRedact k \<or> sensitive p"
  by (simp_all add: sensitive_def)

lemma filterAttr_hides:
  "eager a \<Longrightarrow> (p, t) \<in> set (leaves (filterAttr a)) \<Longrightarrow> sensitive p \<Longrightarrow> t = redacted"
proof (induction a arbitrary: p rule: filterAttr.induct)
  case (1 k v)
  then show ?case
    by (cases v) (fastforce simp: all_leaves_def list_all_iff split: if_splits)+
qed

lemma leaves_key: "(q, s) \<in> set (leaves (LAttr k u)) \<Longrightarrow> q \<noteq> [] \<and> hd q = k"
  by (induction u) auto

lemma filterAttr_keeps:
  "\<not> sensitive p \<Longrightarrow> (p, t) \<in> set (leaves (filterAttr a)) \<longleftrightarrow> (p, t) \<in> set (leaves a)"
proof (induction a arbitrary: p rule: filterAttr.induct)
  case (1 k v)
  show ?case
  proof (cases "shouldRedact k")
    case True
    with 1(2) leaves_key [of p t k v] show ?thesis by (cases p) auto
  next
    case k: False
    show ?thesis
    proof (cases v)
      case (LGroup as)
      have "(q, t) \<in> all_leaves (map filterAttr as) \<longleftrightarrow> (q, t) \<in> all_leaves as" if "\<not> sensitive q" for q
        using 1(1) [OF k LGroup _ that] by (auto simp: all_leaves_def)
      with k LGroup 1(2) show ?thesis by (cases p) auto
    qed (use k in simp_all)
  qed
qed

lemma filter_all_hides:
  "list_all eager as \<Longrightarrow> (p, t) \<in> all_leaves (map filterAttr as) \<Longrightarrow> sensitive p \<Longrightarrow> t = redacted"
  by (auto simp: all_leaves_def list_all_iff dest: filterAttr_hides)

lemma filter_all_keeps:
  "\<not> sensitive p \<Longrightarrow> (p, t) \<in> all_leaves (map filterAttr as) \<longleftrightarrow> (p, t) \<in> all_leaves as"
  by (auto simp: all_leaves_def filterAttr_keeps)

section \<open>Derived loggers\<close>

fun clean_op :: "scope_op \<Rightarrow> scope_op" where
  "clean_op (OpAttrs as) = OpAttrs (map filterAttr as)"
| "clean_op (OpGroup g) = OpGroup g"

lemma derived_inner:
  "rh_inner (derived ds h) = (rh_inner h)\<lparr>jh_scope := jh_scope (rh_inner h) @ map clean_op ds\<rparr>"
  by (induction ds h rule: derived.induct) (simp_all add: WithAttrs_def WithGroup_def)

lemma rendered_hides:
  "list_all eager_op ops \<Longrightarrow> list_all eager as \<Longrightarrow>
   (p, t) \<in> all_leaves (rendered (map clean_op ops) (map filterAttr as)) \<Longrightarrow> sensitive p \<Longrightarrow> t = redacted"
proof (induction ops arbitrary: p)
  case Nil
  then show ?case using filter_all_hides by simp
next
  case (Cons d ops)
  then show ?case by (cases d) (auto dest: filter_all_hides)
qed

lemma rendered_keeps:
  "\<not> sensitive p \<Longrightarrow>
   (p, t) \<in> all_leaves (rendered (map clean_op ops) (map filterAttr as)) \<longleftrightarrow> (p, t) \<in> all_leaves (rendered ops as)"
proof (induction ops arbitrary: p)
  case Nil
  then show ?case by (simp add: filter_all_keeps)
next
  case (Cons d ops)
  show ?case
  proof (cases d)
    case (OpAttrs bs)
    with Cons show ?thesis by (simp add: filter_all_keeps)
  next
    case (OpGroup g)
    with Cons show ?thesis by (cases p) auto
  qed
qed


text \<open>A token two groups deep, in a logger that carries a password.\<close>

definition sample_call :: log_record where
  "sample_call = \<lparr>lr_level = LevelInfo, lr_message = ''upstream call'',
     lr_attrs = [LAttr ''request'' (LGroup [LAttr ''Token'' (LText ''tok''), LAttr ''attempt'' (LText ''3'')])]\<rparr>"

lemma Token_redacted: "shouldRedact ''Token''"
  by code_simp


section \<open>What the filter does not see\<close>

text \<open>
  The name of a group opened by \<open>WithGroup\<close> is not tested, as the key of a \<open>Group\<close> attribute is; a value
  that computes itself is passed on; and the header of this system's own API key contains none of the
  words. The simulator logs the body of a refusal under a key that is one of them.
\<close>

lemma group_name_not_filtered:
  "logged (derived [OpGroup ''password''] (NewLogger LevelInfo)) \<lparr>lr_level = LevelInfo, lr_message = m,
     lr_attrs = [LAttr ''value'' (LText s)]\<rparr> =
   Some \<lparr>lr_level = LevelInfo, lr_message = m, lr_attrs = [LAttr ''password'' (LGroup [LAttr ''value'' (LText s)])]\<rparr>"
proof -
  have "\<not> shouldRedact ''value''" by code_simp
  then show ?thesis
    by (simp add: logged_def Enabled_def Handle_def json_handle_def WithGroup_def NewLogger_def)
qed

lemma computed_value_not_filtered:
  "\<not> shouldRedact k \<Longrightarrow> filterAttr (LAttr k (LLater (LGroup [LAttr ''password'' (LText s)]))) =
     LAttr k (LLater (LGroup [LAttr ''password'' (LText s)]))"
  by simp

lemma api_key_header_not_sensitive: "\<not> shouldRedact ''X-API-Key''"
  by code_simp

lemma refusal_body_hidden: "filterAttr (LAttr ''body'' (LText s)) = LAttr ''body'' (LText redacted)"
proof -
  have "shouldRedact ''body''" by code_simp
  then show ?thesis by simp
qed

end
