(* ===== verification/Spec2Isabelle.thy ===== *)
theory Spec2Isabelle
  imports Delivery Ledger Metrics Gateway_Live Sse Seam Replay_Props Ingest_Props Config_Props Commands_Props Migrate
    Httpserver Interpolation Submission Producer_Run Replay_Cli Logging
begin

text \<open>
  A model of the event stream platform, a pipeline for vehicle positions written in Go, with the
  theorems that make it correct.

  The program. The simulator (\<open>cmd/simulate\<close>) posts batches of positions to the ingest service
  (\<open>cmd/ingest\<close>), which validates each event, wraps it in a versioned envelope and publishes it on a
  Kafka topic, keyed by vehicle. The consumers (\<open>cmd/consumer\<close>) of one group apply each record to
  Postgres in one transaction that deduplicates by event id, publish what took effect on a Redis channel,
  commit offsets afterwards, and put what they refuse on a dead-letter topic and table. The gateways
  (\<open>cmd/gateway\<close>) stream the frames of the channel to browsers and give a reconnecting browser the part
  of the history it missed. Operators migrate the schema (\<open>cmd/migrate\<close>) and put dead letters back on
  their topic (\<open>cmd/replay\<close>).

  Conventions. \<open>Prelude\<close> fixes them: a Go string is its bytes, an instant a number of nanoseconds since
  the zero time, a machine integer that may wrap a word or an integer reduced explicitly. An error is the
  left of a sum, or \<open>Some\<close> where only the error is returned; a panic is \<open>None\<close>. State is passed
  explicitly; the mutex of the gateway and concurrent goroutines are step relations. What belongs to
  libraries outside the sources is an argument: the syntax of JSON, floats, times and UUIDs (\<open>lib\<close> of
  \<open>Wire\<close>), the conversions of Postgres (\<open>pg_lib\<close>), the answers of Kafka, Redis and the commits of
  Postgres, the arithmetic of \<open>float64\<close> and the random source of the simulator (\<open>fops\<close>, \<open>rng\<close>), the
  clock, minted identifiers and the order in which a map is walked. Hypotheses on them are named in each
  theorem, and a witness instantiates them (\<open>Sample\<close> holds most of the concrete library).

  Theories and sources.

  \<^item> \<open>Wire\<close>, \<open>Event\<close>: decoding of structs from JSON, the envelope and the position with validation,
    \<open>internal/event\<close>. \<open>Event_Props\<close>: what ingest accepts is what the consumer reads back, and it
    satisfies the constraints of the tables.
  \<^item> \<open>Store\<close>: tables and transactions of \<open>internal/sink\<close> and \<open>db.InTx\<close>, statement by statement with
    faults. \<open>Sink\<close>, \<open>Sink_Props\<close>: invariant of the tables, effectively-once, atomicity, late data,
    convergence. \<open>Ledger\<close>: the abstract specification, one append-only list, and the refinement.
    \<open>History\<close>: the reads behind a resume, \<open>replay_view.go\<close>.
  \<^item> \<open>Broker\<close>, \<open>Fanout\<close>: the clients of Kafka and Redis, \<open>internal/platform/broker\<close> and
    \<open>internal/fanout\<close>. \<open>DeadLetters\<close>: topic first and table second, \<open>internal/consumer/deadletter.go\<close>.
  \<^item> \<open>Consumer\<close>: \<open>internal/consumer/consumer.go\<close> over a record of what it calls. \<open>Consumer_Ports\<close>: the
    contract of those calls as a locale and the consumer's correctness from it; \<open>Consumer_Live\<close>
    interprets it on the modelled sink, dead-letter sink and bus; \<open>Consumer_Props\<close>: commits, loss,
    termination, frames.
  \<^item> \<open>Http\<close>, \<open>Gateway\<close>: \<open>internal/platform/httperr\<close>, \<open>reqid\<close> and \<open>internal/gateway/gateway.go\<close>, whose
    process is the relation \<open>gw_step\<close>. \<open>Gateway_Inv\<close>, \<open>Gateway_Props\<close>: no panic, bounds, nothing missed
    while connected. \<open>Gateway_Live\<close>: what becomes of a dropped client. \<open>Gateway_Resume\<close>: the resume
    against the contract of its history source. \<open>Sse\<close>: what a browser's \<open>EventSource\<close> reads from
    the bytes of a stream, against the reader of the HTML standard. \<open>Seam\<close>: sink and gateway
    together, no gap between the resume and the live stream.
  \<^item> \<open>Ingest\<close>, \<open>Ingest_Props\<close>: \<open>internal/ingest/handler.go\<close>. \<open>Replay\<close>, \<open>Replay_Props\<close>, \<open>Replay_Cli\<close>:
    \<open>internal/replay\<close> and \<open>cmd/replay\<close> with everything it prints.
  \<^item> \<open>Config\<close>, \<open>Wiring\<close>, \<open>Config_Props\<close>: \<open>internal/platform/config\<close> on the state monad, and what a
    configuration that loads guarantees. \<open>Migrations\<close>, \<open>Migrations_Props\<close>, \<open>Migrate\<close>:
    \<open>internal/platform/migrations\<close> and \<open>cmd/migrate\<close>. \<open>Httpserver\<close>: liveness, readiness, the prober and
    the shutdown. \<open>Logging\<close>: the redacting logger. \<open>Metrics\<close>: the collectors, their registration and
    their labels. \<open>Commands\<close>, \<open>Commands_Props\<close>: the services from configuration to exit, \<open>db.Open\<close>, the
    lag check.
  \<^item> \<open>Simulator\<close>, \<open>Geometry\<close>, \<open>Fleet\<close>: \<open>internal/simulator\<close>; \<open>Interpolation\<close>: its binary search
    against a linear walk along the route. \<open>Producer\<close>, \<open>Producer_Run\<close>: \<open>cmd/simulate\<close>, its batches and
    its pool of workers. \<open>Submission\<close>: producer, endpoint, log and consumer together.
  \<^item> \<open>Delivery\<close>: what one fault-free delivery does on its way from the log through consumer, sink and
    bus to a gateway. This theory: the two theorems from a submission to the tables and to the clients.

  Interfaces. \<open>stepwise_invariant\<close> (an invariant of steps holds in runs), \<open>effectively_once\<close> (an
  operation that takes effect at most once per key: \<open>Apply\<close>, and the marking of a dead letter),
  \<open>dead_letterer\<close>, \<open>consumer_ports\<close> and \<open>consumer_invariant\<close>, \<open>history_source\<close>, \<open>log_publisher\<close> and
  \<open>orderly_command\<close>; each is interpreted on the definitions of the model in the theory of its provider.

  Bounds. Nothing runs on fuel. The retry loop of the consumer recurses on the attempts that are left,
  backoff and topic retries likewise; endless loops (\<open>Run\<close>, the stream of a connection, the bus, the
  generator) run on the list of events the outside delivers, so that a theorem about all lists is one
  about every finite part of a run. Sequence numbers are 64-bit words, \<open>bigint\<close> and \<open>int32\<close>
  conversions are written out.

  Not modelled: log lines, except for what the logger redacts; observed durations; the routing, the
  listener and the deadlines of \<open>net/http\<close>; the addresses and timeouts handed to clients unchanged; the
  pacing and the periodic report of the simulator; minting of identifiers (\<open>idgen\<close>, a call of a library);
  the script of the viewer page; the connections of the integration tests. Where the code departs from its
  comments or from what it means to do, a lemma shows it and its text says so.
\<close>

section \<open>End to end\<close>

text \<open>
  C1. From the submission to the tables, once: an observation ingest accepted, published and
  delivered to a consumer whose database answers is finished with at the first delivery and has its
  history row, built from the accepted position; and when the same bytes are delivered again, at
  any position of the log and to any consumer process, the delivery is finished with as well and
  the database stays exactly as it was.
\<close>

theorem submitted_once_applied_once:
  assumes acc: "Accept l raw src now fresh = Inr (env, pos)" and now: "now \<noteq> 0"
    and pc: "position_codec l pos" and ec: "envelope_codec l env" and empty: "json_scan l [] = Incomplete"
    and r: "Marshal l env = Inr wire" "kr_value r = Some wire" "kr_value r' = Some wire"
    and inv: "sink_inv (w_db w)" and pool: "st_pool (s_store s)"
    and ok: "storable (s_pg s) (st_consumer_id (s_store s)) (input_of env pos r)"
    and u: "pg_uuid (s_pg s) (event_id env) = Some u" "u \<notin> dom (processed_events (w_db w))"
    and tx: "e_tx e (w_calls w) = calm t1"
  shows "\<exists>w'. processOne c l t (live_deps s e) r w = (True, w') \<and>
    position_row_of (s_pg s) u t1 (input_of env pos r) \<in> set (vehicle_positions (w_db w')) \<and>
    (\<forall>e' w1. w_db w1 = w_db w' \<and> e_tx e' (w_calls w1) = calm t2 \<longrightarrow>
       (\<exists>w2. processOne c' l t' (live_deps s e') r' w1 = (True, w2) \<and> w_db w2 = w_db w'))"
proof -
  have key: "key_of_input (s_pg s) (input_of env pos x) = Some u" for x
    using u(1) by (simp add: key_of_input_def input_of_def)
  have p1: "processOne c l t (live_deps s e) r w = apply_loop c t (live_deps s e) env pos r 0 w"
    by (rule submission_decoded [OF acc now pc ec empty r(1,2)])
  have p2: "processOne c' l t' (live_deps s e') r' w1 = apply_loop c' t' (live_deps s e') env pos r' 0 w1"
    for e' w1
    by (rule submission_decoded [OF acc now pc ec empty r(1,3)])
  from apply_loop_calm [OF inv pool tx ok key, of c t 0] obtain w' where
    w': "processOne c l t (live_deps s e) r w = (True, w')"
      "w_db w' = apply_effect (s_pg s) (st_consumer_id (s_store s)) t1 (input_of env pos r) u (w_db w)"
    unfolding p1 if_not_P [OF u(2)] by (elim exE conjE)
  have inv': "sink_inv (w_db w')"
    using Apply_inv [OF inv, of "s_pg s" "Some (s_store s)" "calm t1" "input_of env pos r"]
      Apply_calm [OF inv ok pool key, of t1] u(2) w'(2) by simp
  have "\<exists>w2. processOne c' l t' (live_deps s e') r' w1 = (True, w2) \<and> w_db w2 = w_db w'"
    if w1: "w_db w1 = w_db w'" "e_tx e' (w_calls w1) = calm t2" for e' w1
  proof -
    have "u \<in> dom (processed_events (w_db w1))" by (simp add: w1(1) w'(2))
    moreover have "sink_inv (w_db w1)" using inv' w1(1) by simp
    ultimately show ?thesis
      unfolding p2
      using apply_loop_calm [OF _ pool w1(2) ok [unfolded storable_input_of [of _ _ env pos r r']] key, of c' t' 0]
        w1(1) by simp
  qed
  moreover have "position_row_of (s_pg s) u t1 (input_of env pos r) \<in> set (vehicle_positions (w_db w'))"
    by (simp add: w'(2) apply_effect_def)
  ultimately show ?thesis using w'(1) by blast
qed

theorem submitted_once_applied_once_witness:
  "\<exists>w'. processOne sample_options sample_lib sample_texts (live_deps sample_site calm_environ)
        sample_krecord start_world = (True, w') \<and> vehicle_positions (w_db w') \<noteq> [] \<and>
     (\<exists>w2. processOne sample_options sample_lib sample_texts (live_deps sample_site calm_environ)
        (sample_krecord\<lparr>kr_offset := 9\<rparr>) w' = (True, w2) \<and> w_db w2 = w_db w')"
proof -
  have wire: "Marshal sample_lib sample_envelope = Inr sample_wire"
    by (simp add: sample_eval Marshal_def envelope_members_def text_str_def text_int_def text_time_def
        raw_member_def)
  have start: "sink_inv (w_db start_world)" "''u1'' \<notin> dom (processed_events (w_db start_world))"
    by (simp add: start_world_def sink_inv_empty) (simp add: start_world_def empty_db_def)
  have site: "s_pg sample_site = sample_pg" "s_store sample_site = sample_store"
    "st_consumer_id sample_store = ''c''" "st_pool sample_store"
    by (simp_all add: sample_site_def sample_store_def)
  have tx: "e_tx calm_environ n = calm 5000" for n by (simp add: calm_environ_def)
  have "\<exists>w'. processOne sample_options sample_lib sample_texts (live_deps sample_site calm_environ)
        sample_krecord start_world = (True, w') \<and>
    position_row_of sample_pg ''u1'' 5000 (input_of sample_envelope sample_position sample_krecord) \<in>
      set (vehicle_positions (w_db w')) \<and>
    (\<forall>e' w1. w_db w1 = w_db w' \<and> e_tx e' (w_calls w1) = calm 5000 \<longrightarrow>
       (\<exists>w2. processOne sample_options sample_lib sample_texts (live_deps sample_site e')
          (sample_krecord\<lparr>kr_offset := 9\<rparr>) w1 = (True, w2) \<and> w_db w2 = w_db w'))"
    unfolding site(1) [symmetric]
    by (rule submitted_once_applied_once [OF sample_Accept _ sample_position_codec sample_envelope_codec
          sample_scan_Nil wire])
      (use start sample_storable sample_key in \<open>simp_all add: site tx sample_input_of sample_now_def
          sample_krecord_def [THEN arg_cong, of kr_value] key_of_input_def sample_input_def\<close>)
  then show ?thesis using tx by (metis empty_iff empty_set)
qed

text \<open>
  C2. From the submission to the screens: an observation ingest accepted and a consumer receives, for an
  event that is new, over a database and a bus that answer, puts one frame with the values of the accepted
  report on the bus. Every gateway that holds the channel open and has room in it reads the same frame from the
  message; in every state a gateway can be in, it offers the frame to each connected client, which gets it
  or, when its buffer is full, is let go, never skipped; and a handler that takes the frame writes it under
  the identifier of the event, with exactly the bytes of the message.
\<close>

theorem submitted_report_reaches_every_client:
  assumes acc: "Accept l raw src now fresh = Inr (env, pos)" and now: "now \<noteq> 0"
    and pc: "position_codec l pos" and ec: "envelope_codec l env" and empty: "json_scan l [] = Incomplete"
    and r: "Marshal l env = Inr wire" "kr_value r = Some wire"
    and inv: "sink_inv (w_db w)" and pool: "st_pool (s_store s)"
    and ok: "storable (s_pg s) (st_consumer_id (s_store s)) (input_of env pos r)"
    and u: "pg_uuid (s_pg s) (event_id env) = Some u" "u \<notin> dom (processed_events (w_db w))"
    and tx: "e_tx e (w_calls w) = calm t1"
    and bus: "s_lib s = l" "s_pub s = Some p" "re_client p" "e_redis e (Suc (w_calls w)) = Inr n"
    and fc: "frame_codec l (live_frame env pos)"
    and gw: "NewGateway hub hist logger o0 = Inr g0" "gw_step\<^sup>*\<^sup>* (gsys_start g0) t"
  shows "\<exists>w' m g'. processOne c l texts (live_deps s e) r w = (True, w') \<and>
    w_bus w' = w_bus w @ [live_frame env pos] \<and> marshal_frame l (live_frame env pos) = Some m \<and>
    (\<forall>out. length out < frames_capacity \<longrightarrow> frames_loop l [Msg m] out = (out @ [live_frame env pos], False)) \<and>
    broadcast (live_frame env pos) (sy_gw t) = Some g' \<and>
    (\<forall>k \<in> set (gw_clients (sy_gw t)). \<exists>ch. gw_chans (sy_gw t) k = Some ch \<and> offered (live_frame env pos) k ch g') \<and>
    (\<forall>g cn ch rest. gw_chans g (cn_client cn) = Some ch \<and> ch_buf ch = live_frame env pos # rest \<and>
       (\<forall>j. rs_ok (cn_resp cn) j) \<longrightarrow>
       (\<exists>cn' g1. stream_step l Receive cn g = Some (Some (live_frame env pos), cn', g1) \<and>
          rs_body (cn_resp cn') = rs_body (cn_resp cn) @ [position_chunk (live_frame env pos) m]))"
proof -
  let ?f = "live_frame env pos"
  have valid: "frame_validate ?f = None" using Accept_header [OF acc] by (intro live_frame_valid)
  from frame_received [OF fc valid] obtain m where
    m: "marshal_frame l ?f = Some m"
      "\<forall>out. length out < frames_capacity \<longrightarrow> frames_loop l [Msg m] out = (out @ [?f], False)" by (elim exE conjE)
  have key: "key_of_input (s_pg s) (input_of env pos r) = Some u"
    using u(1) by (simp add: key_of_input_def input_of_def)
  from apply_loop_outcome [OF inv pool tx ok key, of c texts 0] u(2) obtain out w1 where
    run: "apply_loop c texts (live_deps s e) env pos r 0 w = (True, after_apply (live_deps s e) env pos out w1)"
      "w_bus w1 = w_bus w" "w_calls w1 = Suc (w_calls w)" "out \<noteq> OutcomeDuplicate" by auto
  have on_bus: "w_bus (after_apply (live_deps s e) env pos out w1) = w_bus w @ [?f]"
    using after_apply_publishes [OF run(4) bus(2,3) valid, of m e w1 n] bus(1,4) m(1) run(2,3) by simp
  have ok_t: "sys_ok t" by (rule reachable_ok [OF gw])
  then have gok: "gw_ok (sy_gw t)" by (rule sys_okD)
  then have cl: "distinct (gw_clients (sy_gw t))" "set (gw_clients (sy_gw t)) \<subseteq> dom (gw_chans (sy_gw t))"
    by (simp_all add: gw_ok_def)
  from broadcast_to_spec [OF gok cl(1) subset_refl, of ?f] obtain g' where
    g': "broadcast ?f (sy_gw t) = Some g'"
      "\<forall>k ch. k \<in> set (gw_clients (sy_gw t)) \<longrightarrow> gw_chans (sy_gw t) k = Some ch \<longrightarrow> offered ?f k ch g'"
    by (auto simp: broadcast_def)
  have offers: "\<forall>k \<in> set (gw_clients (sy_gw t)). \<exists>ch. gw_chans (sy_gw t) k = Some ch \<and> offered ?f k ch g'"
    using g'(2) cl(2) by blast
  have writes: "\<forall>g cn ch rest. gw_chans g (cn_client cn) = Some ch \<and> ch_buf ch = ?f # rest \<and>
       (\<forall>j. rs_ok (cn_resp cn) j) \<longrightarrow>
       (\<exists>cn' g1. stream_step l Receive cn g = Some (Some ?f, cn', g1) \<and>
          rs_body (cn_resp cn') = rs_body (cn_resp cn) @ [position_chunk ?f m])"
    using frame_written [of _ _ _ ?f _ l m] m(1) by blast
  have "processOne c l texts (live_deps s e) r w = (True, after_apply (live_deps s e) env pos out w1)"
    using submission_decoded [OF acc now pc ec empty r, of c texts "live_deps s e" w] run(1) by simp
  with on_bus m g'(1) offers writes show ?thesis by blast
qed

lemma sample_frame_codec: "frame_codec sample_lib (live_frame sample_envelope sample_position)"
  by (simp add: sample_eval frame_codec_def float_codec_def time_codec_def frame_members_def live_frame_def
      text_float_def member_float_ptr_def text_time_def text_str_def text_uint64_def)

text \<open>Two clients are connected; one message reaches both.\<close>

theorem submitted_report_reaches_every_client_witness:
  "\<exists>w' m g'. processOne sample_options sample_lib sample_texts (live_deps live_site calm_environ) sample_krecord
      start_world = (True, w') \<and> w_bus w' = [live_frame sample_envelope sample_position] \<and>
     marshal_frame sample_lib (live_frame sample_envelope sample_position) = Some m \<and>
     frames_loop sample_lib [Msg m] [] = ([live_frame sample_envelope sample_position], False) \<and>
     broadcast (live_frame sample_envelope sample_position) (sy_gw (two_state 0 (Admitted 1) (Admitted 2))) = Some g' \<and>
     (\<exists>ch. gw_chans g' 1 = Some ch \<and> ch_buf ch = [live_frame sample_envelope sample_position])"
proof -
  let ?f = "live_frame sample_envelope sample_position" and ?t = "two_state 0 (Admitted 1) (Admitted 2)"
  have wire: "Marshal sample_lib sample_envelope = Inr sample_wire"
    by (simp add: sample_eval Marshal_def envelope_members_def text_str_def text_int_def text_time_def
        raw_member_def)
  have start: "sink_inv (w_db start_world)" "''u1'' \<notin> dom (processed_events (w_db start_world))"
    by (simp add: start_world_def sink_inv_empty) (simp add: start_world_def empty_db_def)
  have site: "s_pg live_site = sample_pg" "s_store live_site = sample_store" "s_lib live_site = sample_lib"
    "s_pub live_site = Some \<lparr>re_client = True, re_channel = ''ch''\<rparr>"
    "st_consumer_id sample_store = ''c''" "st_pool sample_store"
    by (simp_all add: live_site_def sample_site_def sample_store_def)
  have env: "e_tx calm_environ k = calm 5000" "e_redis calm_environ k = Inr 1" for k by (simp_all add: calm_environ_def)
  have pg: "pg_uuid (s_pg live_site) (event_id sample_envelope) = Some ''u1''"
    using sample_key by (simp add: site key_of_input_def sample_input_def)
  have ok: "storable (s_pg live_site) (st_consumer_id (s_store live_site)) (input_of sample_envelope sample_position sample_krecord)"
    using sample_storable by (simp add: site sample_input_of)
  have val: "kr_value sample_krecord = Some sample_wire" by (simp add: sample_krecord_def)
  have now: "sample_now \<noteq> 0" by (simp add: sample_now_def)
  have pool: "st_pool (s_store live_site)" by (simp add: site)
  have cl: "re_client \<lparr>re_client = True, re_channel = ''ch''\<rparr>" by simp
  note P = submitted_report_reaches_every_client [OF sample_Accept now sample_position_codec sample_envelope_codec
      sample_scan_Nil wire val start(1) pool ok pg start(2) env(1) site(3,4) cl env(2) sample_frame_codec
      two_gw_new two_admitted, of sample_options sample_texts]
  then obtain w' m g' where
    w: "processOne sample_options sample_lib sample_texts (live_deps live_site calm_environ) sample_krecord
      start_world = (True, w')" "w_bus w' = w_bus start_world @ [?f]" and
    m: "marshal_frame sample_lib ?f = Some m"
      "\<forall>out. length out < frames_capacity \<longrightarrow> frames_loop sample_lib [Msg m] out = (out @ [?f], False)" and
    g: "broadcast ?f (sy_gw ?t) = Some g'"
      "\<forall>k \<in> set (gw_clients (sy_gw ?t)). \<exists>ch. gw_chans (sy_gw ?t) k = Some ch \<and> offered ?f k ch g'" by blast
  have "1 \<in> set (gw_clients (sy_gw ?t))" and "gw_chans (sy_gw ?t) 1 = Some (open_chan [])"
    by (simp_all add: two_state_def)
  with g(2) have "offered ?f 1 (open_chan []) g'" by fastforce
  then have "\<exists>ch. gw_chans g' 1 = Some ch \<and> ch_buf ch = [?f]" by (simp add: offered_def open_chan_def)
  moreover have "w_bus w' = [?f]" using w(2) by (simp add: start_world_def)
  moreover have "frames_loop sample_lib [Msg m] [] = ([?f], False)" using m(2) by (simp add: frames_capacity_def)
  ultimately show ?thesis using w(1) m(1) g(1) by blast
qed

end
